(* ===== verification/Prelude.thy ===== *)
theory Prelude
  imports Complex_Main "HOL-Library.Sublist"
begin

text \<open>
  Shared vocabulary of the memory-engine development: the names of the model's basic
  types, the named collections that the component theories fill, and generic lemmas on
  lists and options that several components use.
\<close>

section \<open>Basic types\<close>

text \<open>
  JavaScript numbers that hold epoch milliseconds (\<open>Date.now()\<close>, \<open>timestamp\<close>,
  \<open>lastAccessed\<close>) are integral in this program and are modelled as \<open>int\<close>;
  importance values, scores and embedding components are modelled as \<open>real\<close>
  (rounding of IEEE doubles is not modelled). Identifiers and texts are strings.
\<close>

type_synonym time = int
type_synonym memory_id = string

section \<open>Named collections\<close>

named_theorems js_simps "characteristic equations of the JavaScript runtime helpers"
named_theorems store_simps "characteristic equations of the record store"

section \<open>Generic lemmas on lists\<close>

lemma filter_take_subset: "set (filter P (take n xs)) \<subseteq> set (filter P xs)"
  by (induction xs arbitrary: n) (auto simp: take_Cons split: nat.splits)

lemma sorted_wrt_take [intro]: "sorted_wrt R xs \<Longrightarrow> sorted_wrt R (take n xs)"
  by (metis append_take_drop_id sorted_wrt_append)

lemma sorted_wrt_filter [intro]: "sorted_wrt R xs \<Longrightarrow> sorted_wrt R (filter P xs)"
  by (induction xs) auto

lemma distinct_map_filter [intro]: "distinct (map f xs) \<Longrightarrow> distinct (map f (filter P xs))"
  by (induction xs) auto

lemma map_of_filter_key:
  "map_of (filter (\<lambda>(k', _). k' \<noteq> k) xs) = (map_of xs)(k := None)"
  by (induction xs) (auto simp: fun_eq_iff)

lemma take_drop_sorted_wrt:
  "sorted_wrt R xs \<Longrightarrow> a \<in> set (take k xs) \<Longrightarrow> b \<in> set xs \<Longrightarrow> b \<notin> set (take k xs) \<Longrightarrow> R a b"
  by (metis Un_iff append_take_drop_id set_append sorted_wrt_append)

lemma find_append_None: "find P xs = None \<Longrightarrow> find P (xs @ ys) = find P ys"
  by (induction xs) (simp_all split: if_splits)

end
