(* ===== verification/Js_Runtime.thy ===== *)
theory Js_Runtime
  imports Prelude
begin

text \<open>
  The JavaScript built-ins that the sources call on arrays and strings, with the
  behaviour the ECMAScript specification gives them: \<open>Array.prototype.slice(0, n)\<close>,
  \<open>String.prototype.trim\<close>, \<open>toLowerCase\<close>, \<open>split\<close> on a single-character
  separator and on the pattern \<open>/\s+/\<close>, \<open>includes\<close> and \<open>join\<close>. They are library
  code, not code of the repository: each comes with the lemmas the component proofs use.
  Strings are lists of 8-bit characters; white space is the ASCII part of ECMAScript's
  \<open>WhiteSpace\<close> and \<open>LineTerminator\<close> classes, and case mapping is the ASCII part
  of \<open>toLowerCase\<close>.
\<close>

section \<open>Arrays\<close>

text \<open>
  \<open>xs.slice(0, n)\<close>: a negative end counts from the end of the array, an end past
  the length is clamped to it.
\<close>

definition js_slice_prefix :: "int \<Rightarrow> 'a list \<Rightarrow> 'a list" where
  "js_slice_prefix n xs = take (if n < 0 then nat (int (length xs) + n) else nat n) xs"

section \<open>Numbers\<close>

text \<open>
  A JavaScript number is a real or \<open>NaN\<close> (infinities and the sign of zero are not
  modelled). \<open>js_truthy_num\<close> is its truthiness, \<open>js_to_integer\<close> the abstract
  operation \<open>ToIntegerOrInfinity\<close> that \<open>slice\<close> applies to its arguments (truncation
  toward zero, \<open>NaN\<close> to 0), and \<open>js_integral\<close> holds of the numbers that are
  integers, which SQLite accepts where it needs an integer.
\<close>

datatype js_number = Num real | NaN

fun js_truthy_num :: "js_number \<Rightarrow> bool" where
  "js_truthy_num (Num x) \<longleftrightarrow> x \<noteq> 0"
| "js_truthy_num NaN \<longleftrightarrow> False"

fun js_to_integer :: "js_number \<Rightarrow> int" where
  "js_to_integer (Num x) = (if 0 \<le> x then \<lfloor>x\<rfloor> else \<lceil>x\<rceil>)"
| "js_to_integer NaN = 0"

fun js_integral :: "js_number \<Rightarrow> bool" where
  "js_integral (Num x) \<longleftrightarrow> x = of_int \<lfloor>x\<rfloor>"
| "js_integral NaN \<longleftrightarrow> False"

text \<open>
  \<open>Number(s)\<close> and \<open>Date.parse(s)\<close> on strings are host functions of the model: the
  front ends take them as the fields of a \<open>js_host\<close>, so no lemma depends on how
  JavaScript reads a numeral or a date.
\<close>

record js_host =
  js_Number :: "string \<Rightarrow> js_number"
  js_Date_parse :: "string \<Rightarrow> js_number"

text \<open>Truthiness of an optional string: \<open>undefined\<close> and \<open>""\<close> are falsy.\<close>

definition js_truthy_str :: "string option \<Rightarrow> bool" where
  "js_truthy_str v \<longleftrightarrow> (case v of None \<Rightarrow> False | Some s \<Rightarrow> s \<noteq> [])"

section \<open>Characters and strings\<close>

definition is_js_space :: "char \<Rightarrow> bool" where
  "is_js_space c \<longleftrightarrow> of_char c \<in> {9, 10, 11, 12, 13, 32 :: nat}"

definition js_trim :: "string \<Rightarrow> string" where
  "js_trim s = rev (dropWhile is_js_space (rev (dropWhile is_js_space s)))"

definition js_lower_char :: "char \<Rightarrow> char" where
  "js_lower_char c =
     (let n = (of_char c :: nat) in if 65 \<le> n \<and> n \<le> 90 then char_of (n + 32) else c)"

definition js_lower :: "string \<Rightarrow> string" where
  "js_lower s = map js_lower_char s"

section \<open>Splitting, searching and joining\<close>

fun cons_first :: "'a \<Rightarrow> 'a list list \<Rightarrow> 'a list list" where
  "cons_first c [] = [[c]]"
| "cons_first c (w # ws) = (c # w) # ws"

text \<open>\<open>s.split(sep)\<close> for a one-character separator: a split at every separator.\<close>

fun js_split_sep :: "(char \<Rightarrow> bool) \<Rightarrow> string \<Rightarrow> string list" where
  "js_split_sep p [] = [[]]"
| "js_split_sep p (c # cs) =
     (if p c then [] # js_split_sep p cs else cons_first c (js_split_sep p cs))"

text \<open>\<open>s.split(/\s+/)\<close>: a split at every maximal run of separators.\<close>

function js_split_runs :: "(char \<Rightarrow> bool) \<Rightarrow> string \<Rightarrow> string list" where
  "js_split_runs p [] = [[]]"
| "js_split_runs p (c # cs) =
     (if p c then [] # js_split_runs p (dropWhile p cs) else cons_first c (js_split_runs p cs))"
  by pat_completeness auto
termination
  by (relation "measure (\<lambda>(p, s). length s)") (auto simp: le_imp_less_Suc length_dropWhile_le)

text \<open>\<open>s.includes(t)\<close>: \<open>t\<close> occurs in \<open>s\<close> at some position.\<close>

fun js_includes :: "string \<Rightarrow> string \<Rightarrow> bool" where
  "js_includes [] t \<longleftrightarrow> t = []"
| "js_includes (c # s) t \<longleftrightarrow> prefix t (c # s) \<or> js_includes s t"

text \<open>\<open>xs.join(sep)\<close>.\<close>

fun js_join :: "string \<Rightarrow> string list \<Rightarrow> string" where
  "js_join sep [] = []"
| "js_join sep [x] = x"
| "js_join sep (x # y # zs) = x @ sep @ js_join sep (y # zs)"

section \<open>Lemmas\<close>


lemma js_to_integer_of_int [simp]: "js_to_integer (Num (of_int n)) = n"
  by simp

lemma js_integral_to_integer: "js_integral v \<Longrightarrow> v = Num (of_int (js_to_integer v))"
  by (cases v) (auto, metis ceiling_of_int)

lemma js_slice_prefix_nonneg [simp, js_simps]:
  "0 \<le> n \<Longrightarrow> js_slice_prefix n xs = take (nat n) xs"
  by (simp add: js_slice_prefix_def)

lemma js_slice_prefix_prefix: "prefix (js_slice_prefix n xs) xs"
  by (simp add: js_slice_prefix_def take_is_prefix)

lemma set_js_slice_prefix: "set (js_slice_prefix n xs) \<subseteq> set xs"
  by (simp add: js_slice_prefix_def set_take_subset)

lemma length_js_slice_prefix:
  "0 \<le> n \<Longrightarrow> length (js_slice_prefix n xs) = min (nat n) (length xs)"
  by simp

lemma js_slice_prefix_append:
  "\<exists>rest. xs = js_slice_prefix n xs @ rest"
  using js_slice_prefix_prefix by (auto simp: prefix_def)

lemma js_slice_prefix_take: "\<exists>k. js_slice_prefix n xs = take k xs"
  by (auto simp: js_slice_prefix_def)

lemma all_dropWhile_iff: "(\<forall>x\<in>set (dropWhile P s). P x) \<longleftrightarrow> (\<forall>x\<in>set s. P x)"
  by (induction s) auto

lemma js_trim_empty_iff: "js_trim s = [] \<longleftrightarrow> list_all is_js_space s"
  by (simp add: js_trim_def list_all_iff dropWhile_eq_Nil_conv all_dropWhile_iff)

lemma length_js_trim: "length (js_trim s) \<le> length s"
proof -
  have "length (js_trim s) \<le> length (dropWhile is_js_space s)"
    by (metis js_trim_def length_dropWhile_le length_rev)
  also have "\<dots> \<le> length s" by (rule length_dropWhile_le)
  finally show ?thesis .
qed

lemma js_trim_sublist: "sublist (js_trim s) s"
proof -
  have "suffix (dropWhile is_js_space s) s"
    by (simp add: suffix_dropWhile)
  moreover have "prefix (rev (dropWhile is_js_space (rev (dropWhile is_js_space s))))
                        (dropWhile is_js_space s)"
    by (metis prefix_dropWhile rev_rev_ident suffix_to_prefix suffix_dropWhile)
  ultimately show ?thesis
    unfolding js_trim_def by (meson prefix_imp_sublist sublist_order.dual_order.trans suffix_imp_sublist)
qed

lemma js_trim_idem [simp]: "js_trim (js_trim s) = js_trim s"
proof (cases "js_trim s = []")
  case True
  have "js_trim [] = []" by (simp add: js_trim_def)
  with True show ?thesis by simp
next
  case False
  define d where "d = dropWhile is_js_space s"
  define r where "r = dropWhile is_js_space (rev d)"
  have t: "js_trim s = rev r" by (simp add: js_trim_def d_def r_def)
  have r_ne: "r \<noteq> []" using False t by simp
  have "rev d = takeWhile is_js_space (rev d) @ r" by (simp add: r_def)
  then have d: "d = rev r @ rev (takeWhile is_js_space (rev d))" by (metis rev_append rev_rev_ident)
  have "d \<noteq> []" using d r_ne by auto
  then have "\<not> is_js_space (hd d)" by (simp add: d_def hd_dropWhile)
  moreover have "hd d = hd (rev r)" using r_ne by (subst d) (simp add: hd_append)
  ultimately have h: "\<not> is_js_space (hd (rev r))" by simp
  have l: "\<not> is_js_space (hd r)" using r_ne by (simp add: r_def hd_dropWhile)
  have "dropWhile is_js_space (rev r) = rev r" using h r_ne by (cases "rev r") auto
  moreover have "dropWhile is_js_space r = r" using l r_ne by (cases r) auto
  ultimately have "js_trim (rev r) = rev r" by (simp add: js_trim_def)
  with t show ?thesis by simp
qed

lemma set_js_trim: "set (js_trim s) \<subseteq> set s"
  using js_trim_sublist set_mono_sublist by blast

lemma js_split_sep_append_free:
  assumes "js_split_sep p ys = w # ws" and "\<not> list_ex p xs"
  shows "js_split_sep p (xs @ ys) = (xs @ w) # ws"
  using assms by (induction xs) auto

lemma js_split_sep_ne: "js_split_sep p s \<noteq> []"
  by (induction s) (auto, metis cons_first.elims list.distinct(1))

lemma js_split_sep_free: "list_all (\<lambda>w. \<not> list_ex p w) (js_split_sep p s)"
proof (induction s)
  case Nil
  then show ?case by simp
next
  case (Cons c cs)
  then show ?case by (cases "js_split_sep p cs") auto
qed

lemma js_split_sep_single: "\<not> list_ex p w \<Longrightarrow> js_split_sep p w = [w]"
  using js_split_sep_append_free [of p "[]" "[]" "[]" w] by simp

lemma js_split_sep_join:
  assumes "p c" and "ws \<noteq> []" and "list_all (\<lambda>w. \<not> list_ex p w) ws"
  shows "js_split_sep p (js_join [c] ws) = ws"
  using assms(2,3)
proof (induction ws rule: induct_list012)
  case (3 x y zs)
  have "js_split_sep p (c # js_join [c] (y # zs)) = [] # y # zs"
    using 3 assms(1) by simp
  then show ?case
    using js_split_sep_append_free [of p "c # js_join [c] (y # zs)" "[]" "y # zs" x] "3.prems"
    by simp
qed (simp_all add: js_split_sep_single)

lemma js_includes_iff_sublist: "js_includes s t \<longleftrightarrow> sublist t s"
  by (induction s) (auto simp: sublist_Cons_right)

end
