(* ===== verification/Memory_Types.thy ===== *)
theory Memory_Types
  imports Js_Runtime
begin

text \<open>
  The data model of \<open>src/types.ts\<close>: the closed set of memory categories, the stored
  record, the caller's input and the option bags of the listing and search operations,
  together with the error taxonomy that every fallible operation of the model returns
  (\<open>engine_error + 'a\<close>, the error on the left, as a thrown exception in the code).
\<close>

section \<open>Categories\<close>

datatype category = Decision | Lesson | Preference | Episode | Fact | Person | Project

text \<open>The string literal of each category, as in the union type \<open>MemoryCategory\<close>.\<close>

fun category_name :: "category \<Rightarrow> string" where
  "category_name Decision = ''decision''"
| "category_name Lesson = ''lesson''"
| "category_name Preference = ''preference''"
| "category_name Episode = ''episode''"
| "category_name Fact = ''fact''"
| "category_name Person = ''person''"
| "category_name Project = ''project''"

text \<open>The set \<open>CATEGORIES\<close> of \<open>src/index.ts\<close>, in its order.\<close>

definition CATEGORIES :: "category list" where
  "CATEGORIES = [Decision, Lesson, Preference, Episode, Fact, Person, Project]"

text \<open>
  \<open>CATEGORIES.has(s)\<close> followed by the cast \<open>s as MemoryCategory\<close>: the runtime
  parse of a category string.
\<close>

definition category_of_string :: "string \<Rightarrow> category option" where
  "category_of_string s = find (\<lambda>c. category_name c = s) CATEGORIES"

section \<open>Records\<close>

text \<open>\<open>MemoryRecord\<close>; the field \<open>id\<close> is \<open>mem_id\<close> (the name \<open>id\<close> is HOL's identity).\<close>

record memory_record =
  mem_id :: memory_id
  content :: string
  category :: category
  tags :: "string list"
  timestamp :: time
  importance :: real
  embedding :: "real list"
  lastAccessed :: time

text \<open>
  \<open>MemoryInput\<close>; optional fields are options (\<open>??\<close> in the code replaces only
  \<open>undefined\<close>), and the category is the string the caller sent, which the engine
  validates at run time.
\<close>

record memory_input =
  input_content :: string
  input_category :: string
  input_tags :: "string list option"
  input_timestamp :: "time option"
  input_importance :: "real option"

record search_options =
  so_limit :: "js_number option"
  so_category :: "category option"
  so_tags :: "string list option"
  so_keyword :: "string option"

record list_options =
  lo_category :: "category option"
  lo_tags :: "string list option"
  lo_since :: "js_number option"
  lo_until :: "js_number option"
  lo_limit :: "js_number option"
  lo_offset :: "js_number option"

record search_result =
  sr_memory :: memory_record
  score :: real

section \<open>Errors\<close>

text \<open>
  One constructor per exception the core can raise. \<open>StoreConstraint\<close>,
  \<open>StoreSyntax\<close> and \<open>StoreMismatch\<close> (a \<open>LIMIT\<close> or \<open>OFFSET\<close> that is not an
  integer) are the ways the SQLite statements of \<open>src/store.ts\<close> fail;
  \<open>SummaryTypeError\<close> is the \<open>TypeError\<close> of reading \<open>slice[0].timestamp\<close> on an
  empty slice in \<open>src/summarizer.ts\<close>.
\<close>

datatype engine_error =
    EmptyContent
  | MissingCategory
  | InvalidCategory string
  | EmptyQuery
  | MissingId
  | EmbeddingUnavailable
  | EmbeddingFailed
  | EmbeddingApiError
  | StoreConstraint
  | StoreSyntax
  | StoreMismatch
  | WalParseError
  | SummaryTypeError

section \<open>Categories as an enumeration\<close>

text \<open>The category type is finite: \<open>CATEGORIES\<close> lists all of it, so quantifiers over categories are executable.\<close>

instantiation category :: enum
begin

definition enum_category :: "category list" where
  "enum_category = CATEGORIES"

definition enum_all_category :: "(category \<Rightarrow> bool) \<Rightarrow> bool" where
  "enum_all_category P = list_all P CATEGORIES"

definition enum_ex_category :: "(category \<Rightarrow> bool) \<Rightarrow> bool" where
  "enum_ex_category P = list_ex P CATEGORIES"

lemma UNIV_category: "UNIV = set CATEGORIES"
proof (rule set_eqI)
  fix c :: category
  show "c \<in> UNIV \<longleftrightarrow> c \<in> set CATEGORIES"
    by (cases c) (simp_all add: CATEGORIES_def)
qed

instance
  by standard (simp_all add: UNIV_category enum_category_def enum_all_category_def
    enum_ex_category_def CATEGORIES_def list_all_iff list_ex_iff)

end

section \<open>Lemmas on categories\<close>

lemma category_of_string_name [simp]: "category_of_string (category_name c) = Some c"
  by (cases c) (simp_all add: category_of_string_def CATEGORIES_def)

lemma category_of_string_Some:
  "category_of_string s = Some c \<Longrightarrow> category_name c = s"
  by (auto simp: category_of_string_def dest: find_Some_iff [THEN iffD1])

lemma category_name_inj: "inj category_name"
  by (metis category_of_string_name injI option.inject)

lemma category_name_nonempty [simp]: "category_name c \<noteq> []"
  by (cases c) simp_all

section \<open>Properties\<close>

text \<open>
  Parsing a category string (the check \<open>CATEGORIES.has\<close> and the cast) accepts exactly the seven literals of \<open>MemoryCategory\<close> and returns the category whose literal it is.
\<close>

theorem category_parse_roundtrip:
  "category_of_string s = Some c \<longleftrightarrow> category_name c = s"
  using category_of_string_Some category_of_string_name by blast

end
