(* ===== verification/Store.thy ===== *)
theory Store
  imports Memory_Types
begin

text \<open>
  The record store of \<open>src/store.ts\<close> (class \<open>SQLiteStore\<close>). The table
  \<open>memories\<close> is the list of its rows in rowid order, the order in which a full scan
  (\<open>SELECT * FROM memories\<close>) returns them: an insert appends a row, an upsert that hits
  an existing key rewrites the row in place, a delete removes it. Each statement is one
  function from the table to a result and the new table; a statement that SQLite rejects
  returns its error. \<open>store_lookup\<close> is the abstraction of a table to a map from
  identifiers to records, and the refinement lemmas state every statement as an update of
  that map.
\<close>

type_synonym store_table = "memory_record list"

section \<open>Statements\<close>

definition store_ids :: "store_table \<Rightarrow> memory_id list" where
  "store_ids t = map mem_id t"

text \<open>\<open>addMemory\<close>: a plain \<open>INSERT\<close>; the primary key rejects a duplicate id.\<close>

definition store_addMemory :: "memory_record \<Rightarrow> store_table \<Rightarrow> engine_error + store_table" where
  "store_addMemory m t =
     (if mem_id m \<in> set (store_ids t) then Inl StoreConstraint else Inr (t @ [m]))"

text \<open>\<open>upsertMemory\<close>: \<open>INSERT \<dots> ON CONFLICT(id) DO UPDATE SET\<close> every column.\<close>

definition upsertMemory :: "memory_record \<Rightarrow> store_table \<Rightarrow> store_table" where
  "upsertMemory m t =
     (if mem_id m \<in> set (store_ids t)
      then map (\<lambda>r. if mem_id r = mem_id m then m else r) t
      else t @ [m])"

text \<open>\<open>getMemory\<close>: \<open>SELECT * \<dots> WHERE id = ?\<close>, the first matching row.\<close>

definition getMemory :: "memory_id \<Rightarrow> store_table \<Rightarrow> memory_record option" where
  "getMemory i t = find (\<lambda>r. mem_id r = i) t"

text \<open>\<open>deleteMemory\<close>: \<open>DELETE \<dots> WHERE id = ?\<close>, true iff a row changed.\<close>

definition deleteMemory :: "memory_id \<Rightarrow> store_table \<Rightarrow> bool \<times> store_table" where
  "deleteMemory i t =
     (let t' = filter (\<lambda>r. mem_id r \<noteq> i) t in (length t' < length t, t'))"

definition getAllMemories :: "store_table \<Rightarrow> memory_record list" where
  "getAllMemories t = t"

definition updateAccess :: "memory_id \<Rightarrow> time \<Rightarrow> store_table \<Rightarrow> store_table" where
  "updateAccess i ts t = map (\<lambda>r. if mem_id r = i then r\<lparr>lastAccessed := ts\<rparr> else r) t"

definition updateImportance :: "memory_id \<Rightarrow> real \<Rightarrow> store_table \<Rightarrow> store_table" where
  "updateImportance i x t = map (\<lambda>r. if mem_id r = i then r\<lparr>importance := x\<rparr> else r) t"

text \<open>\<open>pruneBelowImportance\<close>: both conditions of the \<open>WHERE\<close> clause are required.\<close>

definition pruneBelowImportance :: "real \<Rightarrow> time \<Rightarrow> store_table \<Rightarrow> nat \<times> store_table" where
  "pruneBelowImportance thr older t =
     (let t' = filter (\<lambda>r. \<not> (importance r < thr \<and> timestamp r < older)) t
      in (length t - length t', t'))"

definition store_count :: "store_table \<Rightarrow> nat" where
  "store_count t = length t"

section \<open>Listing\<close>

text \<open>
  \<open>listMemories\<close> builds its SQL from the options. A filter is added only when the
  option is truthy in JavaScript, so \<open>since\<close> and \<open>until\<close> equal to 0 or \<open>NaN\<close>
  add no clause; a clause compares the integer timestamp with the number as given.
  \<open>ORDER BY timestamp DESC\<close> is served by the index on \<open>timestamp\<close>, scanned
  backwards: rows of equal timestamp come in descending rowid order, which is
  \<open>rev (sort_key timestamp rows)\<close> for rows in rowid order (SQL itself leaves that order
  open; no lemma below depends on it). \<open>LIMIT\<close> and \<open>OFFSET\<close> are bound to the
  numbers as given (\<open>typeof NaN\<close> is \<open>"number"\<close> too); SQLite's \<open>MustBeInt\<close> rejects
  a bound value that is not an integer (\<open>NaN\<close> is bound as \<open>NULL\<close>) with \<open>datatype
  mismatch\<close>, the limit before the offset (\<open>sql_int\<close>). A negative \<open>LIMIT\<close> means no
  limit, a negative \<open>OFFSET\<close> counts as zero, and \<open>OFFSET\<close> without \<open>LIMIT\<close> is a
  syntax error of SQLite. The tag filter runs in JavaScript after the limit and offset.
\<close>

definition list_where :: "list_options \<Rightarrow> memory_record \<Rightarrow> bool" where
  "list_where opts r \<longleftrightarrow>
     (case lo_category opts of None \<Rightarrow> True | Some c \<Rightarrow> category r = c) \<and>
     (case lo_since opts of Some (Num s) \<Rightarrow> s = 0 \<or> s \<le> of_int (timestamp r) | _ \<Rightarrow> True) \<and>
     (case lo_until opts of Some (Num u) \<Rightarrow> u = 0 \<or> of_int (timestamp r) \<le> u | _ \<Rightarrow> True)"

definition sql_int :: "js_number \<Rightarrow> engine_error + int" where
  "sql_int v = (if js_integral v then Inr (js_to_integer v) else Inl StoreMismatch)"

definition sql_limit_offset ::
  "js_number option \<Rightarrow> js_number option \<Rightarrow> 'a list \<Rightarrow> engine_error + 'a list" where
  "sql_limit_offset lmt ofs rows =
     (case (lmt, ofs) of
        (None, None) \<Rightarrow> Inr rows
      | (None, Some _) \<Rightarrow> Inl StoreSyntax
      | (Some lv, k_opt) \<Rightarrow>
          (case sql_int lv of
             Inl e \<Rightarrow> Inl e
           | Inr l \<Rightarrow>
               (case (case k_opt of None \<Rightarrow> Inr 0 | Some kv \<Rightarrow> sql_int kv) of
                  Inl e \<Rightarrow> Inl e
                | Inr k \<Rightarrow>
                    (let rows' = drop (nat k) rows
                     in Inr (if l < 0 then rows' else take (nat l) rows')))))"

definition has_tags :: "string list \<Rightarrow> memory_record \<Rightarrow> bool" where
  "has_tags ts r \<longleftrightarrow> list_all (\<lambda>tag. tag \<in> set (tags r)) ts"

definition tag_filter :: "string list option \<Rightarrow> memory_record list \<Rightarrow> memory_record list" where
  "tag_filter ts rows =
     (case ts of Some ts' \<Rightarrow> if ts' \<noteq> [] then filter (has_tags ts') rows else rows | None \<Rightarrow> rows)"

definition listMemories :: "list_options \<Rightarrow> store_table \<Rightarrow> engine_error + memory_record list" where
  "listMemories opts t =
     (case sql_limit_offset (lo_limit opts) (lo_offset opts)
             (rev (sort_key timestamp (filter (list_where opts) t))) of
        Inl e \<Rightarrow> Inl e
      | Inr rows \<Rightarrow> Inr (tag_filter (lo_tags opts) rows))"

section \<open>Abstraction to a map\<close>

definition store_lookup :: "store_table \<Rightarrow> memory_id \<rightharpoonup> memory_record" where
  "store_lookup t = map_of (map (\<lambda>r. (mem_id r, r)) t)"

definition store_inv :: "store_table \<Rightarrow> bool" where
  "store_inv t \<longleftrightarrow> distinct (store_ids t)"

section \<open>Rows and their JSON columns\<close>

text \<open>
  The table \<open>memories\<close> as \<open>init\<close> creates it: the tags and the embedding are TEXT
  columns holding JSON. \<open>serialize\<close> binds a record to a row with
  \<open>JSON.stringify\<close>, \<open>deserialize\<close> reads a row back with \<open>JSON.parse\<close>; the JSON
  functions are the fields of a \<open>json_codec\<close>. \<open>JSON.parse\<close> throws on malformed text,
  which \<open>deserialize\<close> returns as \<open>None\<close>; the cast \<open>row.category as MemoryCategory\<close>
  is read as the category whose literal the column holds, and a column that holds no
  such literal is \<open>None\<close> as well, since \<open>memory_record\<close> cannot carry it.
\<close>

record memory_row =
  row_id :: string
  row_content :: string
  row_category :: string
  row_tags :: string
  row_timestamp :: int
  row_importance :: real
  row_embedding :: string
  row_lastAccessed :: int

record json_codec =
  json_stringify_tags :: "string list \<Rightarrow> string"
  json_parse_tags :: "string \<Rightarrow> string list option"
  json_stringify_nums :: "real list \<Rightarrow> string"
  json_parse_nums :: "string \<Rightarrow> real list option"

definition serialize :: "json_codec \<Rightarrow> memory_record \<Rightarrow> memory_row" where
  "serialize J m =
     \<lparr>row_id = mem_id m, row_content = content m, row_category = category_name (category m),
      row_tags = json_stringify_tags J (tags m), row_timestamp = timestamp m, row_importance = importance m,
      row_embedding = json_stringify_nums J (embedding m), row_lastAccessed = lastAccessed m\<rparr>"

definition deserialize :: "json_codec \<Rightarrow> memory_row \<Rightarrow> memory_record option" where
  "deserialize J r =
     (case json_parse_tags J (row_tags r) of
        None \<Rightarrow> None
      | Some tgs \<Rightarrow>
          (case json_parse_nums J (row_embedding r) of
             None \<Rightarrow> None
           | Some emb \<Rightarrow>
               map_option (\<lambda>c. \<lparr>mem_id = row_id r, content = row_content r, category = c, tags = tgs,
                                 timestamp = row_timestamp r, importance = row_importance r,
                                 embedding = emb, lastAccessed = row_lastAccessed r\<rparr>)
                 (category_of_string (row_category r))))"

text \<open>
  \<open>getMemory\<close> on the rows: \<open>SELECT * \<dots> WHERE id = ?\<close> and \<open>deserialize\<close>;
  \<open>None\<close> is a thrown parse error, \<open>Some None\<close> the absent row.
\<close>

definition getMemory_row :: "json_codec \<Rightarrow> memory_id \<Rightarrow> memory_row list \<Rightarrow> memory_record option option" where
  "getMemory_row J i rows =
     (case find (\<lambda>r. row_id r = i) rows of
        None \<Rightarrow> Some None
      | Some r \<Rightarrow> map_option Some (deserialize J r))"

text \<open>\<open>getAllMemories\<close> on the rows: \<open>rows.map(deserialize)\<close>, which throws at the first row that does not parse.\<close>

definition getAllMemories_row :: "json_codec \<Rightarrow> memory_row list \<Rightarrow> memory_record list option" where
  "getAllMemories_row J rows = those (map (deserialize J) rows)"

text \<open>\<open>upsertMemory\<close> on the rows: the serialized record replaces the row with its id, or is inserted.\<close>

definition upsertMemory_row :: "json_codec \<Rightarrow> memory_record \<Rightarrow> memory_row list \<Rightarrow> memory_row list" where
  "upsertMemory_row J m rows =
     (if mem_id m \<in> set (map row_id rows)
      then map (\<lambda>r. if row_id r = mem_id m then serialize J m else r) rows
      else rows @ [serialize J m])"

text \<open>The codec reads back the JSON it writes for the records of a table.\<close>

definition codec_ok :: "json_codec \<Rightarrow> store_table \<Rightarrow> bool" where
  "codec_ok J t \<longleftrightarrow>
     list_all (\<lambda>m. json_parse_tags J (json_stringify_tags J (tags m)) = Some (tags m) \<and>
                   json_parse_nums J (json_stringify_nums J (embedding m)) = Some (embedding m)) t"

section \<open>Refinement, invariant and listing lemmas\<close>

lemma deserialize_serialize:
  assumes "json_parse_tags J (json_stringify_tags J (tags m)) = Some (tags m)"
    and "json_parse_nums J (json_stringify_nums J (embedding m)) = Some (embedding m)"
  shows "deserialize J (serialize J m) = Some m"
  using assms by (cases m) (simp add: serialize_def deserialize_def)

lemma find_map_serialize:
  "find (\<lambda>r. row_id r = i) (map (serialize J) t) = map_option (serialize J) (find (\<lambda>m. mem_id m = i) t)"
  by (induction t) (simp_all add: serialize_def)

lemma row_id_serialize [simp]: "row_id (serialize J m) = mem_id m"
  by (simp add: serialize_def)

lemma those_map_Some: "those (map Some xs) = Some xs"
  by (induction xs) simp_all

lemma getAllMemories_row_refines:
  "codec_ok J t \<Longrightarrow> getAllMemories_row J (map (serialize J) t) = Some (getAllMemories t)"
proof -
  assume ok: "codec_ok J t"
  have eq: "map (deserialize J \<circ> serialize J) t = map Some t"
    using ok by (induction t) (simp_all add: codec_ok_def deserialize_serialize)
  show ?thesis
    unfolding getAllMemories_row_def getAllMemories_def map_map eq by (rule those_map_Some)
qed

lemma upsertMemory_row_refines:
  "upsertMemory_row J m (map (serialize J) t) = map (serialize J) (upsertMemory m t)"
  by (auto simp: upsertMemory_row_def upsertMemory_def store_ids_def comp_def)

lemma getMemory_row_refines:
  "codec_ok J t \<Longrightarrow> getMemory_row J i (map (serialize J) t) = Some (getMemory i t)"
proof -
  assume ok: "codec_ok J t"
  show ?thesis
  proof (cases "find (\<lambda>m. mem_id m = i) t")
    case None
    then show ?thesis by (simp add: getMemory_row_def getMemory_def find_map_serialize)
  next
    case (Some m)
    then have "m \<in> set t" by (auto dest: find_Some_iff [THEN iffD1] simp: in_set_conv_nth)
    with ok have "deserialize J (serialize J m) = Some m"
      by (intro deserialize_serialize) (auto simp: codec_ok_def list_all_iff)
    with Some show ?thesis by (simp add: getMemory_row_def getMemory_def find_map_serialize)
  qed
qed

lemma store_lookup_Nil [simp]: "store_lookup [] = Map.empty"
  by (simp add: store_lookup_def)

lemma store_lookup_Cons [simp]:
  "store_lookup (r # t) = (store_lookup t)(mem_id r \<mapsto> r)"
  by (simp add: store_lookup_def)

lemma store_lookup_append_one:
  "mem_id m \<notin> set (store_ids t) \<Longrightarrow> store_lookup (t @ [m]) = (store_lookup t)(mem_id m \<mapsto> m)"
  by (induction t) (auto simp: store_ids_def fun_eq_iff)

lemma dom_store_lookup [simp]: "dom (store_lookup t) = set (store_ids t)"
  by (simp add: store_lookup_def store_ids_def dom_map_of_conv_image_fst image_image)

lemma store_lookup_None: "i \<notin> set (store_ids t) \<Longrightarrow> store_lookup t i = None"
  using dom_store_lookup [of t] by blast

lemma store_lookup_Some_in: "store_lookup t i = Some r \<Longrightarrow> r \<in> set t \<and> mem_id r = i"
  by (induction t) (auto split: if_splits)

lemma getMemory_refines: "getMemory i t = store_lookup t i"
  by (induction t) (auto simp: getMemory_def)

lemma store_addMemory_refines:
  "store_addMemory m t = Inr t' \<Longrightarrow> store_lookup t' = (store_lookup t)(mem_id m \<mapsto> m)"
proof -
  assume "store_addMemory m t = Inr t'"
  then have "mem_id m \<notin> set (store_ids t)" and "t' = t @ [m]"
    by (simp_all add: store_addMemory_def split: if_splits)
  then show ?thesis by (simp add: store_lookup_append_one)
qed

lemma store_addMemory_upsert:
  "store_addMemory m t = Inr t' \<Longrightarrow> t' = upsertMemory m t"
  by (auto simp: store_addMemory_def upsertMemory_def split: if_splits)

lemma store_lookup_replace:
  "mem_id m = k \<Longrightarrow> store_lookup (map (\<lambda>r. if mem_id r = k then m else r) t) =
     (if k \<in> set (store_ids t) then (store_lookup t)(k \<mapsto> m) else store_lookup t)"
  by (induction t) (auto simp: store_ids_def fun_upd_twist)

lemma upsertMemory_refines:
  "store_lookup (upsertMemory m t) = (store_lookup t)(mem_id m \<mapsto> m)"
  by (simp add: upsertMemory_def store_lookup_replace store_lookup_append_one)

lemma deleteMemory_refines:
  "store_lookup (snd (deleteMemory i t)) = (store_lookup t)(i := None)"
  by (induction t) (auto simp: deleteMemory_def Let_def fun_eq_iff)

lemma deleteMemory_removed:
  "fst (deleteMemory i t) \<longleftrightarrow> i \<in> set (store_ids t)"
proof -
  have "length (filter (\<lambda>r. mem_id r \<noteq> i) t) < length t \<longleftrightarrow> (\<exists>r\<in>set t. mem_id r = i)"
    by (induction t) (auto simp: le_imp_less_Suc)
  then show ?thesis by (auto simp: deleteMemory_def store_ids_def)
qed

lemma store_lookup_map_field:
  assumes "\<And>r. mem_id (f r) = mem_id r"
  shows "store_lookup (map (\<lambda>r. if mem_id r = i then f r else r) t) =
         (store_lookup t)(i := map_option f (store_lookup t i))"
  using assms by (induction t) (auto simp: fun_eq_iff)

lemma updateImportance_refines:
  "store_lookup (updateImportance i x t) =
   (store_lookup t)(i := map_option (\<lambda>r. r\<lparr>importance := x\<rparr>) (store_lookup t i))"
  unfolding updateImportance_def by (rule store_lookup_map_field) simp

lemma updateAccess_refines:
  "store_lookup (updateAccess i ts t) =
   (store_lookup t)(i := map_option (\<lambda>r. r\<lparr>lastAccessed := ts\<rparr>) (store_lookup t i))"
  unfolding updateAccess_def by (rule store_lookup_map_field) simp

lemma store_lookup_filter:
  "distinct (store_ids t) \<Longrightarrow>
   store_lookup (filter P t) k = (case store_lookup t k of None \<Rightarrow> None | Some r \<Rightarrow> if P r then Some r else None)"
  by (induction t) (auto simp: store_ids_def store_lookup_None split: option.splits)

lemma store_ids_map_same [simp]:
  "(\<And>r. mem_id (f r) = mem_id r) \<Longrightarrow> store_ids (map (\<lambda>r. if mem_id r = i then f r else r) t) = store_ids t"
  by (induction t) (auto simp: store_ids_def)

lemma store_ids_updateImportance [simp]: "store_ids (updateImportance i x t) = store_ids t"
  by (simp add: updateImportance_def)

lemma store_ids_updateAccess [simp]: "store_ids (updateAccess i ts t) = store_ids t"
  by (simp add: updateAccess_def)

lemma store_inv_filter [intro]: "store_inv t \<Longrightarrow> store_inv (filter P t)"
  by (auto simp: store_inv_def store_ids_def)

lemma store_inv_addMemory:
  "store_inv t \<Longrightarrow> store_addMemory m t = Inr t' \<Longrightarrow> store_inv t'"
  by (auto simp: store_inv_def store_addMemory_def store_ids_def split: if_splits)

lemma store_inv_upsertMemory: "store_inv t \<Longrightarrow> store_inv (upsertMemory m t)"
proof -
  assume inv: "store_inv t"
  have "store_ids (map (\<lambda>r. if mem_id r = mem_id m then m else r) t) = store_ids t"
    by (induction t) (auto simp: store_ids_def)
  moreover have "store_ids (t @ [m]) = store_ids t @ [mem_id m]"
    by (simp add: store_ids_def)
  ultimately show ?thesis
    using inv by (simp add: store_inv_def upsertMemory_def)
qed

lemma store_inv_deleteMemory: "store_inv t \<Longrightarrow> store_inv (snd (deleteMemory i t))"
  by (auto simp: deleteMemory_def Let_def)

lemma store_inv_pruneBelowImportance:
  "store_inv t \<Longrightarrow> store_inv (snd (pruneBelowImportance thr older t))"
  by (auto simp: pruneBelowImportance_def Let_def)

lemma store_inv_updateImportance: "store_inv (updateImportance i x t) = store_inv t"
  by (simp add: store_inv_def)

lemma store_inv_updateAccess: "store_inv (updateAccess i ts t) = store_inv t"
  by (simp add: store_inv_def)

lemma store_count_card: "store_inv t \<Longrightarrow> store_count t = card (dom (store_lookup t))"
  using distinct_card [of "map mem_id t"] by (simp add: store_inv_def store_count_def store_ids_def)

lemma sql_limit_offset_Inr:
  "sql_limit_offset l k rows = Inr rows' \<Longrightarrow> set rows' \<subseteq> set rows \<and>
     (sorted_wrt R rows \<longrightarrow> sorted_wrt R rows')"
  by (auto simp: sql_limit_offset_def Let_def sorted_wrt_drop dest: in_set_dropD in_set_takeD
      split: option.splits prod.splits if_splits sum.splits)

lemma sql_limit_offset_Inl:
  "sql_limit_offset l k rows = Inl e \<longleftrightarrow>
     (l = None \<and> k \<noteq> None \<and> e = StoreSyntax) \<or>
     (l \<noteq> None \<and> (\<exists>v. (l = Some v \<or> k = Some v) \<and> \<not> js_integral v) \<and> e = StoreMismatch)"
  by (auto simp: sql_limit_offset_def sql_int_def Let_def split: option.splits prod.splits sum.splits)

lemma set_tag_filter: "set (tag_filter ts rows) = {r \<in> set rows. has_tags (case ts of None \<Rightarrow> [] | Some ts' \<Rightarrow> ts') r}"
  by (auto simp: tag_filter_def has_tags_def split: option.splits)

lemma listMemories_sound:
  assumes "listMemories opts t = Inr rs" and "r \<in> set rs"
  shows "r \<in> set t \<and> list_where opts r \<and> has_tags (case lo_tags opts of None \<Rightarrow> [] | Some ts \<Rightarrow> ts) r"
  using assms sql_limit_offset_Inr
  by (fastforce simp: listMemories_def set_tag_filter split: sum.splits)

lemma listMemories_sorted:
  assumes "listMemories opts t = Inr rs"
  shows "sorted_wrt (\<lambda>a b. timestamp b \<le> timestamp a) rs"
proof -
  let ?rows = "rev (sort_key timestamp (filter (list_where opts) t))"
  have "sorted_wrt (\<lambda>a b. timestamp b \<le> timestamp a) ?rows"
    using sorted_sort_key [of timestamp "filter (list_where opts) t"]
    by (simp add: sorted_wrt_rev sorted_map)
  with assms show ?thesis
    using sql_limit_offset_Inr
    by (fastforce simp: listMemories_def tag_filter_def split: sum.splits option.splits)
qed

lemma listMemories_limit:
  assumes "lo_limit opts = Some (Num (of_int l))" and "0 \<le> l" and "listMemories opts t = Inr rs"
  shows "length rs \<le> nat l"
proof -
  have "length (tag_filter ts xs) \<le> length xs" for ts xs
    by (simp add: tag_filter_def split: option.splits)
  with assms show ?thesis
    by (fastforce simp: listMemories_def sql_limit_offset_def sql_int_def Let_def
        split: sum.splits option.splits intro: order.trans)
qed

lemma listMemories_unlimited:
  assumes "lo_limit opts = None" and "lo_offset opts = None"
  shows "listMemories opts t =
           Inr (rev (sort_key timestamp (filter (\<lambda>r. list_where opts r \<and>
                  has_tags (case lo_tags opts of None \<Rightarrow> [] | Some ts \<Rightarrow> ts) r) t)))"
  using assms
  by (simp add: listMemories_def sql_limit_offset_def tag_filter_def has_tags_def filter_sort
      rev_filter [symmetric] conj_commute split: option.splits)

section \<open>Properties\<close>

text \<open>
  C10: Every statement of the store refines the abstract map from identifiers to records: \<open>getMemory\<close> is lookup, \<open>upsertMemory\<close> is update, \<open>deleteMemory\<close> removes the key and reports whether it was present, \<open>updateImportance\<close> and \<open>updateAccess\<close> change one field of the record under the key and nothing else.
\<close>

theorem store_refines_map:
  "getMemory i t = store_lookup t i \<and>
   store_lookup (upsertMemory m t) = (store_lookup t)(mem_id m \<mapsto> m) \<and>
   store_lookup (snd (deleteMemory i t)) = (store_lookup t)(i := None) \<and>
   (fst (deleteMemory i t) \<longleftrightarrow> i \<in> dom (store_lookup t)) \<and>
   store_lookup (updateImportance i x t) =
     (store_lookup t)(i := map_option (\<lambda>r. r\<lparr>importance := x\<rparr>) (store_lookup t i)) \<and>
   store_lookup (updateAccess i ts t) =
     (store_lookup t)(i := map_option (\<lambda>r. r\<lparr>lastAccessed := ts\<rparr>) (store_lookup t i))"
  by (simp add: getMemory_refines upsertMemory_refines deleteMemory_refines deleteMemory_removed
      updateImportance_refines updateAccess_refines)

text \<open>
  C11: On a table with unique identifiers, \<open>pruneBelowImportance\<close> removes exactly the records with importance below the threshold and timestamp before the cutoff; a record failing either condition survives unchanged.
\<close>

theorem pruneBelowImportance_refines:
  "store_inv t \<Longrightarrow> store_lookup (snd (pruneBelowImportance thr older t)) k =
     (case store_lookup t k of None \<Rightarrow> None
      | Some r \<Rightarrow> if importance r < thr \<and> timestamp r < older then None else Some r)"
  by (simp add: pruneBelowImportance_def store_inv_def Let_def store_lookup_filter split: option.splits)

text \<open>
  C12: A successful listing is ordered by descending timestamp and returns only records of the table that pass the category, time-range and tag filters.
\<close>

theorem listMemories_sorted_sound:
  assumes "listMemories opts t = Inr rs"
  shows "sorted_wrt (\<lambda>a b. timestamp b \<le> timestamp a) rs \<and>
         list_all (\<lambda>r. r \<in> set t \<and> list_where opts r \<and>
                        has_tags (case lo_tags opts of None \<Rightarrow> [] | Some ts \<Rightarrow> ts) r) rs"
  using listMemories_sorted [OF assms] listMemories_sound [OF assms] by (simp add: list_all_iff)

text \<open>
  C13: A listing fails exactly when an offset is given without a limit (the generated SQL then has \<open>OFFSET\<close> without \<open>LIMIT\<close>, a syntax error of SQLite), or when a limit is given and the limit or the offset is not an integer (\<open>datatype mismatch\<close>).
\<close>

theorem listMemories_error:
  "listMemories opts t = Inl e \<longleftrightarrow>
     (lo_limit opts = None \<and> lo_offset opts \<noteq> None \<and> e = StoreSyntax) \<or>
     (lo_limit opts \<noteq> None \<and> (\<exists>v. (lo_limit opts = Some v \<or> lo_offset opts = Some v) \<and> \<not> js_integral v) \<and>
      e = StoreMismatch)"
proof -
  have "listMemories opts t = Inl e \<longleftrightarrow>
        sql_limit_offset (lo_limit opts) (lo_offset opts) (rev (sort_key timestamp (filter (list_where opts) t))) = Inl e"
    by (simp add: listMemories_def split: sum.splits)
  then show ?thesis by (simp only: sql_limit_offset_Inl)
qed

text \<open>
  C14: \<open>listMemories\<close> filters tags after \<open>LIMIT\<close>: for every table, a listing with tags and a limit of n rows returns the rows carrying the tags among the first n rows of the same listing without tags and without limit. So when none of the n newest matching rows carries the tags, it returns nothing, however many older rows carry them.
\<close>

theorem list_tags_after_limit:
  assumes "lo_tags opts = Some tgs" and "tgs \<noteq> []" and "lo_limit opts = Some (Num (of_int n))" and "0 \<le> n"
    and "lo_offset opts = None"
  shows "\<exists>rows. listMemories (opts\<lparr>lo_tags := None, lo_limit := None\<rparr>) t = Inr rows \<and>
                listMemories opts t = Inr (filter (has_tags tgs) (take (nat n) rows))"
proof -
  have "list_where (opts\<lparr>lo_tags := None, lo_limit := None\<rparr>) = list_where opts"
    by (simp add: list_where_def fun_eq_iff)
  with assms show ?thesis
    by (simp add: listMemories_def sql_limit_offset_def sql_int_def tag_filter_def Let_def)
qed

end
