(* ===== verification/Embeddings.thy ===== *)
theory Embeddings
  imports Memory_Types
begin

text \<open>
  \<open>src/embeddings.ts\<close>: the client of the external embedding service and the cosine
  similarity of two vectors. The service itself is outside the program; it is the
  parameter \<open>embeddings_api\<close> of the client record, whose answer is either a thrown
  error or the optional first vector of the response. \<open>cosineSimilarity\<close> is the
  source's single loop that accumulates the dot product and both squared norms; it is
  proved equal to the textbook formula over \<open>dot_list\<close>, bounded by Cauchy-Schwarz,
  symmetric, and one on a non-zero vector with itself.
\<close>

section \<open>Embedding client\<close>

datatype api_response = ApiThrows | ApiData "real list option"

record embeddings_client =
  has_client :: bool
  embeddings_api :: "string \<Rightarrow> api_response"

text \<open>The constructor creates the OpenAI client only when the key is non-empty.\<close>

definition new_EmbeddingsClient :: "string \<Rightarrow> (string \<Rightarrow> api_response) \<Rightarrow> embeddings_client" where
  "new_EmbeddingsClient apiKey api = \<lparr>has_client = (apiKey \<noteq> []), embeddings_api = api\<rparr>"

definition embedText :: "embeddings_client \<Rightarrow> string \<Rightarrow> engine_error + real list" where
  "embedText c text =
     (if \<not> has_client c then Inl EmbeddingUnavailable
      else case embeddings_api c text of
        ApiThrows \<Rightarrow> Inl EmbeddingApiError
      | ApiData None \<Rightarrow> Inl EmbeddingFailed
      | ApiData (Some v) \<Rightarrow> if v = [] then Inl EmbeddingFailed else Inr v)"

section \<open>Cosine similarity\<close>

text \<open>The loop body \<open>dot += a[i] * b[i]; normA += a[i] * a[i]; normB += b[i] * b[i]\<close>.\<close>

fun cosine_loop :: "real list \<Rightarrow> real list \<Rightarrow> real \<times> real \<times> real \<Rightarrow> real \<times> real \<times> real" where
  "cosine_loop (x # xs) (y # ys) (dot, normA, normB) =
     cosine_loop xs ys (dot + x * y, normA + x * x, normB + y * y)"
| "cosine_loop _ _ acc = acc"

definition cosineSimilarity :: "real list \<Rightarrow> real list \<Rightarrow> real" where
  "cosineSimilarity a b =
     (if length a \<noteq> length b \<or> length a = 0 then 0
      else (case cosine_loop a b (0, 0, 0) of (dot, normA, normB) \<Rightarrow>
              if normA = 0 \<or> normB = 0 then 0 else dot / (sqrt normA * sqrt normB)))"

text \<open>The reference formula.\<close>

definition dot_list :: "real list \<Rightarrow> real list \<Rightarrow> real" where
  "dot_list a b = sum_list (map2 (*) a b)"

section \<open>Lemmas\<close>

lemma embedText_Inr: "embedText c t = Inr v \<Longrightarrow> has_client c \<and> v \<noteq> []"
  by (auto simp: embedText_def split: if_splits api_response.splits option.splits)

lemma embedText_unavailable: "\<not> has_client c \<Longrightarrow> embedText c t = Inl EmbeddingUnavailable"
  by (simp add: embedText_def)

lemma dot_list_simps [simp]:
  "dot_list [] b = 0" "dot_list a [] = 0"
  "dot_list (x # xs) (y # ys) = x * y + dot_list xs ys"
  by (simp_all add: dot_list_def)

lemma dot_list_comm: "dot_list a b = dot_list b a"
proof (induction a arbitrary: b)
  case Nil
  then show ?case by simp
next
  case (Cons x xs)
  then show ?case by (cases b) (simp_all add: mult.commute)
qed

lemma cosine_loop_dot:
  "length a = length b \<Longrightarrow>
   cosine_loop a b (d, p, q) = (d + dot_list a b, p + dot_list a a, q + dot_list b b)"
proof (induction a arbitrary: b d p q)
  case Nil
  then show ?case by simp
next
  case (Cons x xs)
  then obtain y ys where "b = y # ys" and "length xs = length ys"
    by (cases b) auto
  with Cons.IH show ?case by (simp add: algebra_simps)
qed

lemma cosineSimilarity_dot:
  "cosineSimilarity a b =
     (if length a \<noteq> length b \<or> a = [] then 0
      else if dot_list a a = 0 \<or> dot_list b b = 0 then 0
      else dot_list a b / (sqrt (dot_list a a) * sqrt (dot_list b b)))"
  by (simp add: cosineSimilarity_def cosine_loop_dot)

lemma dot_list_self_nonneg [simp]: "0 \<le> dot_list a a"
  by (induction a) simp_all

lemma dot_list_self_eq_0: "dot_list a a = 0 \<longleftrightarrow> list_all (\<lambda>x. x = 0) a"
proof (induction a)
  case Nil
  then show ?case by simp
next
  case (Cons x xs)
  have "x * x + dot_list xs xs = 0 \<longleftrightarrow> x * x = 0 \<and> dot_list xs xs = 0"
    using dot_list_self_nonneg [of xs] zero_le_square [of x] by linarith
  with Cons.IH show ?case by simp
qed

lemma dot_list_quadratic:
  "length a = length b \<Longrightarrow>
   t\<^sup>2 * dot_list a a + 2 * t * dot_list a b + dot_list b b = sum_list (map2 (\<lambda>x y. (x * t + y)\<^sup>2) a b)"
proof (induction a arbitrary: b)
  case Nil
  then show ?case by simp
next
  case (Cons x xs)
  then obtain y ys where "b = y # ys" and "length xs = length ys"
    by (cases b) auto
  with Cons.IH [of ys] show ?case by (simp add: power2_eq_square algebra_simps)
qed

lemma dot_list_quadratic_nonneg:
  "length a = length b \<Longrightarrow> 0 \<le> t\<^sup>2 * dot_list a a + 2 * t * dot_list a b + dot_list b b"
proof -
  assume len: "length a = length b"
  have "0 \<le> sum_list (map2 (\<lambda>x y. (x * t + y)\<^sup>2) a b)"
    by (rule sum_list_nonneg) auto
  with len show ?thesis by (simp add: dot_list_quadratic)
qed

lemma dot_list_cauchy_schwarz:
  assumes len: "length a = length b"
  shows "(dot_list a b)\<^sup>2 \<le> dot_list a a * dot_list b b"
proof (cases "dot_list a a = 0")
  case True
  have "dot_list a b = 0"
  proof (rule ccontr)
    assume S: "dot_list a b \<noteq> 0"
    let ?t = "- (dot_list b b + 1) / (2 * dot_list a b)"
    have "0 \<le> ?t\<^sup>2 * dot_list a a + 2 * ?t * dot_list a b + dot_list b b"
      using len by (rule dot_list_quadratic_nonneg)
    also have "\<dots> = -1"
      using True S by (simp add: field_simps)
    finally show False by simp
  qed
  then show ?thesis by simp
next
  case False
  then have A: "0 < dot_list a a"
    using dot_list_self_nonneg [of a] by linarith
  let ?t = "- dot_list a b / dot_list a a"
  have "0 \<le> ?t\<^sup>2 * dot_list a a + 2 * ?t * dot_list a b + dot_list b b"
    using len by (rule dot_list_quadratic_nonneg)
  also have "\<dots> = dot_list b b - (dot_list a b)\<^sup>2 / dot_list a a"
    using A by (simp add: field_simps power2_eq_square)
  finally have "(dot_list a b)\<^sup>2 / dot_list a a \<le> dot_list b b" by simp
  with A show ?thesis by (simp add: divide_le_eq mult.commute)
qed

lemma dot_list_abs_le_norms:
  "length a = length b \<Longrightarrow> \<bar>dot_list a b\<bar> \<le> sqrt (dot_list a a) * sqrt (dot_list b b)"
proof -
  assume "length a = length b"
  then have "sqrt ((dot_list a b)\<^sup>2) \<le> sqrt (dot_list a a * dot_list b b)"
    by (intro real_sqrt_le_mono dot_list_cauchy_schwarz)
  then show ?thesis by (simp add: real_sqrt_mult)
qed

lemma cosineSimilarity_comm: "cosineSimilarity a b = cosineSimilarity b a"
  by (auto simp: cosineSimilarity_dot dot_list_comm mult.commute)

section \<open>Properties\<close>

text \<open>
  The cosine similarity computed by the loop always lies in [-1, 1] (Cauchy-Schwarz).
\<close>

lemma cosineSimilarity_bounds: "\<bar>cosineSimilarity a b\<bar> \<le> 1"
proof -
  have "\<bar>dot_list a b / (sqrt (dot_list a a) * sqrt (dot_list b b))\<bar> \<le> 1"
    if "length a = length b" "dot_list a a \<noteq> 0" "dot_list b b \<noteq> 0"
  proof -
    have "0 < dot_list a a" and "0 < dot_list b b"
      using that(2,3) dot_list_self_nonneg [of a] dot_list_self_nonneg [of b] by linarith+
    then have pos: "0 < sqrt (dot_list a a) * sqrt (dot_list b b)"
      by simp
    show ?thesis
      using dot_list_abs_le_norms [OF that(1)] pos by (simp add: abs_divide divide_le_eq_1)
  qed
  then show ?thesis by (simp add: cosineSimilarity_dot)
qed

text \<open>
  A non-zero vector has cosine similarity exactly 1 with itself.
\<close>

lemma cosineSimilarity_self:
  "\<not> list_all (\<lambda>x. x = 0) a \<Longrightarrow> cosineSimilarity a a = 1"
proof -
  assume nz: "\<not> list_all (\<lambda>x. x = 0) a"
  then have "dot_list a a \<noteq> 0" and "a \<noteq> []"
    by (auto simp: dot_list_self_eq_0)
  moreover have "sqrt (dot_list a a) * sqrt (dot_list a a) = dot_list a a"
    by simp
  ultimately show ?thesis by (simp add: cosineSimilarity_dot)
qed

text \<open>
  Vectors of different lengths, an empty vector or a zero vector give similarity exactly 0.
\<close>

lemma cosineSimilarity_degenerate:
  "length a \<noteq> length b \<or> a = [] \<or> list_all (\<lambda>x. x = 0) a \<or> list_all (\<lambda>x. x = 0) b \<Longrightarrow>
   cosineSimilarity a b = 0"
  by (auto simp: cosineSimilarity_dot dot_list_self_eq_0 [symmetric])

text \<open>
  C23: The cosine similarity of the specification's testable properties: a non-zero vector
  has similarity exactly 1 with itself, orthogonal vectors of one length have similarity
  0, and vectors of different lengths, an empty vector or a zero vector give exactly 0; every
  similarity lies in [-1, 1].
\<close>

theorem cosineSimilarity_spec:
  "(\<not> list_all (\<lambda>x. x = 0) a \<longrightarrow> cosineSimilarity a a = 1) \<and>
   (length a = length b \<and> dot_list a b = 0 \<longrightarrow> cosineSimilarity a b = 0) \<and>
   (length a \<noteq> length b \<or> a = [] \<or> list_all (\<lambda>x. x = 0) a \<or> list_all (\<lambda>x. x = 0) b \<longrightarrow>
    cosineSimilarity a b = 0) \<and>
   \<bar>cosineSimilarity a b\<bar> \<le> 1"
  using cosineSimilarity_self [of a] cosineSimilarity_degenerate [of a b] cosineSimilarity_bounds [of a b]
  by (simp add: cosineSimilarity_dot)

end
