(* ===== verification/Search.thy ===== *)
theory Search
  imports Store Embeddings
begin

text \<open>
  The search ranker of \<open>src/search.ts\<close>. \<open>keywordScore\<close> is the share of the
  lower-cased, white-space separated query tokens that occur in the lower-cased text of
  a record; \<open>semanticSearch\<close> scans the whole table, embeds the query (only when the
  table is non-empty), filters by category and tags, scores every candidate as
  \<open>0.8 * cosine + 0.2 * keyword\<close>, sorts by descending score with the stable sort of
  \<open>Array.prototype.sort\<close> (\<open>sort_key\<close> on the negated score) and keeps the first
  \<open>limit\<close> results (\<open>slice(0, limit)\<close>, default 10).
\<close>

section \<open>Definitions\<close>

definition query_tokens :: "string \<Rightarrow> string list" where
  "query_tokens keyword = filter (\<lambda>w. w \<noteq> []) (js_split_runs is_js_space (js_lower keyword))"

definition keywordScore :: "memory_record \<Rightarrow> string \<Rightarrow> real" where
  "keywordScore m keyword =
     (let text = js_lower (content m @ '' '' @ js_join '' '' (tags m));
          tokens = query_tokens keyword
      in if tokens = [] then 0
         else real (length (filter (js_includes text) tokens)) / real (length tokens))"

definition search_candidates :: "search_options \<Rightarrow> memory_record list \<Rightarrow> memory_record list" where
  "search_candidates opts ms =
     tag_filter (so_tags opts)
       (case so_category opts of None \<Rightarrow> ms | Some c \<Rightarrow> filter (\<lambda>m. category m = c) ms)"

definition search_score :: "real list \<Rightarrow> string \<Rightarrow> memory_record \<Rightarrow> real" where
  "search_score q keyword m = cosineSimilarity q (embedding m) * 0.8 + keywordScore m keyword * 0.2"

definition semanticSearch ::
  "store_table \<Rightarrow> embeddings_client \<Rightarrow> string \<Rightarrow> search_options \<Rightarrow> engine_error + search_result list" where
  "semanticSearch st emb query opts =
     (let allMemories = getAllMemories st in
      if allMemories = [] then Inr []
      else case embedText emb query of
        Inl e \<Rightarrow> Inl e
      | Inr queryEmbedding \<Rightarrow>
          (let keyword = (case so_keyword opts of None \<Rightarrow> query | Some k \<Rightarrow> k);
               candidates = search_candidates opts allMemories;
               scored = map (\<lambda>m. \<lparr>sr_memory = m, score = search_score queryEmbedding keyword m\<rparr>) candidates;
               sorted = sort_key (\<lambda>r. - score r) scored;
               limit = (case so_limit opts of None \<Rightarrow> Num 10 | Some l \<Rightarrow> l)
           in Inr (js_slice_prefix (js_to_integer limit) sorted)))"

section \<open>Ranking lemmas\<close>

definition search_ranking :: "real list \<Rightarrow> string \<Rightarrow> memory_record list \<Rightarrow> search_result list" where
  "search_ranking q keyword cands =
     sort_key (\<lambda>r. - score r) (map (\<lambda>m. \<lparr>sr_memory = m, score = search_score q keyword m\<rparr>) cands)"

definition search_keyword :: "string \<Rightarrow> search_options \<Rightarrow> string" where
  "search_keyword query opts = (case so_keyword opts of None \<Rightarrow> query | Some k \<Rightarrow> k)"

definition search_limit :: "search_options \<Rightarrow> int" where
  "search_limit opts = js_to_integer (case so_limit opts of None \<Rightarrow> Num 10 | Some l \<Rightarrow> l)"

lemma semanticSearch_eq:
  "semanticSearch st emb query opts =
     (if st = [] then Inr []
      else case embedText emb query of
        Inl e \<Rightarrow> Inl e
      | Inr q \<Rightarrow> Inr (js_slice_prefix (search_limit opts)
                       (search_ranking q (search_keyword query opts) (search_candidates opts st))))"
  by (simp add: semanticSearch_def getAllMemories_def search_ranking_def search_keyword_def
      search_limit_def Let_def split: sum.splits)

lemma semanticSearch_Inr:
  assumes "semanticSearch st emb query opts = Inr rs" and "st \<noteq> []"
  obtains q where "embedText emb query = Inr q"
    and "rs = js_slice_prefix (search_limit opts)
                (search_ranking q (search_keyword query opts) (search_candidates opts st))"
  using assms by (auto simp: semanticSearch_eq split: sum.splits)

lemma search_ranking_sorted: "sorted_wrt (\<lambda>a b. score b \<le> score a) (search_ranking q kw cs)"
  using sorted_sort_key [of "\<lambda>r. - score r"]
  by (simp add: search_ranking_def sorted_map)

lemma set_search_ranking:
  "set (search_ranking q kw cs) = (\<lambda>m. \<lparr>sr_memory = m, score = search_score q kw m\<rparr>) ` set cs"
  by (simp add: search_ranking_def)

lemma set_search_candidates:
  "set (search_candidates opts ms) =
     {m \<in> set ms. (case so_category opts of None \<Rightarrow> True | Some c \<Rightarrow> category m = c) \<and>
                  has_tags (case so_tags opts of None \<Rightarrow> [] | Some ts \<Rightarrow> ts) m}"
  by (auto simp: search_candidates_def set_tag_filter split: option.splits)

lemma keywordScore_bounds: "0 \<le> keywordScore m kw \<and> keywordScore m kw \<le> 1"
  by (simp add: keywordScore_def Let_def)

lemma semanticSearch_sound:
  assumes "semanticSearch st emb query opts = Inr rs" and "embedText emb query = Inr q"
    and "r \<in> set rs"
  shows "sr_memory r \<in> set (search_candidates opts st) \<and>
         score r = search_score q (search_keyword query opts) (sr_memory r)"
proof -
  from assms have "st \<noteq> []" by (auto simp: semanticSearch_eq)
  with assms have "r \<in> set (search_ranking q (search_keyword query opts) (search_candidates opts st))"
    using set_js_slice_prefix by (fastforce simp: semanticSearch_eq)
  then show ?thesis by (auto simp: set_search_ranking)
qed

lemma map_sr_memory_filter_scored:
  "map sr_memory (filter (\<lambda>r. score r = k) (map (\<lambda>m. \<lparr>sr_memory = m, score = f m\<rparr>) xs)) =
   filter (\<lambda>m. f m = k) xs"
  by (induction xs) simp_all

lemma semanticSearch_error:
  "st \<noteq> [] \<Longrightarrow> embedText emb query = Inl e \<Longrightarrow> semanticSearch st emb query opts = Inl e"
  by (simp add: semanticSearch_eq)

lemma search_candidates_distinct:
  "distinct (map mem_id ms) \<Longrightarrow> distinct (map mem_id (search_candidates opts ms))"
  by (auto simp: search_candidates_def tag_filter_def split: option.splits)

section \<open>Properties\<close>

text \<open>
  C21: The results of a search are ordered by descending score.
\<close>

theorem semanticSearch_sorted:
  "semanticSearch st emb query opts = Inr rs \<Longrightarrow> sorted_wrt (\<lambda>a b. score b \<le> score a) rs"
  by (cases "st = []") (auto simp: semanticSearch_eq js_slice_prefix_def search_ranking_sorted split: sum.splits)

text \<open>
  C22: Search returns a top-k: a candidate that passes the filters but is not returned scores no higher than any returned result.
\<close>

theorem semanticSearch_top:
  assumes "semanticSearch st emb query opts = Inr rs" and "embedText emb query = Inr q"
    and "r \<in> set rs" and "m \<in> set (search_candidates opts st)" and "m \<notin> sr_memory ` set rs"
  shows "search_score q (search_keyword query opts) m \<le> score r"
proof -
  let ?S = "search_ranking q (search_keyword query opts) (search_candidates opts st)"
  let ?x = "\<lparr>sr_memory = m, score = search_score q (search_keyword query opts) m\<rparr>"
  from assms(4) have ne: "st \<noteq> []" by (auto simp: set_search_candidates)
  obtain k where rs: "rs = take k ?S"
    using assms(1,2) ne js_slice_prefix_take by (fastforce simp: semanticSearch_eq)
  have "?x \<in> set ?S" using assms(4) by (simp add: set_search_ranking)
  moreover have "?x \<notin> set (take k ?S)" using assms(5) rs by force
  ultimately have "score ?x \<le> score r"
    using take_drop_sorted_wrt [OF search_ranking_sorted] assms(3) rs by blast
  then show ?thesis by simp
qed

text \<open>
  Ties keep table order: among results of equal score, the returned records are a prefix of the candidates of that score in scan order (the sort is stable).
\<close>

theorem semanticSearch_stable:
  assumes "semanticSearch st emb query opts = Inr rs" and "embedText emb query = Inr q"
  shows "prefix (map sr_memory (filter (\<lambda>r. score r = k) rs))
                (filter (\<lambda>m. search_score q (search_keyword query opts) m = k) (search_candidates opts st))"
proof (cases "st = []")
  case True
  with assms(1) show ?thesis by (simp add: semanticSearch_eq)
next
  case ne: False
  let ?f = "\<lambda>m. \<lparr>sr_memory = m, score = search_score q (search_keyword query opts) m\<rparr>"
  let ?sc = "map ?f (search_candidates opts st)"
  obtain j where rs: "rs = take j (sort_key (\<lambda>r. - score r) ?sc)"
    using assms ne js_slice_prefix_take by (fastforce simp: semanticSearch_eq search_ranking_def)
  have eqk: "(\<lambda>r. score r = k) = (\<lambda>r. - score r = - k)" by auto
  have stable: "filter (\<lambda>r. score r = k) (sort_key (\<lambda>r. - score r) ?sc) = filter (\<lambda>r. score r = k) ?sc"
    using sort_key_stable [of "\<lambda>r. - score r" "- k" ?sc] by (simp only: eqk)
  have "prefix (filter (\<lambda>r. score r = k) rs) (filter (\<lambda>r. score r = k) (sort_key (\<lambda>r. - score r) ?sc))"
    unfolding rs by (intro filter_mono_prefix take_is_prefix)
  then have "prefix (filter (\<lambda>r. score r = k) rs) (filter (\<lambda>r. score r = k) ?sc)"
    by (simp only: stable)
  then have "prefix (map sr_memory (filter (\<lambda>r. score r = k) rs)) (map sr_memory (filter (\<lambda>r. score r = k) ?sc))"
    by (rule map_mono_prefix)
  moreover have "map sr_memory (filter (\<lambda>r. score r = k) ?sc) =
                 filter (\<lambda>m. search_score q (search_keyword query opts) m = k) (search_candidates opts st)"
    by (rule map_sr_memory_filter_scored)
  ultimately show ?thesis by simp
qed

text \<open>
  With a non-negative limit (default 10) a search returns exactly the limit or all candidates, whichever is fewer.
\<close>

theorem semanticSearch_length:
  assumes "semanticSearch st emb query opts = Inr rs" and "0 \<le> search_limit opts"
  shows "length rs = min (nat (search_limit opts)) (length (search_candidates opts st))"
proof (cases "st = []")
  case True
  then show ?thesis using assms by (simp add: semanticSearch_eq search_candidates_def tag_filter_def split: option.splits)
next
  case False
  with assms show ?thesis
    by (auto simp: semanticSearch_eq search_ranking_def split: sum.splits)
qed

text \<open>
  Every combined score lies in [-0.8, 1]: 0.8 times a cosine in [-1, 1] plus 0.2 times a keyword share in [0, 1].
\<close>

theorem search_score_bounds: "- 0.8 \<le> search_score q kw m \<and> search_score q kw m \<le> 1"
  using cosineSimilarity_bounds [of q "embedding m"] keywordScore_bounds [of m kw]
  by (simp add: search_score_def abs_le_iff)

text \<open>
  On an empty table search returns no results without calling the embedding service, so a missing API key is not reported.
\<close>

theorem semanticSearch_empty_store: "semanticSearch [] emb query opts = Inr []"
  by (simp add: semanticSearch_eq)

end
