(* ===== verification/Decay.thy ===== *)
theory Decay
  imports Memory_Types
begin

text \<open>
  The decay function of \<open>src/decay.ts\<close>: \<open>applyDecay\<close> ages a record's importance
  exponentially in the days since its last access, with the age clamped at zero and the
  result floored at \<open>minimumImportance\<close>. The lemmas give its bounds, its monotonicity
  in the current time, its behaviour under clock skew, and that it changes no other field.
\<close>

record decay_options =
  decayRate :: real
  minimumImportance :: real

definition ms_per_day :: real where
  "ms_per_day = 1000 * 60 * 60 * 24"

definition applyDecay :: "memory_record \<Rightarrow> time \<Rightarrow> decay_options \<Rightarrow> memory_record" where
  "applyDecay m now opts =
     (let ageMs = max 0 (now - lastAccessed m);
          ageDays = real_of_int ageMs / ms_per_day;
          decayed = importance m * exp (- decayRate opts * ageDays);
          imp = max (minimumImportance opts) decayed
      in m\<lparr>importance := imp\<rparr>)"

section \<open>Lemmas\<close>

definition decay_age_days :: "memory_record \<Rightarrow> time \<Rightarrow> real" where
  "decay_age_days m now = real_of_int (max 0 (now - lastAccessed m)) / ms_per_day"

lemma applyDecay_importance:
  "importance (applyDecay m now opts) =
     max (minimumImportance opts) (importance m * exp (- decayRate opts * decay_age_days m now))"
  by (simp add: applyDecay_def decay_age_days_def Let_def)

lemma applyDecay_frame:
  "applyDecay m now opts = m\<lparr>importance := importance (applyDecay m now opts)\<rparr>"
  by (simp add: applyDecay_def Let_def)

lemma decay_age_days_nonneg [simp]: "0 \<le> decay_age_days m now"
  by (simp add: decay_age_days_def ms_per_day_def)

lemma decay_age_days_mono:
  "now1 \<le> now2 \<Longrightarrow> decay_age_days m now1 \<le> decay_age_days m now2"
  by (simp add: decay_age_days_def ms_per_day_def divide_right_mono)

lemma decay_age_days_skew: "now \<le> lastAccessed m \<Longrightarrow> decay_age_days m now = 0"
  by (simp add: decay_age_days_def)

lemma decay_factor_le_1:
  "0 \<le> r \<Longrightarrow> 0 \<le> a \<Longrightarrow> exp (- r * a) \<le> (1::real)"
  using mult_nonneg_nonneg [of r a] by simp

lemma decay_factor_antimono:
  "0 \<le> (r::real) \<Longrightarrow> a \<le> b \<Longrightarrow> exp (- r * b) \<le> exp (- r * a)"
  using mult_left_mono [of a b r] by simp

lemma applyDecay_floor: "minimumImportance opts \<le> importance (applyDecay m now opts)"
  by (simp add: applyDecay_importance)

lemma applyDecay_le:
  assumes "0 \<le> decayRate opts" and "0 \<le> importance m"
  shows "importance (applyDecay m now opts) \<le> max (minimumImportance opts) (importance m)"
proof -
  have "importance m * exp (- decayRate opts * decay_age_days m now) \<le> importance m * 1"
    using assms by (intro mult_left_mono) simp_all
  then show ?thesis by (simp add: applyDecay_importance)
qed

lemma applyDecay_unit:
  assumes "0 \<le> decayRate opts" and "0 \<le> minimumImportance opts" and "minimumImportance opts \<le> 1"
    and "0 \<le> importance m" and "importance m \<le> 1"
  shows "0 \<le> importance (applyDecay m now opts) \<and> importance (applyDecay m now opts) \<le> 1"
  using applyDecay_floor [of opts m now] applyDecay_le [OF assms(1,4), of now] assms(2,3,5)
  by linarith

text \<open>Decayed importance is non-increasing in the current time.\<close>

lemma applyDecay_antimono:
  assumes "0 \<le> decayRate opts" and "0 \<le> importance m" and "now1 \<le> now2"
  shows "importance (applyDecay m now2 opts) \<le> importance (applyDecay m now1 opts)"
proof -
  have "exp (- decayRate opts * decay_age_days m now2) \<le> exp (- decayRate opts * decay_age_days m now1)"
    using assms(1) decay_age_days_mono [OF assms(3)] by (rule decay_factor_antimono)
  then have "importance m * exp (- decayRate opts * decay_age_days m now2)
           \<le> importance m * exp (- decayRate opts * decay_age_days m now1)"
    using assms(2) by (rule mult_left_mono)
  then show ?thesis by (simp add: applyDecay_importance)
qed

text \<open>
  A record whose importance is below the floor has its importance raised by decay, so decay is not non-increasing on such records.
\<close>

lemma decay_raises_below_floor:
  "importance m < minimumImportance opts \<Longrightarrow> importance m < importance (applyDecay m now opts)"
  using applyDecay_floor [of opts m now] by linarith

section \<open>Properties\<close>

text \<open>
  C27: With a non-negative rate and importance, decay never goes below the floor \<open>minimumImportance\<close>, never above the larger of the floor and the old importance, never gives a larger importance at a later \<open>now\<close>, and raises a record whose importance is below the floor (so decay is not non-increasing on such records).
\<close>

theorem applyDecay_bounds:
  assumes "0 \<le> decayRate opts" and "0 \<le> importance m"
  shows "minimumImportance opts \<le> importance (applyDecay m now opts) \<and>
         importance (applyDecay m now opts) \<le> max (minimumImportance opts) (importance m) \<and>
         (now \<le> now' \<longrightarrow> importance (applyDecay m now' opts) \<le> importance (applyDecay m now opts)) \<and>
         (importance m < minimumImportance opts \<longrightarrow> importance m < importance (applyDecay m now opts))"
  using applyDecay_floor applyDecay_le [OF assms] applyDecay_antimono [OF assms] decay_raises_below_floor
  by blast

text \<open>
  Under clock skew (\<open>now\<close> before \<open>lastAccessed\<close>) the age is clamped to zero and decay only applies the floor.
\<close>

theorem applyDecay_skew:
  "now \<le> lastAccessed m \<Longrightarrow> importance (applyDecay m now opts) = max (minimumImportance opts) (importance m)"
  by (simp add: applyDecay_importance decay_age_days_skew)

end
