(* ===== verification/Summarizer.thy ===== *)
theory Summarizer
  imports Memory_Types
begin

text \<open>
  The compaction planner of \<open>src/summarizer.ts\<close>. \<open>buildSummaries\<close> first groups the
  records below the preservation threshold by category in a JavaScript \<open>Map\<close>, which
  keeps its keys in first-insertion order (an association list here, \<open>jsmap_set\<close> for
  \<open>Map.prototype.set\<close>); then, group by group, it skips groups of fewer than two records,
  sorts the rest by ascending timestamp (stable), keeps the first \<open>maxGroupSize\<close> of
  them and emits a plan: a summary input and the identifiers it replaces. Reading
  \<open>slice[0].timestamp\<close> on an empty slice raises a \<open>TypeError\<close>, which the model
  returns as \<open>SummaryTypeError\<close>. \<open>Date.prototype.toISOString\<close> is the parameter
  \<open>toISO\<close>, and \<open>Date.now()\<close> the parameter \<open>now\<close>.
\<close>

section \<open>Definitions\<close>

record summarize_options =
  maxGroupSize :: int
  preserveImportanceThreshold :: real

record summary_plan =
  summary :: memory_input
  sourceIds :: "memory_id list"

definition summary_snippet :: "memory_record \<Rightarrow> string" where
  "summary_snippet m =
     (let trimmed = js_trim (content m)
      in if length trimmed \<le> 140 then trimmed else take 137 trimmed @ ''...'')"

definition summarizeText :: "memory_record list \<Rightarrow> string" where
  "summarizeText ms = js_join '' '' (map summary_snippet ms)"

fun jsmap_set :: "'k \<Rightarrow> 'v \<Rightarrow> ('k \<times> 'v) list \<Rightarrow> ('k \<times> 'v) list" where
  "jsmap_set k v [] = [(k, v)]"
| "jsmap_set k v ((k', v') # kvs) = (if k = k' then (k, v) # kvs else (k', v') # jsmap_set k v kvs)"

text \<open>The first loop of \<open>buildSummaries\<close>, over the records, with the map \<open>grouped\<close>.\<close>

fun group_memories ::
  "real \<Rightarrow> memory_record list \<Rightarrow> (category \<times> memory_record list) list \<Rightarrow> (category \<times> memory_record list) list" where
  "group_memories thr [] grouped = grouped"
| "group_memories thr (m # ms) grouped =
     (if thr \<le> importance m then group_memories thr ms grouped
      else group_memories thr ms
             (jsmap_set (category m)
               ((case map_of grouped (category m) of None \<Rightarrow> [] | Some l \<Rightarrow> l) @ [m]) grouped))"

definition summary_input :: "(int \<Rightarrow> string) \<Rightarrow> time \<Rightarrow> real \<Rightarrow> category \<Rightarrow> memory_record list \<Rightarrow> memory_input" where
  "summary_input toISO now thr c slice =
     (let start = toISO (timestamp (hd slice));
          stop = toISO (timestamp (last slice));
          text = ''Summary ('' @ category_name c @ '') '' @ start @ '' - '' @ stop @ '': '' @ summarizeText slice
      in \<lparr>input_content = text, input_category = category_name c, input_tags = Some [''summary''],
          input_timestamp = Some now, input_importance = Some thr\<rparr>)"

text \<open>The second loop, over the entries of \<open>grouped\<close> in insertion order.\<close>

fun build_plans ::
  "(int \<Rightarrow> string) \<Rightarrow> time \<Rightarrow> summarize_options \<Rightarrow> (category \<times> memory_record list) list
   \<Rightarrow> engine_error + summary_plan list" where
  "build_plans toISO now opts [] = Inr []"
| "build_plans toISO now opts ((c, grp) # gs) =
     (if length grp < 2 then build_plans toISO now opts gs
      else
        (let slice = js_slice_prefix (maxGroupSize opts) (sort_key timestamp grp)
         in if slice = [] then Inl SummaryTypeError
            else case build_plans toISO now opts gs of
              Inl e \<Rightarrow> Inl e
            | Inr plans \<Rightarrow>
                Inr (\<lparr>summary = summary_input toISO now (preserveImportanceThreshold opts) c slice,
                      sourceIds = map mem_id slice\<rparr> # plans)))"

definition buildSummaries ::
  "(int \<Rightarrow> string) \<Rightarrow> time \<Rightarrow> memory_record list \<Rightarrow> summarize_options \<Rightarrow> engine_error + summary_plan list" where
  "buildSummaries toISO now memories opts =
     build_plans toISO now opts (group_memories (preserveImportanceThreshold opts) memories [])"

text \<open>The records of one category that the first loop collects.\<close>

definition eligible :: "real \<Rightarrow> category \<Rightarrow> memory_record list \<Rightarrow> memory_record list" where
  "eligible thr c ms = filter (\<lambda>m. category m = c \<and> \<not> thr \<le> importance m) ms"

text \<open>The plan that the second loop emits for one group, and which groups yield one.\<close>

definition group_slice :: "summarize_options \<Rightarrow> memory_record list \<Rightarrow> memory_record list" where
  "group_slice opts g = js_slice_prefix (maxGroupSize opts) (sort_key timestamp g)"

definition plan_of :: "(int \<Rightarrow> string) \<Rightarrow> time \<Rightarrow> summarize_options \<Rightarrow> category \<times> memory_record list \<Rightarrow> summary_plan" where
  "plan_of toISO now opts cg =
     \<lparr>summary = summary_input toISO now (preserveImportanceThreshold opts) (fst cg) (group_slice opts (snd cg)),
      sourceIds = map mem_id (group_slice opts (snd cg))\<rparr>"

definition plan_group :: "category \<times> memory_record list \<Rightarrow> bool" where
  "plan_group cg \<longleftrightarrow> 2 \<le> length (snd cg)"

section \<open>Grouping and planning lemmas\<close>

lemma map_of_jsmap_set [simp]: "map_of (jsmap_set k v kvs) = (map_of kvs)(k \<mapsto> v)"
  by (induction kvs) (auto simp: fun_eq_iff)

lemma keys_jsmap_set: "map fst (jsmap_set k v kvs) = (if k \<in> set (map fst kvs) then map fst kvs else map fst kvs @ [k])"
  by (induction kvs) force+

lemma distinct_jsmap_set: "distinct (map fst kvs) \<Longrightarrow> distinct (map fst (jsmap_set k v kvs))"
  by (simp add: keys_jsmap_set)

lemma group_memories_lookup:
  "map_of (group_memories thr ms g) c =
     (case map_of g c of
        None \<Rightarrow> if eligible thr c ms = [] then None else Some (eligible thr c ms)
      | Some l \<Rightarrow> Some (l @ eligible thr c ms))"
  by (induction thr ms g rule: group_memories.induct)
     (auto simp: eligible_def split: option.splits)

lemma group_memories_distinct:
  "distinct (map fst g) \<Longrightarrow> distinct (map fst (group_memories thr ms g))"
  by (induction thr ms g rule: group_memories.induct) (auto simp: distinct_jsmap_set)

lemma group_memories_mem:
  "(c, l) \<in> set (group_memories thr ms []) \<longleftrightarrow> l = eligible thr c ms \<and> l \<noteq> []"
proof -
  have d: "distinct (map fst (group_memories thr ms []))"
    by (rule group_memories_distinct) simp
  have "(c, l) \<in> set (group_memories thr ms []) \<longleftrightarrow> map_of (group_memories thr ms []) c = Some l"
    using d by (rule map_of_eq_Some_iff [symmetric])
  then show ?thesis by (auto simp: group_memories_lookup)
qed

lemma plan_group_pair [simp]: "plan_group (c, g) \<longleftrightarrow> 2 \<le> length g"
  by (simp add: plan_group_def)

lemma plan_of_pair [simp]:
  "plan_of toISO now opts (c, g) =
     \<lparr>summary = summary_input toISO now (preserveImportanceThreshold opts) c (group_slice opts g),
      sourceIds = map mem_id (group_slice opts g)\<rparr>"
  by (simp add: plan_of_def)

lemma build_plans_eq:
  "build_plans toISO now opts gs =
     (if list_all (\<lambda>cg. plan_group cg \<longrightarrow> group_slice opts (snd cg) \<noteq> []) gs
      then Inr (map (plan_of toISO now opts) (filter plan_group gs))
      else Inl SummaryTypeError)"
proof (induction gs)
  case Nil
  then show ?case by simp
next
  case (Cons cg gs)
  obtain c g where cg: "cg = (c, g)" by (cases cg)
  show ?case
    using Cons.IH unfolding cg
    by (simp add: group_slice_def [symmetric] Let_def split: sum.splits)
qed

lemma buildSummaries_eq:
  "buildSummaries toISO now ms opts =
     (let G = group_memories (preserveImportanceThreshold opts) ms [] in
      if list_all (\<lambda>cg. plan_group cg \<longrightarrow> group_slice opts (snd cg) \<noteq> []) G
      then Inr (map (plan_of toISO now opts) (filter plan_group G))
      else Inl SummaryTypeError)"
  by (simp add: buildSummaries_def build_plans_eq)

lemma buildSummaries_plan:
  assumes "buildSummaries toISO now ms opts = Inr ps" and "p \<in> set ps"
  obtains c where "2 \<le> length (eligible (preserveImportanceThreshold opts) c ms)"
    and "group_slice opts (eligible (preserveImportanceThreshold opts) c ms) \<noteq> []"
    and "p = plan_of toISO now opts (c, eligible (preserveImportanceThreshold opts) c ms)"
proof -
  let ?G = "group_memories (preserveImportanceThreshold opts) ms []"
  from assms(1) have ok: "list_all (\<lambda>cg. plan_group cg \<longrightarrow> group_slice opts (snd cg) \<noteq> []) ?G"
    and ps: "ps = map (plan_of toISO now opts) (filter plan_group ?G)"
    by (simp_all add: buildSummaries_eq Let_def split: if_splits)
  from assms(2) ps obtain c l where mem: "(c, l) \<in> set ?G" and grp: "plan_group (c, l)"
    and p: "p = plan_of toISO now opts (c, l)"
    by auto
  from mem have l: "l = eligible (preserveImportanceThreshold opts) c ms"
    by (simp add: group_memories_mem)
  from ok mem grp have "group_slice opts l \<noteq> []"
    by (fastforce simp: list_all_iff)
  with that grp p l show ?thesis by simp
qed

lemma buildSummaries_success:
  assumes "1 \<le> maxGroupSize opts"
  shows "buildSummaries toISO now ms opts =
           Inr (map (plan_of toISO now opts) (filter plan_group (group_memories (preserveImportanceThreshold opts) ms [])))"
proof -
  have "group_slice opts g \<noteq> []" if "2 \<le> length g" for g :: "memory_record list"
  proof -
    from that have "g \<noteq> []" by auto
    then have "sort_key timestamp g \<noteq> []" by (cases g) simp_all
    with assms show ?thesis by (simp add: group_slice_def)
  qed
  then show ?thesis
    by (auto simp: buildSummaries_eq Let_def list_all_iff plan_group_def)
qed

lemma summary_input_fields:
  "input_category (summary_input toISO now thr c slice) = category_name c \<and>
   input_importance (summary_input toISO now thr c slice) = Some thr \<and>
   input_tags (summary_input toISO now thr c slice) = Some [''summary''] \<and>
   input_timestamp (summary_input toISO now thr c slice) = Some now"
  by (simp add: summary_input_def Let_def)

lemma set_group_slice: "set (group_slice opts g) \<subseteq> set g"
  using set_js_slice_prefix [of "maxGroupSize opts" "sort_key timestamp g"] by (simp add: group_slice_def)

lemma set_eligible: "m \<in> set (eligible thr c ms) \<longleftrightarrow> m \<in> set ms \<and> category m = c \<and> importance m < thr"
  by (auto simp: eligible_def)

lemma summary_snippet_length: "length (summary_snippet m) \<le> 140"
  by (simp add: summary_snippet_def Let_def)

section \<open>Properties\<close>

text \<open>
  C16: Every plan replaces only records of the table that are below the preservation threshold and share one category, and its summary input carries that category, the tag \<open>summary\<close> and importance exactly the threshold.
\<close>

theorem compaction_plan_safe:
  assumes "buildSummaries toISO now ms opts = Inr ps" and "p \<in> set ps"
  shows "\<exists>c. input_category (summary p) = category_name c \<and>
             input_importance (summary p) = Some (preserveImportanceThreshold opts) \<and>
             input_tags (summary p) = Some [''summary''] \<and>
             (\<forall>i\<in>set (sourceIds p). \<exists>m\<in>set ms. mem_id m = i \<and> category m = c \<and>
                                   importance m < preserveImportanceThreshold opts)"
proof -
  obtain c where p: "p = plan_of toISO now opts (c, eligible (preserveImportanceThreshold opts) c ms)"
    using assms by (rule buildSummaries_plan)
  have "\<forall>i\<in>set (sourceIds p). \<exists>m\<in>set ms. mem_id m = i \<and> category m = c \<and>
          importance m < preserveImportanceThreshold opts"
    using set_group_slice by (fastforce simp: p set_eligible)
  then show ?thesis by (auto simp: p summary_input_fields)
qed

text \<open>
  C17: With a cap of at least two, every plan replaces at least two and at most \<open>maxGroupSize\<close> records.
\<close>

theorem compaction_group_size:
  assumes "buildSummaries toISO now ms opts = Inr ps" and "p \<in> set ps" and "2 \<le> maxGroupSize opts"
  shows "2 \<le> length (sourceIds p) \<and> length (sourceIds p) \<le> nat (maxGroupSize opts)"
proof -
  obtain c where len: "2 \<le> length (eligible (preserveImportanceThreshold opts) c ms)"
    and p: "p = plan_of toISO now opts (c, eligible (preserveImportanceThreshold opts) c ms)"
    using assms(1,2) by (rule buildSummaries_plan)
  with assms(3) show ?thesis by (simp add: group_slice_def)
qed

text \<open>
  C18: A plan replaces the oldest records of its category: every eligible record left out is no older than every record replaced.
\<close>

theorem compaction_oldest_first:
  assumes "buildSummaries toISO now ms opts = Inr ps" and "p \<in> set ps"
  shows "\<exists>c. sourceIds p = map mem_id (group_slice opts (eligible (preserveImportanceThreshold opts) c ms)) \<and>
             (\<forall>s\<in>set (group_slice opts (eligible (preserveImportanceThreshold opts) c ms)).
               \<forall>m\<in>set (eligible (preserveImportanceThreshold opts) c ms).
                 m \<notin> set (group_slice opts (eligible (preserveImportanceThreshold opts) c ms)) \<longrightarrow>
                 timestamp s \<le> timestamp m)"
proof -
  let ?thr = "preserveImportanceThreshold opts"
  obtain c where p: "p = plan_of toISO now opts (c, eligible ?thr c ms)"
    using assms by (rule buildSummaries_plan)
  let ?S = "sort_key timestamp (eligible ?thr c ms)"
  obtain k where sl: "group_slice opts (eligible ?thr c ms) = take k ?S"
    using js_slice_prefix_take by (metis group_slice_def)
  have sorted: "sorted_wrt (\<lambda>a b. timestamp a \<le> timestamp b) ?S"
    using sorted_sort_key [of timestamp "eligible ?thr c ms"] by (simp add: sorted_map)
  have "\<forall>s\<in>set (take k ?S). \<forall>m\<in>set (eligible ?thr c ms). m \<notin> set (take k ?S) \<longrightarrow> timestamp s \<le> timestamp m"
    using take_drop_sorted_wrt [OF sorted] by simp
  then show ?thesis by (intro exI [of _ c]) (simp add: p sl)
qed

text \<open>
  C19: With a positive cap the planner never fails, emits at most one plan per category, and emits one exactly for the categories with at least two eligible records.
\<close>

theorem compaction_complete:
  assumes "1 \<le> maxGroupSize opts"
  shows "\<exists>ps. buildSummaries toISO now ms opts = Inr ps \<and>
           distinct (map (\<lambda>p. input_category (summary p)) ps) \<and>
           (\<forall>c. (\<exists>p\<in>set ps. input_category (summary p) = category_name c) \<longleftrightarrow>
                 2 \<le> length (eligible (preserveImportanceThreshold opts) c ms))"
proof -
  let ?G = "group_memories (preserveImportanceThreshold opts) ms []"
  let ?ps = "map (plan_of toISO now opts) (filter plan_group ?G)"
  have eq: "buildSummaries toISO now ms opts = Inr ?ps"
    using assms by (rule buildSummaries_success)
  have cat: "map (\<lambda>p. input_category (summary p)) ?ps = map category_name (map fst (filter plan_group ?G))"
    by (simp add: plan_of_def summary_input_fields)
  have "distinct (map fst ?G)" by (rule group_memories_distinct) simp
  then have d: "distinct (map fst (filter plan_group ?G))" by (rule distinct_map_filter)
  have "distinct (map category_name (map fst (filter plan_group ?G)))"
    by (rule distinct_map [THEN iffD2], rule conjI, rule d, rule inj_on_subset [OF category_name_inj]) simp
  then have "distinct (map (\<lambda>p. input_category (summary p)) ?ps)"
    by (simp only: cat)
  moreover have "(\<exists>p\<in>set ?ps. input_category (summary p) = category_name c) \<longleftrightarrow>
                 2 \<le> length (eligible (preserveImportanceThreshold opts) c ms)" for c
  proof -
    have "(\<exists>p\<in>set ?ps. input_category (summary p) = category_name c) \<longleftrightarrow>
          (\<exists>l. (c, l) \<in> set ?G \<and> plan_group (c, l))"
      using category_name_inj by (auto simp: plan_of_def summary_input_fields inj_eq)
    also have "\<dots> \<longleftrightarrow> 2 \<le> length (eligible (preserveImportanceThreshold opts) c ms)"
      by (auto simp: group_memories_mem)
    finally show ?thesis .
  qed
  ultimately show ?thesis using eq by blast
qed

text \<open>
  The scenario of the specification: two facts of importance 0.3 and 0.2 and one of 0.9 with threshold 0.7 give exactly one plan, for the two low-importance facts, oldest first.
\<close>

theorem compaction_spec_scenario:
  "buildSummaries toISO now
     [\<lparr>mem_id = ''f1'', content = ''a'', category = Fact, tags = [], timestamp = 1, importance = 0.3,
        embedding = [1], lastAccessed = 1\<rparr>,
      \<lparr>mem_id = ''f2'', content = ''b'', category = Fact, tags = [], timestamp = 2, importance = 0.2,
        embedding = [1], lastAccessed = 2\<rparr>,
      \<lparr>mem_id = ''f3'', content = ''c'', category = Fact, tags = [], timestamp = 3, importance = 0.9,
        embedding = [1], lastAccessed = 3\<rparr>]
     \<lparr>maxGroupSize = 12, preserveImportanceThreshold = 0.7\<rparr> =
   Inr [\<lparr>summary = \<lparr>input_content = ''Summary (fact) '' @ toISO 1 @ '' - '' @ toISO 2 @ '': a b'',
                     input_category = ''fact'', input_tags = Some [''summary''],
                     input_timestamp = Some now, input_importance = Some 0.7\<rparr>,
         sourceIds = [''f1'', ''f2'']\<rparr>]"
  by (simp add: buildSummaries_def summary_input_def summarizeText_def summary_snippet_def js_trim_def
      is_js_space_def Let_def)

end
