(* ===== verification/Wal.thy ===== *)
theory Wal
  imports Memory_Types
begin

text \<open>
  The write-ahead log of \<open>src/wal.ts\<close> (class \<open>WriteAheadLog\<close>). The log file is
  \<open>string option\<close>, \<open>None\<close> while it does not exist. \<open>JSON.stringify\<close> and
  \<open>JSON.parse\<close> of an entry are the parameters \<open>stringify\<close> and \<open>parse\<close> (a parse
  that throws is \<open>None\<close>). The engine sees the log through the abstract view of a list of
  entries in append order: \<open>wal_encode\<close> is the file that holds a given list, and the
  refinement lemmas show that appending, clearing and reading the file are appending to,
  emptying and returning that list, for any codec whose lines read back as written.
\<close>

section \<open>Entries and file operations\<close>

datatype wal_op = WalAdd | WalDelete

record wal_entry =
  entry_op :: wal_op
  entry_memory :: "memory_record option"
  entry_id :: "memory_id option"
  entry_ts :: time

type_synonym wal_file = "string option"

definition newline :: char where
  "newline = CHR 0x0A"

text \<open>The constructor's \<open>ensureDir\<close>: create an empty file when there is none.\<close>

definition ensureDir :: "wal_file \<Rightarrow> wal_file" where
  "ensureDir f = (case f of None \<Rightarrow> Some [] | Some c \<Rightarrow> Some c)"

text \<open>\<open>append\<close>: \<open>appendFileSync\<close> of the entry's JSON and a newline.\<close>

definition wal_append :: "(wal_entry \<Rightarrow> string) \<Rightarrow> wal_entry \<Rightarrow> wal_file \<Rightarrow> wal_file" where
  "wal_append stringify e f = Some ((case f of None \<Rightarrow> [] | Some c \<Rightarrow> c) @ stringify e @ [newline])"

definition add_entry :: "time \<Rightarrow> memory_record \<Rightarrow> wal_entry" where
  "add_entry now m = \<lparr>entry_op = WalAdd, entry_memory = Some m, entry_id = None, entry_ts = now\<rparr>"

definition delete_entry :: "time \<Rightarrow> memory_id \<Rightarrow> wal_entry" where
  "delete_entry now i = \<lparr>entry_op = WalDelete, entry_memory = None, entry_id = Some i, entry_ts = now\<rparr>"

definition appendAdd :: "(wal_entry \<Rightarrow> string) \<Rightarrow> time \<Rightarrow> memory_record \<Rightarrow> wal_file \<Rightarrow> wal_file" where
  "appendAdd stringify now m f = wal_append stringify (add_entry now m) f"

definition appendDelete :: "(wal_entry \<Rightarrow> string) \<Rightarrow> time \<Rightarrow> memory_id \<Rightarrow> wal_file \<Rightarrow> wal_file" where
  "appendDelete stringify now i f = wal_append stringify (delete_entry now i) f"

definition wal_clear :: "wal_file \<Rightarrow> wal_file" where
  "wal_clear f = Some []"

text \<open>\<open>.map(line => JSON.parse(line))\<close>: the first line that does not parse throws.\<close>

fun parse_lines :: "(string \<Rightarrow> wal_entry option) \<Rightarrow> string list \<Rightarrow> engine_error + wal_entry list" where
  "parse_lines parse [] = Inr []"
| "parse_lines parse (l # ls) =
     (case parse l of
        None \<Rightarrow> Inl WalParseError
      | Some e \<Rightarrow> (case parse_lines parse ls of Inl err \<Rightarrow> Inl err | Inr es \<Rightarrow> Inr (e # es)))"

definition readAll :: "(string \<Rightarrow> wal_entry option) \<Rightarrow> wal_file \<Rightarrow> engine_error + wal_entry list" where
  "readAll parse f =
     (case f of
        None \<Rightarrow> Inr []
      | Some c \<Rightarrow>
          if js_trim c = [] then Inr []
          else parse_lines parse (filter (\<lambda>l. l \<noteq> []) (js_split_sep (\<lambda>ch. ch = newline) c)))"

section \<open>Abstract view\<close>

definition wal_encode :: "(wal_entry \<Rightarrow> string) \<Rightarrow> wal_entry list \<Rightarrow> string" where
  "wal_encode stringify es = concat (map (\<lambda>e. stringify e @ [newline]) es)"

text \<open>What the codec must do for one entry: read back what it wrote, as one line that is not blank.\<close>

definition line_codec :: "(wal_entry \<Rightarrow> string) \<Rightarrow> (string \<Rightarrow> wal_entry option) \<Rightarrow> wal_entry \<Rightarrow> bool" where
  "line_codec stringify parse e \<longleftrightarrow>
     parse (stringify e) = Some e \<and> newline \<notin> set (stringify e) \<and> \<not> list_all is_js_space (stringify e)"

section \<open>Refinement of the file to the entry list\<close>

lemma js_split_sep_encode:
  assumes "list_all (\<lambda>e. newline \<notin> set (stringify e)) es"
  shows "js_split_sep (\<lambda>ch. ch = newline) (wal_encode stringify es) = map stringify es @ [[]]"
  using assms
proof (induction es)
  case Nil
  then show ?case by (simp add: wal_encode_def)
next
  case (Cons e es)
  have "js_split_sep (\<lambda>ch. ch = newline) ([newline] @ wal_encode stringify es) =
        [] # map stringify es @ [[]]"
    using Cons by simp
  moreover have "\<not> list_ex (\<lambda>ch. ch = newline) (stringify e)"
    using Cons.prems by (simp add: list_ex_iff)
  ultimately have "js_split_sep (\<lambda>ch. ch = newline) (stringify e @ [newline] @ wal_encode stringify es) =
        (stringify e @ []) # map stringify es @ [[]]"
    by (rule js_split_sep_append_free)
  then show ?case by (simp add: wal_encode_def)
qed

lemma parse_lines_map:
  "list_all (\<lambda>e. parse (stringify e) = Some e) es \<Longrightarrow> parse_lines parse (map stringify es) = Inr es"
  by (induction es) auto

lemma wal_encode_blank_iff:
  "list_all (\<lambda>e. \<not> list_all is_js_space (stringify e)) es \<Longrightarrow>
   list_all is_js_space (wal_encode stringify es) \<longleftrightarrow> es = []"
  by (cases es) (auto simp: wal_encode_def)

lemma wal_append_encode:
  "wal_append stringify e (Some (wal_encode stringify es)) = Some (wal_encode stringify (es @ [e]))"
  by (simp add: wal_append_def wal_encode_def)

text \<open>
  The engine keeps the log as its list of entries and appends \<open>add_entry\<close> or
  \<open>delete_entry\<close> to it; on the file that holds the list, that is exactly what
  \<open>appendAdd\<close> and \<open>appendDelete\<close> write.
\<close>

lemma appendAdd_encode:
  "appendAdd stringify now m (Some (wal_encode stringify es)) = Some (wal_encode stringify (es @ [add_entry now m]))"
  by (simp add: appendAdd_def wal_append_encode)

lemma appendDelete_encode:
  "appendDelete stringify now i (Some (wal_encode stringify es)) =
     Some (wal_encode stringify (es @ [delete_entry now i]))"
  by (simp add: appendDelete_def wal_append_encode)

lemma wal_clear_encode: "wal_clear f = Some (wal_encode stringify [])"
  by (simp add: wal_clear_def wal_encode_def)

lemma readAll_missing: "readAll parse None = Inr []"
  by (simp add: readAll_def)

lemma parse_lines_error:
  "parse_lines parse ls = Inl e \<longleftrightarrow> list_ex (\<lambda>l. parse l = None) ls \<and> e = WalParseError"
  by (induction ls) (auto split: option.splits sum.splits)

text \<open>The log file holds its entries: reading it back returns them.\<close>

lemma readAll_wal_encode:
  assumes "list_all (line_codec stringify parse) es"
  shows "readAll parse (Some (wal_encode stringify es)) = Inr es"
proof (cases "es = []")
  case True
  then show ?thesis by (simp add: readAll_def wal_encode_def js_trim_def)
next
  case False
  have blank: "\<not> list_all is_js_space (wal_encode stringify es)"
    using assms False wal_encode_blank_iff [of stringify es]
    by (auto simp: line_codec_def list_all_iff)
  have split: "js_split_sep (\<lambda>ch. ch = newline) (wal_encode stringify es) = map stringify es @ [[]]"
    using assms by (intro js_split_sep_encode) (auto simp: line_codec_def list_all_iff)
  have ne: "list_all (\<lambda>e. stringify e \<noteq> []) es"
    using assms by (auto simp: line_codec_def list_all_iff)
  then have "filter (\<lambda>l. l \<noteq> []) (map stringify es @ [[]]) = map stringify es"
    by (induction es) auto
  moreover have "parse_lines parse (map stringify es) = Inr es"
    using assms by (intro parse_lines_map) (auto simp: line_codec_def list_all_iff)
  ultimately show ?thesis
    using blank split by (simp add: readAll_def js_trim_empty_iff)
qed

lemma fold_wal_append:
  "fold (wal_append stringify) es (Some (wal_encode stringify xs)) = Some (wal_encode stringify (xs @ es))"
  by (induction es arbitrary: xs) (simp_all add: wal_append_encode)

lemma fold_wal_append_None:
  "fold (wal_append stringify) es (wal_append stringify e None) = Some (wal_encode stringify (e # es))"
proof -
  have "wal_append stringify e None = Some (wal_encode stringify [e])"
    by (simp add: wal_append_def wal_encode_def)
  then show ?thesis using fold_wal_append [of stringify es "[e]"] by simp
qed

section \<open>Properties\<close>

text \<open>
  C15: A log file built by appends, starting from a cleared file or from no file, reads back as exactly the appended entries in append order, for any JSON codec that reads back what it writes as one non-blank line.
\<close>

theorem readAll_appends:
  assumes "list_all (line_codec stringify parse) es"
  shows "readAll parse (fold (wal_append stringify) es (wal_clear f)) = Inr es \<and>
         readAll parse (fold (wal_append stringify) es None) = Inr es"
proof -
  have "fold (wal_append stringify) es (wal_clear f) = Some (wal_encode stringify es)"
    using fold_wal_append [of stringify es "[]"] wal_clear_encode [of f stringify] by simp
  moreover have "fold (wal_append stringify) es None = (if es = [] then None else Some (wal_encode stringify es))"
    by (cases es) (simp_all add: fold_wal_append_None)
  ultimately show ?thesis
    using readAll_wal_encode [OF assms] by (simp add: readAll_def)
qed

end
