(* ===== verification/Engine.thy ===== *)
theory Engine
  imports Search Decay Summarizer Wal
begin

text \<open>
  The orchestrator of \<open>src/index.ts\<close> (class \<open>MemoryEngine\<close>). Its state is the record
  \<open>engine\<close>: the store's table, the write-ahead log as the list of its entries (the file
  holds \<open>wal_encode\<close> of it, see \<open>Wal\<close>), the embedding client, the configuration and
  the pending-write counter. \<open>crypto.randomUUID()\<close> is the sequence \<open>e_uuids\<close> with the
  index \<open>e_uuidNext\<close> of the next identifier; \<open>Date.now()\<close> is the argument \<open>now\<close> of
  each operation, one value per call. Each public method returns its result, an error
  for a thrown exception, together with the state after the call: the state changes that
  precede a throw in the code are kept. \<open>addMemory\<close> and \<open>search\<close> are also given
  split at their await on the embedding service, as the part before it and the
  continuation, for the model of concurrent requests in \<open>Interleaving\<close>; the
  composition of the two parts is the method (\<open>engine_addMemory_split\<close>,
  \<open>search_split\<close>).
\<close>

section \<open>State\<close>

record engine =
  e_store :: store_table
  e_dbPath :: string
  e_wal :: "wal_entry list"
  e_walPath :: string
  e_embeddings :: embeddings_client
  e_decayRate :: real
  e_summaryThreshold :: int
  e_preserveImportanceThreshold :: real
  e_walFlushThreshold :: nat
  e_walPending :: nat
  e_uuids :: "nat \<Rightarrow> memory_id"
  e_uuidNext :: nat
  e_toISO :: "int \<Rightarrow> string"

type_synonym 'a engine_result = "(engine_error + 'a) \<times> engine"

record memory_engine_options =
  opt_dbPath :: "string option"
  opt_walPath :: "string option"
  opt_openaiApiKey :: "string option"
  opt_embeddingModel :: "string option"
  opt_decayRate :: "real option"
  opt_summaryThreshold :: "int option"
  opt_preserveImportanceThreshold :: "real option"

record health_status =
  ok :: bool
  memoryCount :: nat
  dbPath :: string
  walPath :: string

section \<open>Private helpers\<close>

definition flushWal :: "engine \<Rightarrow> engine" where
  "flushWal s = s\<lparr>e_wal := [], e_walPending := 0\<rparr>"

definition maybeFlushWal :: "engine \<Rightarrow> engine" where
  "maybeFlushWal s =
     (let s' = s\<lparr>e_walPending := Suc (e_walPending s)\<rparr>
      in if e_walFlushThreshold s' \<le> e_walPending s' then flushWal s' else s')"

text \<open>One iteration of the loop of \<open>recoverWal\<close>: the two \<open>if\<close>s of the source in turn.\<close>

definition replay_entry :: "wal_entry \<Rightarrow> store_table \<Rightarrow> store_table" where
  "replay_entry e t =
     (let t1 = (case (entry_op e, entry_memory e) of (WalAdd, Some m) \<Rightarrow> upsertMemory m t | _ \<Rightarrow> t)
      in case (entry_op e, entry_id e) of
           (WalDelete, Some i) \<Rightarrow> if i \<noteq> [] then snd (deleteMemory i t1) else t1
         | _ \<Rightarrow> t1)"

fun replay :: "wal_entry list \<Rightarrow> store_table \<Rightarrow> store_table" where
  "replay [] t = t"
| "replay (e # es) t = replay es (replay_entry e t)"

definition recoverWal :: "engine \<Rightarrow> engine" where
  "recoverWal s =
     (let entries = e_wal s
      in if entries = [] then s else flushWal (s\<lparr>e_store := replay entries (e_store s)\<rparr>))"

definition assertValidInput :: "memory_input \<Rightarrow> engine_error + category" where
  "assertValidInput input =
     (if input_content input = [] \<or> js_trim (input_content input) = [] then Inl EmptyContent
      else if input_category input = [] then Inl MissingCategory
      else case category_of_string (input_category input) of
             None \<Rightarrow> Inl (InvalidCategory (input_category input))
           | Some c \<Rightarrow> Inr c)"

section \<open>Construction\<close>

text \<open>\<open>path.resolve(process.cwd(), name)\<close> for an absolute working directory \<open>cwd\<close>.\<close>

definition DEFAULT_DB_PATH :: "string \<Rightarrow> string" where
  "DEFAULT_DB_PATH cwd = cwd @ ''/memory.db''"

definition DEFAULT_WAL_PATH :: "string \<Rightarrow> string" where
  "DEFAULT_WAL_PATH cwd = cwd @ ''/memory.wal''"

text \<open>
  The paths of the constructor: \<open>options.dbPath ?? process.env.MEMORY_DB_PATH ??
  DEFAULT_DB_PATH\<close> and \<open>options.walPath ?? DEFAULT_WAL_PATH\<close>; the log path has no
  environment variable and does not follow the database path.
\<close>

definition engine_paths :: "string option \<Rightarrow> string option \<Rightarrow> string option \<Rightarrow> string \<Rightarrow> string \<times> string" where
  "engine_paths optDb optWal envDb cwd =
     ((case optDb of Some p \<Rightarrow> p | None \<Rightarrow> (case envDb of Some p \<Rightarrow> p | None \<Rightarrow> DEFAULT_DB_PATH cwd)),
      (case optWal of Some p \<Rightarrow> p | None \<Rightarrow> DEFAULT_WAL_PATH cwd))"

text \<open>
  \<open>new SQLiteStore(dbPath)\<close>: the table of the database file (\<open>None\<close> when the file does
  not exist), created empty by \<open>CREATE TABLE IF NOT EXISTS\<close>; the journal pragma and the
  two indexes change no statement's result.
\<close>

definition new_SQLiteStore :: "store_table option \<Rightarrow> store_table" where
  "new_SQLiteStore db = (case db of None \<Rightarrow> [] | Some t \<Rightarrow> t)"

text \<open>
  The constructor, given \<open>MEMORY_DB_PATH\<close> \<open>envDb\<close>, \<open>OPENAI_API_KEY\<close> \<open>envKey\<close>, the
  working directory, the embedding service for each model name, and the database and log
  files by path: it resolves the paths, opens the store (its table as persisted) and the
  log (\<open>ensureDir\<close> creates an absent file), builds the embedding client from the key and
  the model, and recovers from the log. A log line that does not parse makes the
  constructor throw.
\<close>

definition new_MemoryEngine ::
  "memory_engine_options \<Rightarrow> string option \<Rightarrow> string option \<Rightarrow> string \<Rightarrow> (string \<Rightarrow> string \<Rightarrow> api_response) \<Rightarrow>
   (nat \<Rightarrow> memory_id) \<Rightarrow> (int \<Rightarrow> string) \<Rightarrow> (string \<Rightarrow> wal_entry option) \<Rightarrow>
   (string \<Rightarrow> store_table option) \<Rightarrow> (string \<Rightarrow> wal_file) \<Rightarrow> engine_error + engine" where
  "new_MemoryEngine opts envDb envKey cwd api uuids toISO parse dbFiles walFiles =
     (let (dbp, walp) = engine_paths (opt_dbPath opts) (opt_walPath opts) envDb cwd;
          apiKey = (case opt_openaiApiKey opts of Some k \<Rightarrow> k | None \<Rightarrow> (case envKey of Some k \<Rightarrow> k | None \<Rightarrow> ''''));
          model = (case opt_embeddingModel opts of Some m \<Rightarrow> m | None \<Rightarrow> ''text-embedding-3-small'')
      in case readAll parse (ensureDir (walFiles walp)) of
           Inl e \<Rightarrow> Inl e
         | Inr entries \<Rightarrow>
             Inr (recoverWal
               \<lparr>e_store = new_SQLiteStore (dbFiles dbp), e_dbPath = dbp, e_wal = entries, e_walPath = walp,
                e_embeddings = new_EmbeddingsClient apiKey (api model),
                e_decayRate = (case opt_decayRate opts of None \<Rightarrow> 0.05 | Some r \<Rightarrow> r),
                e_summaryThreshold = (case opt_summaryThreshold opts of None \<Rightarrow> 200 | Some n \<Rightarrow> n),
                e_preserveImportanceThreshold =
                  (case opt_preserveImportanceThreshold opts of None \<Rightarrow> 0.7 | Some x \<Rightarrow> x),
                e_walFlushThreshold = 20, e_walPending = 0,
                e_uuids = uuids, e_uuidNext = 0, e_toISO = toISO\<rparr>))"

section \<open>Public operations\<close>

definition engine_addMemory :: "time \<Rightarrow> memory_input \<Rightarrow> engine \<Rightarrow> memory_record engine_result" where
  "engine_addMemory now input s =
     (case assertValidInput input of
        Inl e \<Rightarrow> (Inl e, s)
      | Inr c \<Rightarrow>
          (let ts = (case input_timestamp input of None \<Rightarrow> now | Some t \<Rightarrow> t);
               imp = (case input_importance input of None \<Rightarrow> 0.5 | Some x \<Rightarrow> x);
               tgs = (case input_tags input of None \<Rightarrow> [] | Some xs \<Rightarrow> xs)
           in case embedText (e_embeddings s) (input_content input) of
                Inl e \<Rightarrow> (Inl e, s)
              | Inr emb \<Rightarrow>
                  (let memory = \<lparr>mem_id = e_uuids s (e_uuidNext s), content = js_trim (input_content input),
                                 category = c, tags = tgs, timestamp = ts, importance = imp,
                                 embedding = emb, lastAccessed = ts\<rparr>;
                       s1 = s\<lparr>e_uuidNext := Suc (e_uuidNext s), e_wal := e_wal s @ [add_entry now memory]\<rparr>
                   in case store_addMemory memory (e_store s1) of
                        Inl e \<Rightarrow> (Inl e, s1)
                      | Inr t \<Rightarrow> (Inr memory, maybeFlushWal (s1\<lparr>e_store := t\<rparr>)))))"

text \<open>The loop of \<open>search\<close> that touches every returned record.\<close>

fun apply_search_boosts :: "time \<Rightarrow> search_result list \<Rightarrow> store_table \<Rightarrow> store_table" where
  "apply_search_boosts now [] t = t"
| "apply_search_boosts now (r # rs) t =
     (let boosted = min 1 (importance (sr_memory r) + 0.03)
      in apply_search_boosts now rs
           (updateImportance (mem_id (sr_memory r)) boosted (updateAccess (mem_id (sr_memory r)) now t)))"

definition search :: "time \<Rightarrow> string \<Rightarrow> search_options \<Rightarrow> engine \<Rightarrow> search_result list engine_result" where
  "search now query opts s =
     (if query = [] \<or> js_trim query = [] then (Inl EmptyQuery, s)
      else case semanticSearch (e_store s) (e_embeddings s) query
                  (opts\<lparr>so_keyword := Some (case so_keyword opts of None \<Rightarrow> query | Some k \<Rightarrow> k)\<rparr>) of
             Inl e \<Rightarrow> (Inl e, s)
           | Inr results \<Rightarrow> (Inr results, s\<lparr>e_store := apply_search_boosts now results (e_store s)\<rparr>))"

definition engine_list :: "list_options \<Rightarrow> engine \<Rightarrow> engine_error + memory_record list" where
  "engine_list opts s = listMemories opts (e_store s)"

definition engine_get :: "time \<Rightarrow> memory_id \<Rightarrow> engine \<Rightarrow> memory_record option \<times> engine" where
  "engine_get now i s =
     (case getMemory i (e_store s) of
        None \<Rightarrow> (None, s)
      | Some m \<Rightarrow>
          (let boosted = min 1 (importance m + 0.02)
           in (Some (m\<lparr>lastAccessed := now, importance := boosted\<rparr>),
               s\<lparr>e_store := updateImportance (mem_id m) boosted (updateAccess (mem_id m) now (e_store s))\<rparr>)))"

definition engine_delete :: "time \<Rightarrow> memory_id \<Rightarrow> engine \<Rightarrow> bool engine_result" where
  "engine_delete now i s =
     (if i = [] then (Inl MissingId, s)
      else (let s1 = s\<lparr>e_wal := e_wal s @ [delete_entry now i]\<rparr>;
                (removed, t) = deleteMemory i (e_store s1)
            in (Inr removed, maybeFlushWal (s1\<lparr>e_store := t\<rparr>))))"

text \<open>The inner loop of \<open>summarize\<close> over a plan's source ids, counting actual removals.\<close>

fun delete_sources :: "time \<Rightarrow> memory_id list \<Rightarrow> nat \<Rightarrow> engine \<Rightarrow> nat engine_result" where
  "delete_sources now [] d s = (Inr d, s)"
| "delete_sources now (i # is) d s =
     (case engine_delete now i s of
        (Inl e, s') \<Rightarrow> (Inl e, s')
      | (Inr removed, s') \<Rightarrow> delete_sources now is (if removed then Suc d else d) s')"

text \<open>The outer loop of \<open>summarize\<close> over the plans.\<close>

fun apply_plans :: "time \<Rightarrow> summary_plan list \<Rightarrow> nat \<times> nat \<Rightarrow> engine \<Rightarrow> (nat \<times> nat) engine_result" where
  "apply_plans now [] acc s = (Inr acc, s)"
| "apply_plans now (p # ps) (n, d) s =
     (case engine_addMemory now (summary p) s of
        (Inl e, s') \<Rightarrow> (Inl e, s')
      | (Inr _, s') \<Rightarrow>
          (case delete_sources now (sourceIds p) d s' of
             (Inl e, s'') \<Rightarrow> (Inl e, s'')
           | (Inr d', s'') \<Rightarrow> apply_plans now ps (Suc n, d') s''))"

definition summarize :: "time \<Rightarrow> engine \<Rightarrow> (nat \<times> nat) engine_result" where
  "summarize now s =
     (if int (store_count (e_store s)) < e_summaryThreshold s then (Inr (0, 0), s)
      else case buildSummaries (e_toISO s) now (getAllMemories (e_store s))
                  \<lparr>maxGroupSize = 12, preserveImportanceThreshold = e_preserveImportanceThreshold s\<rparr> of
             Inl e \<Rightarrow> (Inl e, s)
           | Inr plans \<Rightarrow> apply_plans now plans (0, 0) s)"

text \<open>The loop of \<open>decay\<close>, over the snapshot of the table taken before it.\<close>

fun decay_loop :: "time \<Rightarrow> real \<Rightarrow> memory_record list \<Rightarrow> nat \<Rightarrow> store_table \<Rightarrow> nat \<times> store_table" where
  "decay_loop now rate [] updated t = (updated, t)"
| "decay_loop now rate (m # ms) updated t =
     (let decayed = applyDecay m now \<lparr>decayRate = rate, minimumImportance = 0.05\<rparr>
      in if importance decayed \<noteq> importance m
         then decay_loop now rate ms (Suc updated) (updateImportance (mem_id m) (importance decayed) t)
         else decay_loop now rate ms updated t)"

definition decay :: "time \<Rightarrow> engine \<Rightarrow> (nat \<times> nat) \<times> engine" where
  "decay now s =
     (let (updated, t) = decay_loop now (e_decayRate s) (getAllMemories (e_store s)) 0 (e_store s);
          pruneBefore = now - 1000 * 60 * 60 * 24 * 365;
          (pruned, t') = pruneBelowImportance 0.1 pruneBefore t
      in ((updated, pruned), s\<lparr>e_store := t'\<rparr>))"

definition health :: "engine \<Rightarrow> health_status" where
  "health s = \<lparr>ok = True, memoryCount = store_count (e_store s), dbPath = e_dbPath s, walPath = e_walPath s\<rparr>"

text \<open>
  A process restart: the in-memory counter is lost, the table and the log file persist,
  and the constructor recovers from the log (see \<open>new_MemoryEngine_restart\<close>).
\<close>

definition restart :: "engine \<Rightarrow> engine" where
  "restart s = recoverWal (s\<lparr>e_walPending := 0\<rparr>)"

section \<open>The handlers split at their awaits\<close>

text \<open>
  \<open>addMemory\<close> up to \<open>await this.embeddings.embedText(input.content)\<close>: the validation,
  and \<open>Date.now()\<close> read for the default timestamp. The defaults for importance and tags
  are pure functions of the input and are computed in the continuation.
\<close>

record add_job =
  aj_time :: time
  aj_input :: memory_input
  aj_category :: category

definition add_begin :: "time \<Rightarrow> memory_input \<Rightarrow> engine_error + add_job" where
  "add_begin now input =
     (case assertValidInput input of
        Inl e \<Rightarrow> Inl e
      | Inr c \<Rightarrow> Inr \<lparr>aj_time = now, aj_input = input, aj_category = c\<rparr>)"

text \<open>
  The continuation of \<open>addMemory\<close>, given the outcome of the embedding call: the record
  gets its identifier now, and the log entry the clock of the resumption (\<open>appendAdd\<close>
  reads \<open>Date.now()\<close> itself).
\<close>

definition add_resume :: "time \<Rightarrow> add_job \<Rightarrow> engine_error + real list \<Rightarrow> engine \<Rightarrow> memory_record engine_result" where
  "add_resume now j r s =
     (let input = aj_input j;
          ts = (case input_timestamp input of None \<Rightarrow> aj_time j | Some t \<Rightarrow> t);
          imp = (case input_importance input of None \<Rightarrow> 0.5 | Some x \<Rightarrow> x);
          tgs = (case input_tags input of None \<Rightarrow> [] | Some xs \<Rightarrow> xs)
      in case r of
           Inl e \<Rightarrow> (Inl e, s)
         | Inr emb \<Rightarrow>
             (let memory = \<lparr>mem_id = e_uuids s (e_uuidNext s), content = js_trim (input_content input),
                            category = aj_category j, tags = tgs, timestamp = ts, importance = imp,
                            embedding = emb, lastAccessed = ts\<rparr>;
                  s1 = s\<lparr>e_uuidNext := Suc (e_uuidNext s), e_wal := e_wal s @ [add_entry now memory]\<rparr>
              in case store_addMemory memory (e_store s1) of
                   Inl e \<Rightarrow> (Inl e, s1)
                 | Inr t \<Rightarrow> (Inr memory, maybeFlushWal (s1\<lparr>e_store := t\<rparr>))))"

text \<open>
  \<open>search\<close> up to the await inside \<open>semanticSearch\<close>: the query check, the options with
  the keyword filled in, and the snapshot \<open>store.getAllMemories()\<close> the ranking will use.
  On an empty table \<open>semanticSearch\<close> returns before it awaits anything.
\<close>

record search_job =
  sj_query :: string
  sj_opts :: search_options
  sj_snapshot :: "memory_record list"

definition search_begin :: "string \<Rightarrow> search_options \<Rightarrow> engine \<Rightarrow> engine_error + search_result list + search_job" where
  "search_begin query opts s =
     (if query = [] \<or> js_trim query = [] then Inl EmptyQuery
      else let allMemories = getAllMemories (e_store s)
           in if allMemories = [] then Inr (Inl [])
              else Inr (Inr \<lparr>sj_query = query,
                             sj_opts = opts\<lparr>so_keyword := Some (case so_keyword opts of None \<Rightarrow> query | Some k \<Rightarrow> k)\<rparr>,
                             sj_snapshot = allMemories\<rparr>))"

text \<open>
  The rest of \<open>semanticSearch\<close> ranks the snapshot; the loop of \<open>search\<close> then boosts the
  returned records in the table as it is now, from the importance the snapshot holds.
\<close>

definition search_resume :: "time \<Rightarrow> search_job \<Rightarrow> engine_error + real list \<Rightarrow> engine \<Rightarrow> search_result list engine_result" where
  "search_resume now j r s =
     (case r of
        Inl e \<Rightarrow> (Inl e, s)
      | Inr queryEmbedding \<Rightarrow>
          (let results = js_slice_prefix (search_limit (sj_opts j))
                           (search_ranking queryEmbedding (search_keyword (sj_query j) (sj_opts j))
                              (search_candidates (sj_opts j) (sj_snapshot j)))
           in (Inr results, s\<lparr>e_store := apply_search_boosts now results (e_store s)\<rparr>)))"

section \<open>Invariant, log semantics and runs\<close>

text \<open>
  \<open>entry_effect\<close> and \<open>log_effect\<close> say what one log entry, and the last entry of a
  log that touches an identifier, does to that identifier when replayed: nothing
  (\<open>None\<close>), store a record or remove it. \<open>engine_inv\<close> is the invariant every
  operation keeps: identifiers are unique and every importance in the table and in the
  log lies in [0, 1]. \<open>engine_op\<close> is the public operation set with \<open>engine_step\<close>
  its effect on the state, and \<open>engine_run\<close> a sequence of calls.
\<close>

definition entry_effect :: "wal_entry \<Rightarrow> memory_id \<Rightarrow> memory_record option option" where
  "entry_effect e k =
     (let e1 = (case (entry_op e, entry_memory e) of
                  (WalAdd, Some m) \<Rightarrow> if mem_id m = k then Some (Some m) else None
                | _ \<Rightarrow> None)
      in case (entry_op e, entry_id e) of
           (WalDelete, Some i) \<Rightarrow> if i \<noteq> [] \<and> i = k then Some None else e1
         | _ \<Rightarrow> e1)"

fun log_effect :: "wal_entry list \<Rightarrow> memory_id \<Rightarrow> memory_record option option" where
  "log_effect [] k = None"
| "log_effect (e # es) k = (case log_effect es k of None \<Rightarrow> entry_effect e k | Some v \<Rightarrow> Some v)"

definition unit_importance :: "memory_record \<Rightarrow> bool" where
  "unit_importance m \<longleftrightarrow> 0 \<le> importance m \<and> importance m \<le> 1"

definition entry_ok :: "wal_entry \<Rightarrow> bool" where
  "entry_ok e \<longleftrightarrow> (case entry_memory e of None \<Rightarrow> True | Some m \<Rightarrow> unit_importance m)"

definition engine_inv :: "engine \<Rightarrow> bool" where
  "engine_inv s \<longleftrightarrow>
     store_inv (e_store s) \<and> list_all unit_importance (e_store s) \<and> list_all entry_ok (e_wal s) \<and>
     0 \<le> e_decayRate s \<and> 0 \<le> e_preserveImportanceThreshold s \<and> e_preserveImportanceThreshold s \<le> 1"

text \<open>The pending-write counter stays below the flush threshold, which never changes.\<close>

definition pending_ok :: "nat \<Rightarrow> engine \<Rightarrow> bool" where
  "pending_ok thr s \<longleftrightarrow> e_walFlushThreshold s = thr \<and> e_walPending s < thr"

definition input_ok :: "memory_input \<Rightarrow> bool" where
  "input_ok input \<longleftrightarrow> (case input_importance input of None \<Rightarrow> True | Some x \<Rightarrow> 0 \<le> x \<and> x \<le> 1)"

datatype engine_op =
    OpAdd time memory_input
  | OpSearch time string search_options
  | OpGet time memory_id
  | OpDelete time memory_id
  | OpSummarize time
  | OpDecay time
  | OpFlush
  | OpRestart

fun engine_step :: "engine_op \<Rightarrow> engine \<Rightarrow> engine" where
  "engine_step (OpAdd now input) s = snd (engine_addMemory now input s)"
| "engine_step (OpSearch now q opts) s = snd (search now q opts s)"
| "engine_step (OpGet now i) s = snd (engine_get now i s)"
| "engine_step (OpDelete now i) s = snd (engine_delete now i s)"
| "engine_step (OpSummarize now) s = snd (summarize now s)"
| "engine_step (OpDecay now) s = snd (decay now s)"
| "engine_step OpFlush s = flushWal s"
| "engine_step OpRestart s = restart s"

fun engine_run :: "engine_op list \<Rightarrow> engine \<Rightarrow> engine" where
  "engine_run [] s = s"
| "engine_run (op # ops) s = engine_run ops (engine_step op s)"

fun op_ok :: "engine_op \<Rightarrow> bool" where
  "op_ok (OpAdd now input) = input_ok input"
| "op_ok _ = True"

section \<open>Lemmas\<close>

lemma replay_entry_lookup:
  "store_lookup (replay_entry e t) k =
     (case entry_effect e k of None \<Rightarrow> store_lookup t k | Some v \<Rightarrow> v)"
  by (auto simp: replay_entry_def entry_effect_def Let_def upsertMemory_refines deleteMemory_refines
      split: wal_op.splits option.splits)

lemma replay_lookup:
  "store_lookup (replay es t) k =
     (case log_effect es k of None \<Rightarrow> store_lookup t k | Some v \<Rightarrow> v)"
  by (induction es arbitrary: t) (auto simp: replay_entry_lookup split: option.splits)

lemma replay_append: "replay (xs @ ys) t = replay ys (replay xs t)"
  by (induction xs arbitrary: t) simp_all

lemma log_effect_None_iff: "log_effect es k = None \<longleftrightarrow> list_all (\<lambda>e. entry_effect e k = None) es"
  by (induction es) (auto split: option.splits)

lemma log_effect_take_None: "log_effect es k = None \<Longrightarrow> log_effect (take n es) k = None"
  by (auto simp: log_effect_None_iff list_all_iff dest: in_set_takeD)

theorem replay_prefix_idempotent:
  "store_lookup (replay es (replay (take n es) t)) = store_lookup (replay es t)"
proof
  fix k
  show "store_lookup (replay es (replay (take n es) t)) k = store_lookup (replay es t) k"
  proof (cases "log_effect es k")
    case None
    then have "log_effect (take n es) k = None" by (rule log_effect_take_None)
    with None show ?thesis by (simp add: replay_lookup)
  next
    case (Some v)
    then show ?thesis by (simp add: replay_lookup)
  qed
qed

lemma replay_entry_add [simp]: "replay_entry (add_entry now m) t = upsertMemory m t"
  by (simp add: replay_entry_def add_entry_def)

lemma replay_entry_delete [simp]:
  "i \<noteq> [] \<Longrightarrow> replay_entry (delete_entry now i) t = snd (deleteMemory i t)"
  by (simp add: replay_entry_def delete_entry_def)

lemma maybeFlushWal_store [simp]: "e_store (maybeFlushWal s) = e_store s"
  by (simp add: maybeFlushWal_def flushWal_def Let_def)

lemma maybeFlushWal_wal:
  "e_wal (maybeFlushWal s) = (if e_walFlushThreshold s \<le> Suc (e_walPending s) then [] else e_wal s)"
  by (simp add: maybeFlushWal_def flushWal_def Let_def)

lemma replay_store_inv: "store_inv t \<Longrightarrow> store_inv (replay es t)"
proof (induction es arbitrary: t)
  case (Cons e es)
  have "store_inv (replay_entry e t)"
    using Cons.prems
    by (auto simp: replay_entry_def Let_def store_inv_upsertMemory store_inv_deleteMemory
        split: wal_op.splits option.splits)
  with Cons.IH show ?case by simp
qed simp

text \<open>A successful add below the flush threshold appends its add entry to the log.\<close>

lemma engine_addMemory_logs:
  assumes "engine_addMemory now input s = (Inr m, s')" and "Suc (e_walPending s) < e_walFlushThreshold s"
  shows "e_wal s' = e_wal s @ [add_entry now m]"
  using assms by (auto simp: engine_addMemory_def Let_def maybeFlushWal_wal split: sum.splits)

lemma engine_addMemory_Inr:
  assumes "engine_addMemory now input s = (Inr m, s')"
  shows "e_store s' = upsertMemory m (e_store s) \<and> mem_id m \<notin> set (store_ids (e_store s)) \<and>
         (e_wal s' = e_wal s @ [add_entry now m] \<or> e_wal s' = [])"
proof -
  from assms obtain c emb t where
      v: "assertValidInput input = Inr c" and e: "embedText (e_embeddings s) (input_content input) = Inr emb"
    and add: "store_addMemory m (e_store s) = Inr t"
    and s': "s' = maybeFlushWal (s\<lparr>e_uuidNext := Suc (e_uuidNext s), e_wal := e_wal s @ [add_entry now m], e_store := t\<rparr>)"
    by (auto simp: engine_addMemory_def Let_def split: sum.splits)
  from add have "t = upsertMemory m (e_store s)" by (rule store_addMemory_upsert)
  moreover from add have "mem_id m \<notin> set (store_ids (e_store s))"
    by (simp add: store_addMemory_def split: if_splits)
  ultimately show ?thesis using s' by (simp add: maybeFlushWal_wal)
qed

lemma engine_delete_Inr:
  assumes "engine_delete now i s = (Inr b, s')"
  shows "i \<noteq> [] \<and> e_store s' = snd (deleteMemory i (e_store s)) \<and> b = fst (deleteMemory i (e_store s)) \<and>
         (e_wal s' = e_wal s @ [delete_entry now i] \<or> e_wal s' = [])"
  using assms by (auto simp: engine_delete_def Let_def maybeFlushWal_wal split: prod.splits if_splits)

lemma restart_wal [simp]: "e_wal (restart s) = []"
  by (simp add: restart_def recoverWal_def flushWal_def Let_def)

lemma unit_updateImportance:
  "list_all unit_importance t \<Longrightarrow> 0 \<le> x \<Longrightarrow> x \<le> 1 \<Longrightarrow> list_all unit_importance (updateImportance i x t)"
  by (induction t) (auto simp: updateImportance_def unit_importance_def)

lemma unit_updateAccess [simp]:
  "list_all unit_importance (updateAccess i ts t) = list_all unit_importance t"
  by (induction t) (auto simp: updateAccess_def unit_importance_def)

lemma unit_filter [intro]: "list_all P t \<Longrightarrow> list_all P (filter Q t)"
  by (induction t) auto

lemma unit_upsertMemory:
  "list_all unit_importance t \<Longrightarrow> unit_importance m \<Longrightarrow> list_all unit_importance (upsertMemory m t)"
  by (induction t) (auto simp: upsertMemory_def store_ids_def list_all_iff)

lemma unit_boost:
  "unit_importance m \<Longrightarrow> 0 \<le> (d::real) \<Longrightarrow> 0 \<le> min 1 (importance m + d) \<and> min 1 (importance m + d) \<le> 1"
  by (auto simp: unit_importance_def)

lemma engine_inv_get: "engine_inv s \<Longrightarrow> engine_inv (snd (engine_get now i s))"
proof -
  assume inv: "engine_inv s"
  show ?thesis
  proof (cases "getMemory i (e_store s)")
    case None
    with inv show ?thesis by (simp add: engine_get_def)
  next
    case (Some m)
    then have "m \<in> set (e_store s)" by (auto simp: getMemory_def dest: find_Some_iff [THEN iffD1] nth_mem)
    with inv have "unit_importance m" by (auto simp: engine_inv_def list_all_iff)
    then have "0 \<le> min 1 (importance m + 0.02) \<and> min 1 (importance m + 0.02) \<le> (1::real)"
      by (rule unit_boost) simp
    with inv Some show ?thesis
      by (auto simp: engine_get_def engine_inv_def store_inv_updateImportance store_inv_updateAccess Let_def
          intro: unit_updateImportance)
  qed
qed

lemma unit_apply_search_boosts:
  "list_all (\<lambda>r. unit_importance (sr_memory r)) rs \<Longrightarrow> list_all unit_importance t \<Longrightarrow>
   list_all unit_importance (apply_search_boosts now rs t)"
proof (induction now rs t rule: apply_search_boosts.induct)
  case (1 now t)
  then show ?case by simp
next
  case (2 now r rs t)
  have "0 \<le> min 1 (importance (sr_memory r) + 0.03) \<and> min 1 (importance (sr_memory r) + 0.03) \<le> (1::real)"
    using "2.prems"(1) by (intro unit_boost) simp_all
  with "2.prems" show ?case by (simp add: "2.IH" unit_updateImportance)
qed

lemma store_ids_apply_search_boosts [simp]: "store_ids (apply_search_boosts now rs t) = store_ids t"
  by (induction now rs t rule: apply_search_boosts.induct) (simp_all add: Let_def)

lemma apply_search_boosts_other:
  "k \<notin> set (map (mem_id \<circ> sr_memory) rs) \<Longrightarrow> store_lookup (apply_search_boosts now rs t) k = store_lookup t k"
  by (induction now rs t rule: apply_search_boosts.induct)
     (simp_all add: Let_def updateImportance_refines updateAccess_refines)

lemma apply_search_boosts_lookup:
  assumes "distinct (map (mem_id \<circ> sr_memory) rs)" and "r \<in> set rs"
  shows "store_lookup (apply_search_boosts now rs t) (mem_id (sr_memory r)) =
         map_option (\<lambda>x. x\<lparr>lastAccessed := now, importance := min 1 (importance (sr_memory r) + 0.03)\<rparr>)
           (store_lookup t (mem_id (sr_memory r)))"
  using assms
proof (induction rs arbitrary: t)
  case (Cons r0 rs)
  show ?case
  proof (cases "r = r0")
    case True
    with Cons.prems show ?thesis
      by (simp add: Let_def apply_search_boosts_other updateImportance_refines updateAccess_refines
          option.map_comp comp_def)
  next
    case False
    with Cons.prems have "r \<in> set rs" and "mem_id (sr_memory r0) \<noteq> mem_id (sr_memory r)"
      by auto
    with Cons show ?thesis
      by (simp add: Let_def updateImportance_refines updateAccess_refines)
  qed
qed simp

lemma search_split:
  "search now query opts s =
     (case search_begin query opts s of
        Inl e \<Rightarrow> (Inl e, s)
      | Inr (Inl rs) \<Rightarrow> (Inr rs, s)
      | Inr (Inr j) \<Rightarrow> search_resume now j (embedText (e_embeddings s) query) s)"
  by (auto simp: search_def search_begin_def search_resume_def semanticSearch_eq getAllMemories_def Let_def
      split: sum.splits)

lemma search_resume_sound:
  "search_resume now j (Inr q) s = (Inr rs, s') \<Longrightarrow> r \<in> set rs \<Longrightarrow> sr_memory r \<in> set (sj_snapshot j)"
  using set_js_slice_prefix
  by (fastforce simp: search_resume_def Let_def set_search_ranking set_search_candidates)

lemma engine_inv_search_resume:
  assumes inv: "engine_inv s" and snap: "list_all unit_importance (sj_snapshot j)"
  shows "engine_inv (snd (search_resume now j r s))"
proof (cases r)
  case (Inl e)
  with inv show ?thesis by (simp add: search_resume_def)
next
  case (Inr q)
  obtain rs s' where rs: "search_resume now j (Inr q) s = (Inr rs, s')"
    by (simp add: search_resume_def Let_def)
  then have "list_all (\<lambda>r. unit_importance (sr_memory r)) rs"
    using snap search_resume_sound [OF rs] by (auto simp: list_all_iff)
  with inv Inr rs show ?thesis
    by (auto simp: search_resume_def engine_inv_def store_inv_def unit_apply_search_boosts Let_def)
qed

lemma engine_inv_search: "engine_inv s \<Longrightarrow> engine_inv (snd (search now query opts s))"
proof -
  assume inv: "engine_inv s"
  then have "list_all unit_importance (e_store s)" by (simp add: engine_inv_def)
  with inv show ?thesis
    by (auto simp: search_split search_begin_def getAllMemories_def Let_def
        intro: engine_inv_search_resume split: sum.splits)
qed

lemma maybeFlushWal_cfg [simp]:
  "e_decayRate (maybeFlushWal s) = e_decayRate s"
  "e_preserveImportanceThreshold (maybeFlushWal s) = e_preserveImportanceThreshold s"
  "e_summaryThreshold (maybeFlushWal s) = e_summaryThreshold s"
  "e_walFlushThreshold (maybeFlushWal s) = e_walFlushThreshold s"
  "e_embeddings (maybeFlushWal s) = e_embeddings s"
  "e_uuids (maybeFlushWal s) = e_uuids s"
  "e_uuidNext (maybeFlushWal s) = e_uuidNext s"
  "e_toISO (maybeFlushWal s) = e_toISO s"
  by (simp_all add: maybeFlushWal_def flushWal_def Let_def)

lemma engine_inv_maybeFlushWal: "engine_inv s \<Longrightarrow> engine_inv (maybeFlushWal s)"
  by (simp add: engine_inv_def maybeFlushWal_def flushWal_def Let_def)

lemma engine_inv_flushWal: "engine_inv s \<Longrightarrow> engine_inv (flushWal s)"
  by (simp add: engine_inv_def flushWal_def)

lemma engine_addMemory_split:
  "engine_addMemory now input s =
     (case add_begin now input of
        Inl e \<Rightarrow> (Inl e, s)
      | Inr j \<Rightarrow> add_resume now j (embedText (e_embeddings s) (input_content input)) s)"
proof (cases "assertValidInput input")
  case (Inr c)
  then show ?thesis
    by (cases "embedText (e_embeddings s) (input_content input)")
       (simp_all add: engine_addMemory_def add_begin_def add_resume_def Let_def cong: option.case_cong)
qed (simp add: engine_addMemory_def add_begin_def)

lemma engine_inv_add_resume:
  assumes inv: "engine_inv s" and ok: "input_ok (aj_input j)"
  shows "engine_inv (snd (add_resume now j r s))"
proof (cases r)
  case (Inl e)
  with inv show ?thesis by (simp add: add_resume_def)
next
  case emb: (Inr v)
  define input where "input = aj_input j"
  define m where "m = \<lparr>mem_id = e_uuids s (e_uuidNext s), content = js_trim (input_content input),
      category = aj_category j, tags = (case input_tags input of None \<Rightarrow> [] | Some xs \<Rightarrow> xs),
      timestamp = (case input_timestamp input of None \<Rightarrow> aj_time j | Some t \<Rightarrow> t),
      importance = (case input_importance input of None \<Rightarrow> 0.5 | Some x \<Rightarrow> x),
      embedding = v, lastAccessed = (case input_timestamp input of None \<Rightarrow> aj_time j | Some t \<Rightarrow> t)\<rparr>"
  have um: "unit_importance m"
    using ok by (auto simp: m_def input_def unit_importance_def input_ok_def split: option.splits)
  let ?s1 = "s\<lparr>e_uuidNext := Suc (e_uuidNext s), e_wal := e_wal s @ [add_entry now m]\<rparr>"
  have eq: "add_resume now j r s =
              (case store_addMemory m (e_store s) of
                 Inl e \<Rightarrow> (Inl e, ?s1) | Inr t \<Rightarrow> (Inr m, maybeFlushWal (?s1\<lparr>e_store := t\<rparr>)))"
    using emb unfolding add_resume_def Let_def m_def input_def by simp
  have inv1: "engine_inv ?s1"
    using inv um by (simp add: engine_inv_def entry_ok_def add_entry_def)
  show ?thesis
  proof (cases "store_addMemory m (e_store s)")
    case (Inl e)
    with eq inv1 show ?thesis by simp
  next
    case (Inr t)
    have "store_inv t"
      using inv Inr by (auto simp: engine_inv_def intro: store_inv_addMemory)
    moreover have "t = e_store s @ [m]"
      using Inr by (simp add: store_addMemory_def split: if_splits)
    ultimately have "engine_inv (?s1\<lparr>e_store := t\<rparr>)"
      using inv1 um by (simp add: engine_inv_def)
    with eq Inr show ?thesis by (simp add: engine_inv_maybeFlushWal)
  qed
qed

lemma engine_inv_add:
  "engine_inv s \<Longrightarrow> input_ok input \<Longrightarrow> engine_inv (snd (engine_addMemory now input s))"
  by (auto simp: engine_addMemory_split add_begin_def intro: engine_inv_add_resume split: sum.splits)

lemma engine_inv_delete: "engine_inv s \<Longrightarrow> engine_inv (snd (engine_delete now i s))"
  by (auto simp: engine_delete_def engine_inv_def Let_def maybeFlushWal_wal deleteMemory_def
      entry_ok_def delete_entry_def split: prod.splits)

lemma decay_loop_inv:
  assumes "list_all unit_importance ms" and "list_all unit_importance t" and "0 \<le> rate"
  shows "list_all unit_importance (snd (decay_loop now rate ms u t)) \<and>
         store_ids (snd (decay_loop now rate ms u t)) = store_ids t"
  using assms
proof (induction now rate ms u t rule: decay_loop.induct)
  case (1 now rate updated t)
  then show ?case by simp
next
  case (2 now rate m ms updated t)
  let ?d = "applyDecay m now \<lparr>decayRate = rate, minimumImportance = 0.05\<rparr>"
  have "0 \<le> importance ?d \<and> importance ?d \<le> 1"
    using "2.prems" by (intro applyDecay_unit) (simp_all add: unit_importance_def)
  with "2.prems" show ?case
    by (simp add: "2.IH" Let_def unit_updateImportance)
qed

lemma engine_inv_decay: "engine_inv s \<Longrightarrow> engine_inv (snd (decay now s))"
proof -
  assume inv: "engine_inv s"
  obtain u t where dl: "decay_loop now (e_decayRate s) (e_store s) 0 (e_store s) = (u, t)"
    by (cases "decay_loop now (e_decayRate s) (e_store s) 0 (e_store s)")
  have "list_all unit_importance t \<and> store_ids t = store_ids (e_store s)"
    using decay_loop_inv [of "e_store s" "e_store s" "e_decayRate s" now 0] inv dl
    by (simp add: engine_inv_def)
  with inv have "store_inv t" and "list_all unit_importance t"
    by (simp_all add: engine_inv_def store_inv_def)
  moreover obtain n t' where pr: "pruneBelowImportance 0.1 (now - 1000 * 60 * 60 * 24 * 365) t = (n, t')"
    by (cases "pruneBelowImportance 0.1 (now - 1000 * 60 * 60 * 24 * 365) t")
  ultimately have "store_inv t' \<and> list_all unit_importance t'"
    by (auto simp: pruneBelowImportance_def Let_def)
  with inv dl pr show ?thesis
    by (simp add: decay_def getAllMemories_def engine_inv_def Let_def)
qed

lemma replay_inv:
  "list_all entry_ok es \<Longrightarrow> store_inv t \<Longrightarrow> list_all unit_importance t \<Longrightarrow>
   store_inv (replay es t) \<and> list_all unit_importance (replay es t)"
proof (induction es arbitrary: t)
  case Nil
  then show ?case by simp
next
  case (Cons e es)
  have "store_inv (replay_entry e t) \<and> list_all unit_importance (replay_entry e t)"
    using Cons.prems
    by (auto simp: replay_entry_def entry_ok_def Let_def deleteMemory_def store_inv_upsertMemory
        unit_upsertMemory split: wal_op.splits option.splits)
  with Cons show ?case by simp
qed

lemma engine_inv_recoverWal: "engine_inv s \<Longrightarrow> engine_inv (recoverWal s)"
  using replay_inv [of "e_wal s" "e_store s"]
  by (auto simp: recoverWal_def engine_inv_def flushWal_def Let_def)

lemma engine_inv_restart: "engine_inv s \<Longrightarrow> engine_inv (restart s)"
  unfolding restart_def by (rule engine_inv_recoverWal) (simp add: engine_inv_def)

text \<open>The loops of \<open>summarize\<close> keep every property that \<open>addMemory\<close> and \<open>delete\<close> keep.\<close>

lemma delete_sources_preserves:
  assumes del: "\<And>s i. P s \<Longrightarrow> P (snd (engine_delete now i s))" and "P s"
  shows "P (snd (delete_sources now is d s))"
  using assms(2)
proof (induction "is" arbitrary: d s)
  case (Cons i "is")
  obtain r s' where rs: "engine_delete now i s = (r, s')" by (cases "engine_delete now i s")
  have "P s'" using del [OF Cons.prems, of i] rs by simp
  with Cons.IH rs show ?case by (cases r) auto
qed simp

lemma apply_plans_preserves:
  assumes add: "\<And>s p. P s \<Longrightarrow> p \<in> set ps \<Longrightarrow> P (snd (engine_addMemory now (summary p) s))"
    and del: "\<And>s i. P s \<Longrightarrow> P (snd (engine_delete now i s))" and "P s"
  shows "P (snd (apply_plans now ps acc s))"
  using add assms(3)
proof (induction ps arbitrary: acc s)
  case (Cons p ps)
  obtain n d where acc: "acc = (n, d)" by (cases acc)
  obtain r s' where rs: "engine_addMemory now (summary p) s = (r, s')"
    by (cases "engine_addMemory now (summary p) s")
  have P1: "P s'" using Cons.prems(1) [OF Cons.prems(2), of p] rs by simp
  show ?case
  proof (cases r)
    case (Inr m)
    obtain r' s'' where rs': "delete_sources now (sourceIds p) d s' = (r', s'')"
      by (cases "delete_sources now (sourceIds p) d s'")
    have "P s''" using delete_sources_preserves [of P now, OF del P1, of "sourceIds p" d] rs' by simp
    moreover have "\<And>s q. P s \<Longrightarrow> q \<in> set ps \<Longrightarrow> P (snd (engine_addMemory now (summary q) s))"
      using Cons.prems(1) by simp
    ultimately show ?thesis using Cons.IH acc rs rs' Inr by (cases r') auto
  qed (use acc rs P1 in simp)
qed simp

lemma engine_inv_apply_plans:
  "list_all (\<lambda>p. input_ok (summary p)) ps \<Longrightarrow> engine_inv s \<Longrightarrow> engine_inv (snd (apply_plans now ps acc s))"
  by (rule apply_plans_preserves) (auto simp: list_all_iff intro: engine_inv_add engine_inv_delete)

lemma maybeFlushWal_pending:
  "e_walPending (maybeFlushWal s) =
     (if e_walFlushThreshold s \<le> Suc (e_walPending s) then 0 else Suc (e_walPending s))"
  by (simp add: maybeFlushWal_def flushWal_def Let_def)

lemma pending_ok_maybeFlushWal: "0 < thr \<Longrightarrow> pending_ok thr s \<Longrightarrow> pending_ok thr (maybeFlushWal s)"
  by (simp add: pending_ok_def maybeFlushWal_pending)

lemma pending_ok_add: "0 < thr \<Longrightarrow> pending_ok thr s \<Longrightarrow> pending_ok thr (snd (engine_addMemory now input s))"
  by (auto simp: engine_addMemory_def Let_def pending_ok_def maybeFlushWal_pending split: sum.splits)

lemma pending_ok_delete: "0 < thr \<Longrightarrow> pending_ok thr s \<Longrightarrow> pending_ok thr (snd (engine_delete now i s))"
  by (auto simp: engine_delete_def Let_def pending_ok_def maybeFlushWal_pending split: prod.splits)

lemma pending_ok_summarize: "0 < thr \<Longrightarrow> pending_ok thr s \<Longrightarrow> pending_ok thr (snd (summarize now s))"
  by (auto simp: summarize_def split: sum.splits
      intro!: apply_plans_preserves pending_ok_add pending_ok_delete)

lemma pending_ok_step: "0 < thr \<Longrightarrow> pending_ok thr s \<Longrightarrow> pending_ok thr (engine_step op s)"
  by (cases op)
     (auto simp: pending_ok_add pending_ok_delete pending_ok_summarize search_def engine_get_def decay_def
       flushWal_def restart_def recoverWal_def Let_def split: sum.splits option.splits prod.splits,
      auto simp: pending_ok_def)

lemma pending_ok_run: "0 < thr \<Longrightarrow> pending_ok thr s \<Longrightarrow> pending_ok thr (engine_run ops s)"
  by (induction ops arbitrary: s) (simp_all add: pending_ok_step)

lemma engine_paths_step:
  "e_dbPath (engine_step op s) = e_dbPath s \<and> e_walPath (engine_step op s) = e_walPath s"
proof -
  let ?P = "\<lambda>s'. e_dbPath s' = e_dbPath s \<and> e_walPath s' = e_walPath s"
  have add: "\<And>s' now input. ?P s' \<Longrightarrow> ?P (snd (engine_addMemory now input s'))"
    by (auto simp: engine_addMemory_def Let_def maybeFlushWal_def flushWal_def split: sum.splits)
  have del: "\<And>s' now i. ?P s' \<Longrightarrow> ?P (snd (engine_delete now i s'))"
    by (auto simp: engine_delete_def Let_def maybeFlushWal_def flushWal_def split: prod.splits)
  have plans: "\<And>now ps acc. ?P (snd (apply_plans now ps acc s))"
    by (rule apply_plans_preserves) (simp_all add: add del)
  show ?thesis
    using add [of s] del [of s] plans
    by (cases op) (auto simp: search_def engine_get_def decay_def summarize_def flushWal_def restart_def
        recoverWal_def Let_def split: sum.splits option.splits prod.splits)
qed

lemma engine_paths_run:
  "e_dbPath (engine_run ops s) = e_dbPath s \<and> e_walPath (engine_run ops s) = e_walPath s"
  by (induction ops arbitrary: s) (simp_all add: engine_paths_step)
text \<open>\<open>health()\<close> reports the paths the constructor resolved, after any run of operations.\<close>

lemma health_paths_run:
  assumes "new_MemoryEngine opts envDb envKey cwd api uuids toISO parse dbFiles walFiles = Inr s"
  shows "(dbPath (health (engine_run ops s)), walPath (health (engine_run ops s))) =
         engine_paths (opt_dbPath opts) (opt_walPath opts) envDb cwd"
  using assms engine_paths_run [of ops s]
  by (auto simp: new_MemoryEngine_def health_def recoverWal_def flushWal_def Let_def split: prod.splits sum.splits)

lemma summary_plans_ok:
  assumes inv: "engine_inv s"
    and Inr: "buildSummaries (e_toISO s) now (getAllMemories (e_store s))
                \<lparr>maxGroupSize = 12, preserveImportanceThreshold = e_preserveImportanceThreshold s\<rparr> = Inr plans"
  shows "list_all (\<lambda>p. input_ok (summary p)) plans"
proof (unfold list_all_iff, rule ballI)
  let ?opts = "\<lparr>maxGroupSize = 12, preserveImportanceThreshold = e_preserveImportanceThreshold s\<rparr>"
  fix p assume "p \<in> set plans"
  with Inr obtain c where "p = plan_of (e_toISO s) now ?opts (c, eligible (e_preserveImportanceThreshold s) c (getAllMemories (e_store s)))"
    by (rule buildSummaries_plan) simp
  with inv show "input_ok (summary p)"
    by (simp add: input_ok_def summary_input_fields engine_inv_def)
qed

lemma engine_inv_summarize: "engine_inv s \<Longrightarrow> engine_inv (snd (summarize now s))"
  by (auto simp: summarize_def split: sum.splits intro!: engine_inv_apply_plans intro: summary_plans_ok)

lemma engine_inv_step: "engine_inv s \<Longrightarrow> op_ok op \<Longrightarrow> engine_inv (engine_step op s)"
  by (cases op) (simp_all add: engine_inv_add engine_inv_search engine_inv_get engine_inv_delete
      engine_inv_summarize engine_inv_decay engine_inv_flushWal engine_inv_restart)

lemma assertValidInput_Inl: "assertValidInput input = Inl e \<Longrightarrow> e \<in> {EmptyContent, MissingCategory} \<union> range InvalidCategory"
  by (auto simp: assertValidInput_def split: if_splits option.splits)

lemma embedText_Inl: "embedText c t = Inl e \<Longrightarrow> e \<in> {EmbeddingUnavailable, EmbeddingFailed, EmbeddingApiError}"
  by (auto simp: embedText_def split: if_splits api_response.splits option.splits)

text \<open>
  A restart is the constructor run on what persists: the table and the log file that holds
  the engine's log, read back with a codec whose lines parse back.
\<close>

lemma new_MemoryEngine_restart:
  assumes "list_all (line_codec stringify parse) (e_wal s)"
    and "engine_paths (opt_dbPath opts) (opt_walPath opts) envDb cwd = (dbp, walp)"
    and "dbFiles dbp = Some (e_store s)" and "walFiles walp = Some (wal_encode stringify (e_wal s))"
  shows "\<exists>s'. new_MemoryEngine opts envDb envKey cwd api uuids toISO parse dbFiles walFiles = Inr s' \<and>
              e_store s' = e_store (restart s) \<and> e_wal s' = e_wal (restart s) \<and> e_walPending s' = 0 \<and>
              health s' = (health (restart s))\<lparr>dbPath := dbp, walPath := walp\<rparr>"
  using readAll_wal_encode [OF assms(1)] assms(2-4)
  by (simp add: new_MemoryEngine_def ensureDir_def restart_def recoverWal_def flushWal_def Let_def
      new_SQLiteStore_def health_def)

section \<open>Properties\<close>

text \<open>
  C1: Crash recovery: whatever prefix of the logged writes had reached the table when the process stopped (all of them, or all but the last when the crash fell between logging and applying), a restart leaves unique identifiers and sets every identifier to what the last log entry touching it says (the logged record for an add, absent for a delete), and leaves every other identifier as the table before the log had it.
\<close>

theorem restart_recovers_log:
  assumes "e_store s = replay (take n (e_wal s)) t0" and "store_inv t0"
  shows "store_inv (e_store (restart s)) \<and>
         store_lookup (e_store (restart s)) k =
           (case log_effect (e_wal s) k of None \<Rightarrow> store_lookup t0 k | Some v \<Rightarrow> v)"
proof (cases "e_wal s = []")
  case True
  with assms show ?thesis by (simp add: restart_def recoverWal_def)
next
  case False
  then have r: "e_store (restart s) = replay (e_wal s) (replay (take n (e_wal s)) t0)"
    using assms by (simp add: restart_def recoverWal_def flushWal_def Let_def)
  have "store_inv (e_store (restart s))"
    unfolding r using assms(2) by (intro replay_store_inv)
  moreover have "store_lookup (e_store (restart s)) k =
           (case log_effect (e_wal s) k of None \<Rightarrow> store_lookup t0 k | Some v \<Rightarrow> v)"
    unfolding r replay_lookup
    by (auto simp: replay_lookup log_effect_take_None split: option.split)
  ultimately show ?thesis ..
qed

text \<open>
  C2: Log-then-apply for \<open>addMemory\<close>: if the table is the replay of the log over some base table, it still is after a successful add (the base is the new table when the add triggered a flush).
\<close>

theorem addMemory_log_then_apply:
  assumes "e_store s = replay (e_wal s) t0" and "engine_addMemory now input s = (Inr m, s')"
  shows "e_store s' = replay (e_wal s') (if e_wal s' = [] then e_store s' else t0)"
  using engine_addMemory_Inr [OF assms(2)] assms(1) by (auto simp: replay_append)

text \<open>
  C3: Log-then-apply for \<open>delete\<close>: the same preservation for a successful delete.
\<close>

theorem delete_log_then_apply:
  assumes "e_store s = replay (e_wal s) t0" and "engine_delete now i s = (Inr b, s')"
  shows "e_store s' = replay (e_wal s') (if e_wal s' = [] then e_store s' else t0)"
  using engine_delete_Inr [OF assms(2)] assms(1) by (auto simp: replay_append)

text \<open>
  C4: Any sequence of public operations, with input importances in [0, 1], keeps identifiers unique and every stored importance in [0, 1].
\<close>

theorem engine_run_inv:
  "engine_inv s \<Longrightarrow> list_all op_ok ops \<Longrightarrow>
   store_inv (e_store (engine_run ops s)) \<and> list_all unit_importance (e_store (engine_run ops s))"
proof (induction ops arbitrary: s)
  case Nil
  then show ?case by (simp add: engine_inv_def)
next
  case (Cons op ops)
  then show ?case by (simp add: engine_inv_step)
qed

text \<open>
  C6: A failed add (validation or embedding error) changes nothing: no log entry, no row, no identifier consumed.
\<close>

theorem addMemory_error_unchanged:
  "engine_addMemory now input s = (Inl e, s') \<Longrightarrow> e \<noteq> StoreConstraint \<Longrightarrow> s' = s"
  using assertValidInput_Inl embedText_Inl
  by (fastforce simp: engine_addMemory_def Let_def store_addMemory_def split: sum.splits if_splits)

text \<open>
  C7: An add that the table rejects for a duplicate identifier has already logged its record: the error leaves an add entry in the log for an identifier the table holds.
\<close>

theorem addMemory_constraint_logged:
  assumes "engine_addMemory now input s = (Inl StoreConstraint, s')"
  shows "\<exists>m. getMemory (mem_id m) (e_store s) \<noteq> None \<and> e_store s' = e_store s \<and>
             e_wal s' = e_wal s @ [add_entry now m]"
proof -
  obtain c where v: "assertValidInput input = Inr c"
    using assms assertValidInput_Inl by (cases "assertValidInput input") (auto simp: engine_addMemory_def)
  obtain emb where e: "embedText (e_embeddings s) (input_content input) = Inr emb"
    using assms v embedText_Inl by (cases "embedText (e_embeddings s) (input_content input)")
      (auto simp: engine_addMemory_def)
  define m where "m = \<lparr>mem_id = e_uuids s (e_uuidNext s), content = js_trim (input_content input),
        category = c, tags = (case input_tags input of None \<Rightarrow> [] | Some xs \<Rightarrow> xs),
        timestamp = (case input_timestamp input of None \<Rightarrow> now | Some t \<Rightarrow> t),
        importance = (case input_importance input of None \<Rightarrow> 0.5 | Some x \<Rightarrow> x),
        embedding = emb, lastAccessed = (case input_timestamp input of None \<Rightarrow> now | Some t \<Rightarrow> t)\<rparr>"
  have eq: "engine_addMemory now input s =
     (case store_addMemory m (e_store s) of
        Inl e \<Rightarrow> (Inl e, s\<lparr>e_uuidNext := Suc (e_uuidNext s), e_wal := e_wal s @ [add_entry now m]\<rparr>)
      | Inr t \<Rightarrow> (Inr m, maybeFlushWal (s\<lparr>e_uuidNext := Suc (e_uuidNext s),
                                             e_wal := e_wal s @ [add_entry now m], e_store := t\<rparr>)))"
    using v e unfolding engine_addMemory_def Let_def m_def by simp
  with assms have dup: "mem_id m \<in> set (store_ids (e_store s))"
    and s': "s' = s\<lparr>e_uuidNext := Suc (e_uuidNext s), e_wal := e_wal s @ [add_entry now m]\<rparr>"
    by (auto simp: store_addMemory_def split: if_splits)
  from dup have "mem_id m \<in> dom (store_lookup (e_store s))" by simp
  then have "getMemory (mem_id m) (e_store s) \<noteq> None"
    by (metis domIff getMemory_refines)
  with s' show ?thesis by auto
qed

text \<open>
  C8: \<open>get\<close> of a stored record returns it with the access time set to now and the importance raised by 0.02 (capped at 1), writes exactly that view to the table under the identifier, leaves every other identifier as it was, and logs nothing.
\<close>

theorem engine_get_persisted:
  assumes "getMemory i (e_store s) = Some m"
  shows "fst (engine_get now i s) = Some (m\<lparr>lastAccessed := now, importance := min 1 (importance m + 0.02)\<rparr>) \<and>
         store_lookup (e_store (snd (engine_get now i s))) =
           (store_lookup (e_store s))(i \<mapsto> m\<lparr>lastAccessed := now, importance := min 1 (importance m + 0.02)\<rparr>) \<and>
         e_wal (snd (engine_get now i s)) = e_wal s"
proof -
  from assms have i: "mem_id m = i" by (auto simp: getMemory_def dest: find_Some_iff [THEN iffD1])
  have "store_lookup (e_store s) i = Some m" using assms by (simp add: getMemory_refines)
  then show ?thesis
    using assms i by (simp add: engine_get_def Let_def updateImportance_refines updateAccess_refines)
qed

text \<open>
  C9: Input validation accepts exactly the inputs whose content has a non-white-space character and whose category string is one of the seven literals, and then yields that category.
\<close>

theorem assertValidInput_iff:
  "assertValidInput input = Inr c \<longleftrightarrow>
     \<not> list_all is_js_space (input_content input) \<and> category_name c = input_category input"
proof
  assume "assertValidInput input = Inr c"
  then show "\<not> list_all is_js_space (input_content input) \<and> category_name c = input_category input"
    by (auto simp: assertValidInput_def js_trim_empty_iff category_of_string_Some split: if_splits option.splits)
next
  assume h: "\<not> list_all is_js_space (input_content input) \<and> category_name c = input_category input"
  then have "category_of_string (input_category input) = Some c"
    using category_of_string_name [of c] by simp
  with h show "assertValidInput input = Inr c"
    by (auto simp: assertValidInput_def js_trim_empty_iff)
qed


text \<open>
  C35: With a positive flush threshold, every sequence of operations keeps the threshold and keeps the pending-write counter below it: the log is cleared at the latest by the threshold-th counted write.
\<close>

theorem walPending_bound:
  assumes "0 < e_walFlushThreshold s" and "e_walPending s < e_walFlushThreshold s"
  shows "e_walFlushThreshold (engine_run ops s) = e_walFlushThreshold s \<and>
         e_walPending (engine_run ops s) < e_walFlushThreshold s"
proof -
  have "pending_ok (e_walFlushThreshold s) (engine_run ops s)"
    using assms by (intro pending_ok_run) (simp_all add: pending_ok_def)
  then show ?thesis by (simp add: pending_ok_def)
qed

text \<open>
  C5: Only writes are logged: \<open>get\<close>, \<open>search\<close> and \<open>decay\<close> change the table (boosts,
  access times, decayed importances, pruned rows) without a log entry, and a restart sets
  every record the log touches to its last logged version, whatever the table held: it
  undoes those changes, and brings a pruned record back while its add entry is still in
  the log.
\<close>

theorem restart_undoes_unlogged_writes:
  "e_wal (snd (engine_get now i s)) = e_wal s \<and>
   e_wal (snd (search now query opts s)) = e_wal s \<and>
   e_wal (snd (decay now s)) = e_wal s \<and>
   store_lookup (e_store (restart s)) k =
     (case log_effect (e_wal s) k of None \<Rightarrow> store_lookup (e_store s) k | Some v \<Rightarrow> v)"
proof (intro conjI)
  show "e_wal (snd (engine_get now i s)) = e_wal s"
    by (simp add: engine_get_def Let_def split: option.splits)
  show "e_wal (snd (search now query opts s)) = e_wal s"
    by (simp add: search_def split: sum.splits)
  show "e_wal (snd (decay now s)) = e_wal s"
    by (simp add: decay_def Let_def split: prod.splits)
  show "store_lookup (e_store (restart s)) k =
     (case log_effect (e_wal s) k of None \<Rightarrow> store_lookup (e_store s) k | Some v \<Rightarrow> v)"
    by (simp add: restart_def recoverWal_def flushWal_def Let_def replay_lookup)
qed

text \<open>
  C31: The scenario of the specification for any successful add: the new record is
  retrievable by its identifier, listed under its category, and counted once more;
  deleting it then reports a removal, makes it absent and restores the count.
\<close>

theorem add_get_list_delete:
  assumes add: "engine_addMemory now input s = (Inr m, s1)" and i: "mem_id m \<noteq> []"
  shows "getMemory (mem_id m) (e_store s1) = Some m \<and>
         (\<exists>ms. listMemories \<lparr>lo_category = Some (category m), lo_tags = None, lo_since = None, lo_until = None,
                              lo_limit = None, lo_offset = None\<rparr> (e_store s1) = Inr ms \<and> m \<in> set ms) \<and>
         store_count (e_store s1) = Suc (store_count (e_store s)) \<and>
         fst (engine_delete now' (mem_id m) s1) = Inr True \<and>
         getMemory (mem_id m) (e_store (snd (engine_delete now' (mem_id m) s1))) = None \<and>
         store_count (e_store (snd (engine_delete now' (mem_id m) s1))) = store_count (e_store s)"
proof -
  let ?t = "e_store s"
  have fresh: "mem_id m \<notin> set (store_ids ?t)" and t1: "e_store s1 = upsertMemory m ?t"
    using engine_addMemory_Inr [OF add] by auto
  then have t1': "e_store s1 = ?t @ [m]" by (simp add: upsertMemory_def)
  have none: "\<forall>r \<in> set ?t. mem_id r \<noteq> mem_id m" using fresh by (auto simp: store_ids_def image_iff)
  have filt: "filter (\<lambda>r. mem_id r \<noteq> mem_id m) ?t = ?t"
    using none by (simp add: filter_id_conv)
  have del: "engine_delete now' (mem_id m) s1 = (Inr True, maybeFlushWal (s1\<lparr>e_wal := e_wal s1 @ [delete_entry now' (mem_id m)], e_store := ?t\<rparr>))"
    using i by (simp add: engine_delete_def deleteMemory_def t1' filt Let_def)
  show ?thesis
  proof (intro conjI)
    show "getMemory (mem_id m) (e_store s1) = Some m"
      using none by (simp add: getMemory_def t1' find_append_None find_None_iff)
    show "\<exists>ms. listMemories \<lparr>lo_category = Some (category m), lo_tags = None, lo_since = None, lo_until = None,
                              lo_limit = None, lo_offset = None\<rparr> (e_store s1) = Inr ms \<and> m \<in> set ms"
      by (simp add: listMemories_unlimited list_where_def has_tags_def t1')
    show "store_count (e_store s1) = Suc (store_count ?t)" by (simp add: store_count_def t1')
    show "fst (engine_delete now' (mem_id m) s1) = Inr True" by (simp add: del)
    show "getMemory (mem_id m) (e_store (snd (engine_delete now' (mem_id m) s1))) = None"
      using none by (simp add: del getMemory_def find_None_iff)
    show "store_count (e_store (snd (engine_delete now' (mem_id m) s1))) = store_count ?t"
      by (simp add: del)
  qed
qed

text \<open>
  C28: \<open>health()\<close> reports the store's location, the log's location and the record count:
  for an engine built by the constructor, after any run of operations, it is ok, counts the
  rows of the table, and gives the database path \<open>options.dbPath\<close>, else \<open>MEMORY_DB_PATH\<close>,
  else \<open>memory.db\<close> in the working directory, and the log path \<open>options.walPath\<close>, else
  \<open>memory.wal\<close> in the working directory.
\<close>

theorem health_reports_paths:
  assumes "new_MemoryEngine opts envDb envKey cwd api uuids toISO parse dbFiles walFiles = Inr s"
  shows "health (engine_run ops s) =
           \<lparr>ok = True, memoryCount = length (e_store (engine_run ops s)),
            dbPath = (case opt_dbPath opts of Some p \<Rightarrow> p
                      | None \<Rightarrow> (case envDb of Some p \<Rightarrow> p | None \<Rightarrow> cwd @ ''/memory.db'')),
            walPath = (case opt_walPath opts of Some p \<Rightarrow> p | None \<Rightarrow> cwd @ ''/memory.wal'')\<rparr>"
  using health_paths_run [OF assms, of ops]
  by (simp add: health_def store_count_def engine_paths_def DEFAULT_DB_PATH_def DEFAULT_WAL_PATH_def
      split: option.splits)

end
