(* ===== verification/Server.thy ===== *)
theory Server
  imports Engine
begin

text \<open>
  The HTTP front end of \<open>src/server.ts\<close>. Its query parsers are pure functions of the
  query strings; \<open>Number\<close> and \<open>Date.parse\<close> come from the \<open>js_host\<close>. A request is
  the route it matched with the parameters the route reads (a query parameter that is
  absent is \<open>None\<close>; repeated parameters, which Express delivers as arrays, are not
  modelled), and \<open>server_handle\<close> is the route handler: it calls the engine operation and
  turns its result or its error into a status and a JSON body. The body of an error
  response is \<open>{error: message}\<close> of the thrown error, represented by the error itself.
\<close>

section \<open>Query parsers\<close>

definition SERVER_CATEGORIES :: "string list" where
  "SERVER_CATEGORIES = [''decision'', ''lesson'', ''preference'', ''episode'', ''fact'', ''person'', ''project'']"

text \<open>
  \<open>parseCategory\<close> drops a value it does not know instead of rejecting it. The cast
  \<open>value as MemoryCategory\<close> keeps the string; the model reads it as the category whose
  literal it is.
\<close>

definition server_parseCategory :: "string option \<Rightarrow> category option" where
  "server_parseCategory v =
     (case v of
        None \<Rightarrow> None
      | Some s \<Rightarrow> if s = [] then None else if s \<in> set SERVER_CATEGORIES then category_of_string s else None)"

definition server_parseTags :: "string option \<Rightarrow> string list option" where
  "server_parseTags v =
     (case v of
        None \<Rightarrow> None
      | Some s \<Rightarrow>
          if s = [] then None
          else Some (filter (\<lambda>tag. tag \<noteq> []) (map js_trim (js_split_sep (\<lambda>c. c = CHR '','') s))))"

text \<open>\<open>parseDate\<close>: a date string first, then a plain number, else nothing.\<close>

definition parseDate :: "js_host \<Rightarrow> string option \<Rightarrow> js_number option" where
  "parseDate host v =
     (case v of
        None \<Rightarrow> None
      | Some s \<Rightarrow>
          if s = [] then None
          else case js_Date_parse host s of
                 Num t \<Rightarrow> Some (Num t)
               | NaN \<Rightarrow> (case js_Number host s of Num x \<Rightarrow> Some (Num x) | NaN \<Rightarrow> None))"

text \<open>\<open>req.query.limit ? Number(req.query.limit) : undefined\<close>.\<close>

definition query_number :: "js_host \<Rightarrow> string option \<Rightarrow> js_number option" where
  "query_number host v = (if js_truthy_str v then map_option (js_Number host) v else None)"

section \<open>Requests and responses\<close>

datatype http_request =
    GetHealth
  | PostMemories memory_input
  | GetSearch "string option" "string option" "string option" "string option"
  | GetMemories "string option" "string option" "string option" "string option" "string option"
      "string option"
  | GetMemory memory_id
  | DeleteMemory memory_id
  | PostSummarize

datatype http_body =
    JMemory memory_record
  | JMemories "memory_record list"
  | JResults "search_result list"
  | JHealth health_status
  | JSummary nat nat
  | JError engine_error
  | JNotFound
  | JEmpty

record http_response =
  status :: nat
  resp_body :: http_body

text \<open>The bodies that report a failure: an error message or \<open>Memory not found.\<close>\<close>

fun error_body :: "http_body \<Rightarrow> bool" where
  "error_body (JError _) \<longleftrightarrow> True"
| "error_body JNotFound \<longleftrightarrow> True"
| "error_body _ \<longleftrightarrow> False"

text \<open>The \<open>catch\<close> of a handler: an error becomes 400 with its message.\<close>

definition respond :: "nat \<Rightarrow> ('a \<Rightarrow> http_body) \<Rightarrow> (engine_error + 'a) \<times> engine \<Rightarrow> http_response \<times> engine" where
  "respond code f r =
     (case r of
        (Inl e, s') \<Rightarrow> (\<lparr>status = 400, resp_body = JError e\<rparr>, s')
      | (Inr x, s') \<Rightarrow> (\<lparr>status = code, resp_body = f x\<rparr>, s'))"

section \<open>Route handlers\<close>

definition handle_search ::
  "js_host \<Rightarrow> time \<Rightarrow> string option \<Rightarrow> string option \<Rightarrow> string option \<Rightarrow> string option \<Rightarrow> engine \<Rightarrow>
   http_response \<times> engine" where
  "handle_search host now q lmt cat tgs s =
     (let query = (case q of None \<Rightarrow> [] | Some x \<Rightarrow> x);
          opts = \<lparr>so_limit = query_number host lmt, so_category = server_parseCategory cat,
                  so_tags = server_parseTags tgs, so_keyword = None\<rparr>
      in respond 200 JResults (search now query opts s))"

definition handle_list ::
  "js_host \<Rightarrow> string option \<Rightarrow> string option \<Rightarrow> string option \<Rightarrow> string option \<Rightarrow> string option \<Rightarrow>
   string option \<Rightarrow> engine \<Rightarrow> http_response \<times> engine" where
  "handle_list host lmt ofs cat tgs since until s =
     (let opts = \<lparr>lo_category = server_parseCategory cat, lo_tags = server_parseTags tgs,
                  lo_since = parseDate host since, lo_until = parseDate host until,
                  lo_limit = query_number host lmt, lo_offset = query_number host ofs\<rparr>
      in respond 200 JMemories (engine_list opts s, s))"

definition handle_get :: "time \<Rightarrow> memory_id \<Rightarrow> engine \<Rightarrow> http_response \<times> engine" where
  "handle_get now i s =
     (case engine_get now i s of
        (None, s') \<Rightarrow> (\<lparr>status = 404, resp_body = JNotFound\<rparr>, s')
      | (Some m, s') \<Rightarrow> (\<lparr>status = 200, resp_body = JMemory m\<rparr>, s'))"

definition handle_delete :: "time \<Rightarrow> memory_id \<Rightarrow> engine \<Rightarrow> http_response \<times> engine" where
  "handle_delete now i s =
     (case engine_delete now i s of
        (Inl e, s') \<Rightarrow> (\<lparr>status = 400, resp_body = JError e\<rparr>, s')
      | (Inr False, s') \<Rightarrow> (\<lparr>status = 404, resp_body = JNotFound\<rparr>, s')
      | (Inr True, s') \<Rightarrow> (\<lparr>status = 204, resp_body = JEmpty\<rparr>, s'))"

fun server_handle :: "js_host \<Rightarrow> time \<Rightarrow> http_request \<Rightarrow> engine \<Rightarrow> http_response \<times> engine" where
  "server_handle host now GetHealth s = (\<lparr>status = 200, resp_body = JHealth (health s)\<rparr>, s)"
| "server_handle host now (PostMemories body) s = respond 201 JMemory (engine_addMemory now body s)"
| "server_handle host now (GetSearch q lmt cat tgs) s = handle_search host now q lmt cat tgs s"
| "server_handle host now (GetMemories lmt ofs cat tgs since until) s =
     handle_list host lmt ofs cat tgs since until s"
| "server_handle host now (GetMemory i) s = handle_get now i s"
| "server_handle host now (DeleteMemory i) s = handle_delete now i s"
| "server_handle host now PostSummarize s = respond 200 (\<lambda>(n, d). JSummary n d) (summarize now s)"

text \<open>\<open>startServer\<close>: the port it listens on, from \<open>MEMORY_PORT\<close> or 3200.\<close>

definition server_port :: "js_host \<Rightarrow> string option \<Rightarrow> js_number" where
  "server_port host env = (case env of None \<Rightarrow> Num 3200 | Some p \<Rightarrow> js_Number host p)"

section \<open>Lemmas\<close>

text \<open>A response is well formed when its status is one the server sends and it is an error status exactly when its body reports a failure.\<close>

definition response_wf :: "http_response \<Rightarrow> bool" where
  "response_wf resp \<longleftrightarrow>
     status resp \<in> {200, 201, 204, 400, 404} \<and> (400 \<le> status resp \<longleftrightarrow> error_body (resp_body resp))"

lemma respond_wf:
  assumes "code \<in> {200, 201}" and "\<And>x. \<not> error_body (f x)"
  shows "response_wf (fst (respond code f r))"
  using assms by (auto simp: respond_def response_wf_def split: prod.splits sum.splits)

lemma handle_get_wf: "response_wf (fst (handle_get now i s))"
  by (auto simp: handle_get_def response_wf_def split: prod.splits option.splits)

lemma handle_delete_wf: "response_wf (fst (handle_delete now i s))"
  by (auto simp: handle_delete_def response_wf_def split: prod.splits sum.splits bool.splits)

lemma handle_search_wf: "response_wf (fst (handle_search host now q lmt cat tgs s))"
  unfolding handle_search_def Let_def by (rule respond_wf) simp_all

lemma handle_list_wf: "response_wf (fst (handle_list host lmt ofs cat tgs since until s))"
  unfolding handle_list_def Let_def by (rule respond_wf) simp_all

lemma server_handle_wf: "response_wf (fst (server_handle host now req s))"
proof (cases req)
  case GetHealth
  then show ?thesis by (simp add: response_wf_def)
next
  case PostSummarize
  have "\<not> error_body ((\<lambda>(n, d). JSummary n d) x)" for x :: "nat \<times> nat" by (cases x) simp
  with PostSummarize show ?thesis by (simp add: respond_wf)
qed (simp_all add: respond_wf handle_get_wf handle_delete_wf handle_search_wf handle_list_wf)

lemma deleteMemory_absent: "getMemory i t = None \<Longrightarrow> deleteMemory i t = (False, t)"
  by (simp add: getMemory_def deleteMemory_def find_None_iff filter_id_conv)

section \<open>Properties\<close>

text \<open>
  C33: Every response of the server has status 200, 201, 204, 400 or 404, and its status is 400 or 404 exactly when its body reports an error or a missing record.
\<close>

theorem server_response_wf:
  "status (fst (server_handle host now req s)) \<in> {200, 201, 204, 400, 404} \<and>
   (400 \<le> status (fst (server_handle host now req s)) \<longleftrightarrow>
    error_body (resp_body (fst (server_handle host now req s))))"
  using server_handle_wf [of host now req s] by (simp only: response_wf_def)

text \<open>
  C34: A \<open>DELETE\<close> of an identifier the table does not hold answers 404, yet it has logged a delete entry: the log grows and the table is unchanged (when the write does not reach the flush threshold).
\<close>

theorem delete_absent_logged:
  assumes "i \<noteq> []" and "getMemory i (e_store s) = None" and "Suc (e_walPending s) < e_walFlushThreshold s"
  shows "fst (server_handle host now (DeleteMemory i) s) = \<lparr>status = 404, resp_body = JNotFound\<rparr> \<and>
         e_store (snd (server_handle host now (DeleteMemory i) s)) = e_store s \<and>
         e_wal (snd (server_handle host now (DeleteMemory i) s)) = e_wal s @ [delete_entry now i]"
  using assms
  by (simp add: handle_delete_def engine_delete_def deleteMemory_absent maybeFlushWal_def Let_def)

end
