(* ===== verification/Cli.thy ===== *)
theory Cli
  imports Server
begin

text \<open>
  The command line front end of \<open>src/cli.ts\<close>. Every command runs in a fresh process:
  \<open>new MemoryEngine()\<close> with the default options recovers from the persisted table and
  log (\<open>cli_engine\<close>), then the command's action parses its arguments and calls the
  engine. Options are the strings \<open>commander\<close> hands to the action, its defaults already
  applied; \<open>Number\<close> comes from the \<open>js_host\<close>. Printing the result and
  \<open>engine.close()\<close> are not modelled: the command's value is what it prints.
\<close>

section \<open>Argument parsers\<close>

definition CLI_CATEGORIES :: "string list" where
  "CLI_CATEGORIES = [''decision'', ''lesson'', ''preference'', ''episode'', ''fact'', ''person'', ''project'']"

text \<open>
  The errors of a command: the two the CLI throws itself, the engine's, and
  \<open>CliNaNImportance\<close>, where an \<open>--importance\<close> that is not a number would reach
  \<open>addMemory\<close> as \<open>NaN\<close>; the model does not follow that run (importance is a real).
\<close>

datatype cli_error =
    CliInvalidCategory string
  | CliUnsupportedFormat
  | CliNaNImportance
  | CliEngine engine_error

definition cli_parseCategory :: "string \<Rightarrow> cli_error + category" where
  "cli_parseCategory value =
     (if value \<notin> set CLI_CATEGORIES then Inl (CliInvalidCategory value)
      else case category_of_string value of
             None \<Rightarrow> Inl (CliInvalidCategory value)
           | Some c \<Rightarrow> Inr c)"

definition cli_parseTags :: "string option \<Rightarrow> string list" where
  "cli_parseTags v =
     (if \<not> js_truthy_str v then []
      else case v of
             None \<Rightarrow> []
           | Some s \<Rightarrow> filter (\<lambda>tag. tag \<noteq> []) (map js_trim (js_split_sep (\<lambda>c. c = CHR '','') s)))"

text \<open>
  \<open>parseDurationMs\<close>: the pattern \<open>/^(\d+)([smhd])$/\<close> is a non-empty run of ASCII
  digits followed by one unit letter; \<open>Number\<close> of a digit string is its decimal value.
\<close>

definition is_ascii_digit :: "char \<Rightarrow> bool" where
  "is_ascii_digit c \<longleftrightarrow> of_char c \<in> {48..57 :: nat}"

definition digits_value :: "string \<Rightarrow> nat" where
  "digits_value ds = foldl (\<lambda>n c. 10 * n + (of_char c - 48)) 0 ds"

definition duration_match :: "string \<Rightarrow> (string \<times> char) option" where
  "duration_match s =
     (if 2 \<le> length s \<and> list_all is_ascii_digit (butlast s) \<and> last s \<in> set ''smhd''
      then Some (butlast s, last s) else None)"

definition unit_ms :: "char \<Rightarrow> int option" where
  "unit_ms u =
     (if u = CHR ''s'' then Some 1000
      else if u = CHR ''m'' then Some (1000 * 60)
      else if u = CHR ''h'' then Some (1000 * 60 * 60)
      else if u = CHR ''d'' then Some (1000 * 60 * 60 * 24)
      else None)"

definition parseDurationMs :: "string option \<Rightarrow> int option" where
  "parseDurationMs v =
     (if \<not> js_truthy_str v then None
      else case v of
             None \<Rightarrow> None
           | Some s \<Rightarrow>
               (case duration_match s of
                  None \<Rightarrow> None
                | Some (ds, u) \<Rightarrow> map_option (\<lambda>k. int (digits_value ds) * k) (unit_ms u)))"

text \<open>\<open>options.category ? parseCategory(options.category) : undefined\<close>.\<close>

definition cli_optCategory :: "string option \<Rightarrow> cli_error + category option" where
  "cli_optCategory v =
     (if \<not> js_truthy_str v then Inr None
      else case v of None \<Rightarrow> Inr None | Some s \<Rightarrow> map_sum id Some (cli_parseCategory s))"

section \<open>Commands\<close>

text \<open>The commands with the options the action reads, defaults applied by \<open>commander\<close>.\<close>

datatype cli_command =
    CmdAdd string string "string option" string
  | CmdSearch string string "string option" "string option"
  | CmdList "string option" "string option" "string option" "string option"
  | CmdExport string
  | CmdServe "string option"

datatype cli_output =
    OutMemory memory_record
  | OutResults "search_result list"
  | OutMemories "memory_record list"
  | OutListen js_number

type_synonym cli_result = "(cli_error + cli_output) \<times> engine"

text \<open>\<open>new MemoryEngine()\<close> in a new process: default options, recovery from the log.\<close>

definition cli_engine :: "engine \<Rightarrow> engine" where
  "cli_engine s =
     restart (s\<lparr>e_decayRate := 0.05, e_summaryThreshold := 200, e_preserveImportanceThreshold := 0.7,
                e_walFlushThreshold := 20\<rparr>)"

definition engine_outcome :: "('a \<Rightarrow> cli_output) \<Rightarrow> (engine_error + 'a) \<times> engine \<Rightarrow> cli_result" where
  "engine_outcome f r = (case r of (Inl e, s') \<Rightarrow> (Inl (CliEngine e), s') | (Inr x, s') \<Rightarrow> (Inr (f x), s'))"

definition cli_add :: "js_host \<Rightarrow> time \<Rightarrow> string \<Rightarrow> string \<Rightarrow> string option \<Rightarrow> string \<Rightarrow> engine \<Rightarrow> cli_result" where
  "cli_add host now text_arg cat tgs imp s =
     (case cli_parseCategory cat of
        Inl e \<Rightarrow> (Inl e, s)
      | Inr c \<Rightarrow>
          (case js_Number host imp of
             NaN \<Rightarrow> (Inl CliNaNImportance, s)
           | Num x \<Rightarrow>
               engine_outcome OutMemory
                 (engine_addMemory now
                    \<lparr>input_content = text_arg, input_category = category_name c,
                     input_tags = Some (cli_parseTags tgs), input_timestamp = None,
                     input_importance = Some x\<rparr> s)))"

definition cli_search ::
  "js_host \<Rightarrow> time \<Rightarrow> string \<Rightarrow> string \<Rightarrow> string option \<Rightarrow> string option \<Rightarrow> engine \<Rightarrow> cli_result" where
  "cli_search host now query lmt cat tgs s =
     (case cli_optCategory cat of
        Inl e \<Rightarrow> (Inl e, s)
      | Inr c \<Rightarrow>
          engine_outcome OutResults
            (search now query
               \<lparr>so_limit = Some (js_Number host lmt), so_category = c, so_tags = Some (cli_parseTags tgs),
                so_keyword = None\<rparr> s))"

definition cli_list ::
  "js_host \<Rightarrow> time \<Rightarrow> string option \<Rightarrow> string option \<Rightarrow> string option \<Rightarrow> string option \<Rightarrow> engine \<Rightarrow>
   cli_result" where
  "cli_list host now cat tgs since lmt s =
     (let since' = (case parseDurationMs since of
                      None \<Rightarrow> None
                    | Some d \<Rightarrow> if d = 0 then None else Some (Num (of_int (now - d))))
      in case cli_optCategory cat of
           Inl e \<Rightarrow> (Inl e, s)
         | Inr c \<Rightarrow>
             engine_outcome OutMemories
               (engine_list \<lparr>lo_category = c, lo_tags = Some (cli_parseTags tgs), lo_since = since',
                             lo_until = None, lo_limit = query_number host lmt, lo_offset = None\<rparr> s, s))"

definition cli_export :: "string \<Rightarrow> engine \<Rightarrow> cli_result" where
  "cli_export fmt s =
     (case engine_list \<lparr>lo_category = None, lo_tags = None, lo_since = None, lo_until = None,
                        lo_limit = None, lo_offset = None\<rparr> s of
        Inl e \<Rightarrow> (Inl (CliEngine e), s)
      | Inr ms \<Rightarrow> if js_lower fmt \<noteq> ''json'' then (Inl CliUnsupportedFormat, s) else (Inr (OutMemories ms), s))"

text \<open>\<open>serve\<close>: \<open>--port\<close> overrides \<open>MEMORY_PORT\<close>, then the server starts on the port.\<close>

definition cli_serve :: "js_host \<Rightarrow> string option \<Rightarrow> string option \<Rightarrow> engine \<Rightarrow> cli_result" where
  "cli_serve host env port s =
     (Inr (OutListen (server_port host (if js_truthy_str port then port else env))), s)"

fun run_command :: "js_host \<Rightarrow> time \<Rightarrow> string option \<Rightarrow> cli_command \<Rightarrow> engine \<Rightarrow> cli_result" where
  "run_command host now env (CmdAdd text_arg cat tgs imp) s = cli_add host now text_arg cat tgs imp s"
| "run_command host now env (CmdSearch query lmt cat tgs) s = cli_search host now query lmt cat tgs s"
| "run_command host now env (CmdList cat tgs since lmt) s = cli_list host now cat tgs since lmt s"
| "run_command host now env (CmdExport fmt) s = cli_export fmt s"
| "run_command host now env (CmdServe port) s = cli_serve host env port s"

text \<open>A tag as \<open>parseTags\<close> produces it: non-empty, without a comma, already trimmed.\<close>

definition tag_ok :: "string \<Rightarrow> bool" where
  "tag_ok t \<longleftrightarrow> t \<noteq> [] \<and> CHR '','' \<notin> set t \<and> js_trim t = t"

text \<open>One invocation of the program on the persisted state.\<close>

definition cli_main :: "js_host \<Rightarrow> time \<Rightarrow> string option \<Rightarrow> cli_command \<Rightarrow> engine \<Rightarrow> cli_result" where
  "cli_main host now env cmd s = run_command host now env cmd (cli_engine s)"

section \<open>Lemmas\<close>

lemma set_CLI_CATEGORIES: "set CLI_CATEGORIES = range category_name"
  by (simp add: CLI_CATEGORIES_def UNIV_category CATEGORIES_def)

lemma set_SERVER_CATEGORIES: "set SERVER_CATEGORIES = range category_name"
  by (simp add: SERVER_CATEGORIES_def UNIV_category CATEGORIES_def)

lemma category_of_string_range: "category_of_string v = None \<longleftrightarrow> v \<notin> range category_name"
  by (metis category_of_string_Some category_of_string_name not_None_eq rangeE rangeI)

lemma cli_parseTags_Some:
  "s \<noteq> [] \<Longrightarrow> cli_parseTags (Some s) = filter (\<lambda>tag. tag \<noteq> []) (map js_trim (js_split_sep (\<lambda>c. c = CHR '','') s))"
  by (simp add: cli_parseTags_def js_truthy_str_def)

lemma cli_parseTags_ok: "list_all tag_ok (cli_parseTags v)"
proof (cases "js_truthy_str v")
  case True
  then obtain s where v: "v = Some s" and "s \<noteq> []" by (cases v) (auto simp: js_truthy_str_def)
  have "CHR '','' \<notin> set (js_trim w)" if "w \<in> set (js_split_sep (\<lambda>c. c = CHR '','') s)" for w
    using that js_split_sep_free [of "\<lambda>c. c = CHR '','' " s] set_js_trim [of w]
    by (auto simp: list_all_iff list_ex_iff)
  with v \<open>s \<noteq> []\<close> show ?thesis by (auto simp: cli_parseTags_Some tag_ok_def list_all_iff)
qed (simp add: cli_parseTags_def)

lemma js_join_ne: "ts \<noteq> [] \<Longrightarrow> hd ts \<noteq> [] \<Longrightarrow> js_join sep ts \<noteq> []"
  by (induction sep ts rule: js_join.induct) auto

lemma cli_parseTags_join: "list_all tag_ok ts \<Longrightarrow> cli_parseTags (Some (js_join '','' ts)) = ts"
proof (cases "ts = []")
  case True
  then show ?thesis by (simp add: cli_parseTags_def js_truthy_str_def)
next
  case False
  assume ok: "list_all tag_ok ts"
  then have ne: "js_join '','' ts \<noteq> []"
    using False js_join_ne by (cases ts) (auto simp: tag_ok_def)
  have "js_split_sep (\<lambda>c. c = CHR '','') (js_join [CHR '',''] ts) = ts"
    using ok False by (intro js_split_sep_join) (auto simp: list_all_iff list_ex_iff tag_ok_def)
  moreover have "map js_trim ts = ts" and "filter (\<lambda>tag. tag \<noteq> []) ts = ts"
    using ok by (auto simp: list_all_iff tag_ok_def intro: map_idI)
  ultimately show ?thesis using ne by (simp add: cli_parseTags_Some)
qed

lemma duration_match_SomeD:
  assumes "duration_match s = Some (ds, u)"
  shows "2 \<le> length s \<and> ds = butlast s \<and> u = last s \<and> list_all is_ascii_digit ds \<and> u \<in> set ''smhd''"
proof (cases "2 \<le> length s \<and> list_all is_ascii_digit (butlast s) \<and> last s \<in> set ''smhd''")
  case True
  have "duration_match s = Some (butlast s, last s)" unfolding duration_match_def by (rule if_P [OF True])
  with assms True show ?thesis by simp
next
  case False
  have "duration_match s = None" unfolding duration_match_def by (rule if_not_P [OF False])
  with assms show ?thesis by simp
qed

lemma duration_match_Some:
  "duration_match s = Some (ds, u) \<longleftrightarrow>
     s = ds @ [u] \<and> ds \<noteq> [] \<and> list_all is_ascii_digit ds \<and> u \<in> set ''smhd''"
proof
  assume "duration_match s = Some (ds, u)"
  note d = duration_match_SomeD [OF this]
  then have "s \<noteq> [] \<and> butlast s \<noteq> []" by (cases s rule: rev_cases) auto
  with d show "s = ds @ [u] \<and> ds \<noteq> [] \<and> list_all is_ascii_digit ds \<and> u \<in> set ''smhd''"
    by (auto simp: append_butlast_last_id)
next
  assume "s = ds @ [u] \<and> ds \<noteq> [] \<and> list_all is_ascii_digit ds \<and> u \<in> set ''smhd''"
  then show "duration_match s = Some (ds, u)"
    by (cases ds) (auto simp: duration_match_def)
qed

lemma unit_ms_Some: "unit_ms u = Some k \<Longrightarrow> u \<in> set ''smhd''"
  by (auto simp: unit_ms_def split: if_splits)

lemma unit_ms_defined: "u \<in> set ''smhd'' \<Longrightarrow> unit_ms u \<noteq> None"
  by (auto simp: unit_ms_def)

lemma cli_add_OutMemory:
  assumes "cli_add host now txt cat tgs imp s = (Inr (OutMemory m), s')"
  shows "\<exists>input. engine_addMemory now input s = (Inr m, s')"
  using assms
  by (auto simp: cli_add_def engine_outcome_def split: sum.splits js_number.splits prod.splits)

lemma cli_list_state: "cli_list host now cat tgs since lmt s = (r, s') \<Longrightarrow> s' = s"
  by (auto simp: cli_list_def engine_outcome_def Let_def split: sum.splits)

section \<open>Properties\<close>

text \<open>
  C30: \<open>parseTags\<close> yields only trimmed, non-empty tags without commas, and it reads back every such list of tags from its comma-joined form.
\<close>

theorem cli_parseTags_roundtrip:
  "list_all tag_ok (cli_parseTags v) \<and>
   (list_all tag_ok ts \<longrightarrow> cli_parseTags (Some (js_join '','' ts)) = ts)"
  by (simp add: cli_parseTags_ok cli_parseTags_join)

text \<open>
  \<open>parseDurationMs\<close> returns a duration exactly for a non-empty run of decimal digits followed by one of the units s, m, h, d, and the duration is the decimal value times the unit's milliseconds.
\<close>

theorem parseDurationMs_iff:
  "parseDurationMs v = Some ms \<longleftrightarrow>
     (\<exists>ds u k. v = Some (ds @ [u]) \<and> ds \<noteq> [] \<and> list_all is_ascii_digit ds \<and> unit_ms u = Some k \<and>
               ms = int (digits_value ds) * k)"
proof
  assume h: "parseDurationMs v = Some ms"
  then have "js_truthy_str v" by (auto simp: parseDurationMs_def split: if_splits)
  then obtain s where v: "v = Some s" and "s \<noteq> []" by (cases v) (auto simp: js_truthy_str_def)
  with h obtain ds u k where "duration_match s = Some (ds, u)" and "unit_ms u = Some k"
    and "ms = int (digits_value ds) * k"
    by (auto simp: parseDurationMs_def js_truthy_str_def split: option.splits)
  with v show "\<exists>ds u k. v = Some (ds @ [u]) \<and> ds \<noteq> [] \<and> list_all is_ascii_digit ds \<and>
                 unit_ms u = Some k \<and> ms = int (digits_value ds) * k"
    by (auto simp: duration_match_Some)
next
  assume "\<exists>ds u k. v = Some (ds @ [u]) \<and> ds \<noteq> [] \<and> list_all is_ascii_digit ds \<and>
            unit_ms u = Some k \<and> ms = int (digits_value ds) * k"
  then obtain ds u k where v: "v = Some (ds @ [u])" and ds: "ds \<noteq> []" "list_all is_ascii_digit ds"
    and k: "unit_ms u = Some k" and ms: "ms = int (digits_value ds) * k" by blast
  have "duration_match (ds @ [u]) = Some (ds, u)"
    using unit_ms_Some [OF k] ds by (simp only: duration_match_Some) simp
  with v k ms show "parseDurationMs v = Some ms" by (simp add: parseDurationMs_def js_truthy_str_def)
qed

text \<open>
  C32: The front ends agree with the engine: the CLI's \<open>parseCategory\<close> accepts exactly the strings the engine's \<open>CATEGORIES\<close> check accepts, the server's \<open>parseCategory\<close> keeps exactly those and drops the rest, and the server's \<open>parseTags\<close> is the CLI's on every truthy value.
\<close>

theorem frontend_parsers_agree:
  "cli_parseCategory v = (case category_of_string v of None \<Rightarrow> Inl (CliInvalidCategory v) | Some c \<Rightarrow> Inr c) \<and>
   server_parseCategory (Some v) = category_of_string v \<and>
   server_parseTags w = (if js_truthy_str w then Some (cli_parseTags w) else None)"
proof (intro conjI)
  show "cli_parseCategory v = (case category_of_string v of None \<Rightarrow> Inl (CliInvalidCategory v) | Some c \<Rightarrow> Inr c)"
    using category_of_string_range [of v] by (auto simp: cli_parseCategory_def set_CLI_CATEGORIES)
  show "server_parseCategory (Some v) = category_of_string v"
    using category_of_string_range [of v] category_name_nonempty
    by (auto simp: server_parseCategory_def set_SERVER_CATEGORIES)
  show "server_parseTags w = (if js_truthy_str w then Some (cli_parseTags w) else None)"
    by (auto simp: server_parseTags_def cli_parseTags_def js_truthy_str_def split: option.splits)
qed

end
