(* ===== verification/Interleaving.thy ===== *)
theory Interleaving
  imports Server "HOL-Library.Multiset"
begin

text \<open>
  Concurrent requests of the HTTP server of \<open>src/server.ts\<close>. Node runs one handler at a
  time, but the handlers of \<open>POST /memories\<close>, \<open>GET /memories/search\<close> and
  \<open>POST /memories/summarize\<close> are \<open>async\<close>: they stop at every \<open>await\<close> on the embedding
  service (\<open>embedText\<close>, an HTTP call) and other requests run before they resume. An
  \<open>await\<close> on a promise that is already settled only yields to the microtask queue, where
  no request handler runs, so the awaits on the embedding service are the only points
  where requests interleave. \<open>Engine\<close> splits \<open>addMemory\<close> and \<open>search\<close> at that await
  (\<open>add_begin\<close>/\<open>add_resume\<close>, \<open>search_begin\<close>/\<open>search_resume\<close>); this theory
  splits the loop of \<open>summarize\<close> (\<open>sum_begin\<close>, \<open>sum_next\<close>), and a suspended handler
  is a \<open>job\<close>. The server is the labelled step relation \<open>srv_step\<close> over
  \<open>server_state\<close>: a request arrives and runs to its first await or to its response, or
  a suspended job resumes when its embedding arrives. A \<open>srv_run\<close> is a
  schedule, a list of such events.
\<close>

section \<open>Suspended handlers and the server\<close>

text \<open>
  A suspended handler: an add, a search, or a \<open>summarize\<close> stopped in the \<open>addMemory\<close> of
  the summary of plan \<open>p\<close>, with the plans still to do and its counters.
\<close>

datatype job =
    AddJob add_job
  | SearchJob search_job
  | SumJob add_job summary_plan "summary_plan list" "nat \<times> nat"

datatype handler_state =
    Respond "http_response \<times> engine"
  | Await job engine

text \<open>
  One iteration of the loop of \<open>summarize\<close> up to its await: start the \<open>addMemory\<close> of
  the next plan's summary, or answer with the counters when no plan is left.
\<close>

fun sum_next :: "time \<Rightarrow> summary_plan list \<Rightarrow> nat \<times> nat \<Rightarrow> engine \<Rightarrow> handler_state" where
  "sum_next now [] (n, d) s = Respond (\<lparr>status = 200, resp_body = JSummary n d\<rparr>, s)"
| "sum_next now (p # ps) acc s =
     (case add_begin now (summary p) of
        Inl e \<Rightarrow> Respond (\<lparr>status = 400, resp_body = JError e\<rparr>, s)
      | Inr j \<Rightarrow> Await (SumJob j p ps acc) s)"

definition sum_begin :: "time \<Rightarrow> engine \<Rightarrow> handler_state" where
  "sum_begin now s =
     (if int (store_count (e_store s)) < e_summaryThreshold s
      then Respond (\<lparr>status = 200, resp_body = JSummary 0 0\<rparr>, s)
      else case buildSummaries (e_toISO s) now (getAllMemories (e_store s))
                  \<lparr>maxGroupSize = 12, preserveImportanceThreshold = e_preserveImportanceThreshold s\<rparr> of
             Inl e \<Rightarrow> Respond (\<lparr>status = 400, resp_body = JError e\<rparr>, s)
           | Inr plans \<Rightarrow> sum_next now plans (0, 0) s)"

text \<open>A request handler run until it answers or reaches its first await.\<close>

fun srv_begin :: "js_host \<Rightarrow> time \<Rightarrow> http_request \<Rightarrow> engine \<Rightarrow> handler_state" where
  "srv_begin host now (PostMemories body) s =
     (case add_begin now body of
        Inl e \<Rightarrow> Respond (\<lparr>status = 400, resp_body = JError e\<rparr>, s)
      | Inr j \<Rightarrow> Await (AddJob j) s)"
| "srv_begin host now (GetSearch q lmt cat tgs) s =
     (let query = (case q of None \<Rightarrow> [] | Some x \<Rightarrow> x);
          opts = \<lparr>so_limit = query_number host lmt, so_category = server_parseCategory cat,
                  so_tags = server_parseTags tgs, so_keyword = None\<rparr>
      in case search_begin query opts s of
           Inl e \<Rightarrow> Respond (\<lparr>status = 400, resp_body = JError e\<rparr>, s)
         | Inr (Inl rs) \<Rightarrow> Respond (\<lparr>status = 200, resp_body = JResults rs\<rparr>, s)
         | Inr (Inr j) \<Rightarrow> Await (SearchJob j) s)"
| "srv_begin host now PostSummarize s = sum_begin now s"
| "srv_begin host now req s = Respond (server_handle host now req s)"

text \<open>A suspended job resumed when \<open>embedText\<close> has answered.\<close>

fun srv_resume :: "time \<Rightarrow> job \<Rightarrow> engine \<Rightarrow> handler_state" where
  "srv_resume now (AddJob j) s =
     Respond (respond 201 JMemory (add_resume now j (embedText (e_embeddings s) (input_content (aj_input j))) s))"
| "srv_resume now (SearchJob j) s =
     Respond (respond 200 JResults (search_resume now j (embedText (e_embeddings s) (sj_query j)) s))"
| "srv_resume now (SumJob j p ps (n, d)) s =
     (case add_resume now j (embedText (e_embeddings s) (input_content (aj_input j))) s of
        (Inl e, s') \<Rightarrow> Respond (\<lparr>status = 400, resp_body = JError e\<rparr>, s')
      | (Inr _, s') \<Rightarrow>
          (case delete_sources now (sourceIds p) d s' of
             (Inl e, s'') \<Rightarrow> Respond (\<lparr>status = 400, resp_body = JError e\<rparr>, s'')
           | (Inr d', s'') \<Rightarrow> sum_next now ps (Suc n, d') s''))"

text \<open>The number of awaits a suspended job still has to pass.\<close>

fun job_size :: "job \<Rightarrow> nat" where
  "job_size (SumJob j p ps acc) = Suc (length ps)"
| "job_size _ = 1"

text \<open>A job resumed again and again, with at most \<open>fuel\<close> resumptions.\<close>

fun drive :: "nat \<Rightarrow> time \<Rightarrow> job \<Rightarrow> engine \<Rightarrow> (http_response \<times> engine) option" where
  "drive 0 now j s = None"
| "drive (Suc fuel) now j s =
     (case srv_resume now j s of
        Respond r \<Rightarrow> Some r
      | Await j' s' \<Rightarrow> drive fuel now j' s')"

text \<open>
  The server: the engine, the suspended handlers with the number of their request, the
  responses sent so far with the number of the request they answer, and the number the
  next request gets.
\<close>

record server_state =
  srv_engine :: engine
  srv_pending :: "(nat \<times> job) list"
  srv_answered :: "(nat \<times> http_response) list"
  srv_next :: nat

datatype srv_event = Arrive time http_request | Resume time nat

inductive srv_step :: "js_host \<Rightarrow> server_state \<Rightarrow> srv_event \<Rightarrow> server_state \<Rightarrow> bool" for host where
  arrive_respond:
    "srv_begin host now req (srv_engine c) = Respond (resp, s') \<Longrightarrow>
     srv_step host c (Arrive now req)
       (c\<lparr>srv_engine := s', srv_answered := srv_answered c @ [(srv_next c, resp)], srv_next := Suc (srv_next c)\<rparr>)"
| arrive_await:
    "srv_begin host now req (srv_engine c) = Await j s' \<Longrightarrow>
     srv_step host c (Arrive now req)
       (c\<lparr>srv_engine := s', srv_pending := srv_pending c @ [(srv_next c, j)], srv_next := Suc (srv_next c)\<rparr>)"
| resume_respond:
    "srv_pending c = xs @ (k, j) # ys \<Longrightarrow> srv_resume now j (srv_engine c) = Respond (resp, s') \<Longrightarrow>
     srv_step host c (Resume now k)
       (c\<lparr>srv_engine := s', srv_pending := xs @ ys, srv_answered := srv_answered c @ [(k, resp)]\<rparr>)"
| resume_await:
    "srv_pending c = xs @ (k, j) # ys \<Longrightarrow> srv_resume now j (srv_engine c) = Await j' s' \<Longrightarrow>
     srv_step host c (Resume now k) (c\<lparr>srv_engine := s', srv_pending := xs @ (k, j') # ys\<rparr>)"

inductive srv_run :: "js_host \<Rightarrow> server_state \<Rightarrow> srv_event list \<Rightarrow> server_state \<Rightarrow> bool" for host where
  run_nil: "srv_run host c [] c"
| run_cons: "srv_step host c ev c' \<Longrightarrow> srv_run host c' evs c'' \<Longrightarrow> srv_run host c (ev # evs) c''"

text \<open>
  The event loop as a function: the successor an event gives, or \<open>None\<close> for the
  resumption of a request that is not pending. \<open>srv_exec_run\<close> runs a schedule; it
  computes runs of \<open>srv_run\<close> (\<open>srv_exec_run_sound\<close>).
\<close>

definition srv_exec :: "js_host \<Rightarrow> srv_event \<Rightarrow> server_state \<Rightarrow> server_state option" where
  "srv_exec host ev c =
     (case ev of
        Arrive now req \<Rightarrow>
          Some (case srv_begin host now req (srv_engine c) of
                  Respond (resp, s') \<Rightarrow>
                    c\<lparr>srv_engine := s', srv_answered := srv_answered c @ [(srv_next c, resp)],
                      srv_next := Suc (srv_next c)\<rparr>
                | Await j s' \<Rightarrow>
                    c\<lparr>srv_engine := s', srv_pending := srv_pending c @ [(srv_next c, j)],
                      srv_next := Suc (srv_next c)\<rparr>)
      | Resume now k \<Rightarrow>
          (case List.extract (\<lambda>kj. fst kj = k) (srv_pending c) of
             None \<Rightarrow> None
           | Some (xs, (_, j), ys) \<Rightarrow>
               Some (case srv_resume now j (srv_engine c) of
                       Respond (resp, s') \<Rightarrow>
                         c\<lparr>srv_engine := s', srv_pending := xs @ ys,
                           srv_answered := srv_answered c @ [(k, resp)]\<rparr>
                     | Await j' s' \<Rightarrow> c\<lparr>srv_engine := s', srv_pending := xs @ (k, j') # ys\<rparr>)))"

fun srv_exec_run :: "js_host \<Rightarrow> srv_event list \<Rightarrow> server_state \<Rightarrow> server_state option" where
  "srv_exec_run host [] c = Some c"
| "srv_exec_run host (ev # evs) c =
     (case srv_exec host ev c of None \<Rightarrow> None | Some c' \<Rightarrow> srv_exec_run host evs c')"

text \<open>A handler run to its response, resuming it as often as it still awaits.\<close>

definition run_handler :: "time \<Rightarrow> handler_state \<Rightarrow> (http_response \<times> engine) option" where
  "run_handler now h = (case h of Respond r \<Rightarrow> Some r | Await j s \<Rightarrow> drive (job_size j) now j s)"

section \<open>Invariant of the server\<close>

text \<open>
  What a suspended job must satisfy so that finishing it keeps \<open>engine_inv\<close>: the input
  it adds has its importance in [0, 1], and a search's snapshot holds only such records.
  \<open>server_inv\<close> adds that every request number below \<open>srv_next\<close> is, exactly once,
  either pending or answered.
\<close>

fun job_ok :: "job \<Rightarrow> bool" where
  "job_ok (AddJob j) \<longleftrightarrow> input_ok (aj_input j)"
| "job_ok (SearchJob j) \<longleftrightarrow> list_all unit_importance (sj_snapshot j)"
| "job_ok (SumJob j p ps acc) \<longleftrightarrow> input_ok (aj_input j) \<and> list_all (\<lambda>q. input_ok (summary q)) ps"

fun req_ok :: "http_request \<Rightarrow> bool" where
  "req_ok (PostMemories body) \<longleftrightarrow> input_ok body"
| "req_ok _ \<longleftrightarrow> True"

fun event_ok :: "srv_event \<Rightarrow> bool" where
  "event_ok (Arrive now req) \<longleftrightarrow> req_ok req"
| "event_ok (Resume now k) \<longleftrightarrow> True"

definition handler_ok :: "handler_state \<Rightarrow> bool" where
  "handler_ok h \<longleftrightarrow> (case h of Respond (r, s) \<Rightarrow> engine_inv s | Await j s \<Rightarrow> engine_inv s \<and> job_ok j)"

definition server_inv :: "server_state \<Rightarrow> bool" where
  "server_inv c \<longleftrightarrow>
     engine_inv (srv_engine c) \<and> list_all (\<lambda>(k, j). job_ok j) (srv_pending c) \<and>
     mset (map fst (srv_answered c) @ map fst (srv_pending c)) = mset [0..<srv_next c]"

section \<open>Lemmas\<close>

lemma respond_snd [simp]: "snd (respond code f r) = snd r"
  by (simp add: respond_def split: prod.splits sum.splits)

lemma add_begin_Inr: "add_begin now input = Inr j \<Longrightarrow> aj_input j = input"
  by (auto simp: add_begin_def split: sum.splits)

lemma search_begin_Inr:
  "search_begin query opts s = Inr (Inr j) \<Longrightarrow> sj_query j = query \<and> sj_snapshot j = e_store s"
  by (auto simp: search_begin_def getAllMemories_def Let_def split: if_splits)

subsection \<open>Resumptions and fuel\<close>

lemma sum_next_Await: "sum_next now ps acc s = Await j s' \<Longrightarrow> job_size j = length ps"
  by (cases "(now, ps, acc, s)" rule: sum_next.cases) (auto split: sum.splits)

lemma srv_resume_Await: "srv_resume now j s = Await j' s' \<Longrightarrow> Suc (job_size j') = job_size j"
  by (cases "(now, j, s)" rule: srv_resume.cases) (auto split: prod.splits sum.splits dest: sum_next_Await)

lemma job_size_pos: "0 < job_size j"
  by (cases j) simp_all

lemma run_handler_Respond [simp]: "run_handler now (Respond r) = Some r"
  by (simp add: run_handler_def)

lemma run_handler_Await:
  "run_handler now (Await j s) = run_handler now (srv_resume now j s)"
proof (cases "srv_resume now j s")
  case (Respond r)
  moreover obtain k where "job_size j = Suc k" using job_size_pos [of j] not0_implies_Suc by blast
  ultimately show ?thesis by (simp add: run_handler_def)
next
  case (Await j' s')
  then have "job_size j = Suc (job_size j')" by (simp add: srv_resume_Await)
  with Await show ?thesis by (simp add: run_handler_def)
qed

subsection \<open>The split handlers run without interleaving\<close>

lemma sum_next_refines:
  "run_handler now (sum_next now ps acc s) =
     Some (respond 200 (\<lambda>(n, d). JSummary n d) (apply_plans now ps acc s))"
proof (induction ps arbitrary: acc s)
  case Nil
  then show ?case by (cases acc) (simp add: respond_def)
next
  case (Cons p ps)
  obtain n d where acc: "acc = (n, d)" by fastforce
  show ?case
  proof (cases "add_begin now (summary p)")
    case (Inl e)
    then show ?thesis by (simp add: acc respond_def engine_addMemory_split)
  next
    case (Inr j)
    then have add: "add_resume now j (embedText (e_embeddings s) (input_content (aj_input j))) s =
                    engine_addMemory now (summary p) s"
      by (simp add: engine_addMemory_split add_begin_Inr)
    have "run_handler now (sum_next now (p # ps) acc s) = run_handler now (srv_resume now (SumJob j p ps (n, d)) s)"
      using Inr by (simp add: acc run_handler_Await)
    also have "\<dots> = Some (respond 200 (\<lambda>(n, d). JSummary n d) (apply_plans now (p # ps) acc s))"
      by (auto simp: acc add respond_def Cons.IH split: prod.splits sum.splits)
    finally show ?thesis .
  qed
qed

lemma sum_begin_refines:
  "run_handler now (sum_begin now s) = Some (respond 200 (\<lambda>(n, d). JSummary n d) (summarize now s))"
  by (auto simp: sum_begin_def summarize_def respond_def sum_next_refines split: sum.splits)


lemma srv_exec_step: "srv_exec host ev c = Some c' \<Longrightarrow> srv_step host c ev c'"
proof (cases ev)
  case (Arrive now req)
  assume "srv_exec host ev c = Some c'"
  with Arrive show ?thesis
    by (auto simp: srv_exec_def intro: srv_step.intros split: handler_state.splits prod.splits)
next
  case (Resume now k)
  assume ex: "srv_exec host ev c = Some c'"
  with Resume obtain xs k' j ys where
    e: "List.extract (\<lambda>kj. fst kj = k) (srv_pending c) = Some (xs, (k', j), ys)"
    by (auto simp: srv_exec_def split: option.splits)
  then have p: "srv_pending c = xs @ (k, j) # ys" by (auto dest: extract_SomeE)
  from ex Resume e p show ?thesis
    by (auto simp: srv_exec_def intro: srv_step.intros split: handler_state.splits prod.splits)
qed

lemma srv_exec_run_sound: "srv_exec_run host evs c = Some c' \<Longrightarrow> srv_run host c evs c'"
  by (induction host evs c rule: srv_exec_run.induct)
     (auto intro: srv_run.intros srv_exec_step split: option.splits)

lemma srv_exec_run_append:
  "srv_exec_run host (evs @ evs') c = (case srv_exec_run host evs c of None \<Rightarrow> None | Some c' \<Rightarrow> srv_exec_run host evs' c')"
  by (induction host evs c rule: srv_exec_run.induct) (simp_all split: option.splits)

subsection \<open>Invariant\<close>

lemma handler_ok_Respond [simp]: "handler_ok (Respond r) \<longleftrightarrow> engine_inv (snd r)"
  by (cases r) (simp add: handler_ok_def)

lemma handler_ok_Await [simp]: "handler_ok (Await j s) \<longleftrightarrow> engine_inv s \<and> job_ok j"
  by (simp add: handler_ok_def)

lemma handle_get_snd: "snd (handle_get now i s) = snd (engine_get now i s)"
  by (simp add: handle_get_def split: prod.splits option.splits)

lemma handle_delete_snd: "snd (handle_delete now i s) = snd (engine_delete now i s)"
  by (simp add: handle_delete_def split: prod.splits sum.splits bool.splits)

lemma engine_inv_server_handle:
  "engine_inv s \<Longrightarrow> req_ok req \<Longrightarrow> engine_inv (snd (server_handle host now req s))"
  by (cases req)
     (simp_all add: engine_inv_add engine_inv_summarize handle_search_def handle_list_def Let_def
       engine_inv_search handle_get_snd handle_delete_snd engine_inv_get engine_inv_delete)

lemma engine_inv_delete_sources: "engine_inv s \<Longrightarrow> engine_inv (snd (delete_sources now is d s))"
  by (rule delete_sources_preserves) (simp_all add: engine_inv_delete)

lemma sum_next_ok:
  "engine_inv s \<Longrightarrow> list_all (\<lambda>p. input_ok (summary p)) ps \<Longrightarrow> handler_ok (sum_next now ps acc s)"
  by (cases "(now, ps, acc, s)" rule: sum_next.cases)
     (auto dest: add_begin_Inr split: sum.splits)

lemma srv_begin_ok: "engine_inv s \<Longrightarrow> req_ok req \<Longrightarrow> handler_ok (srv_begin host now req s)"
proof (cases req)
  case (GetSearch q lmt cat tgs)
  assume "engine_inv s"
  then show ?thesis
    using GetSearch search_begin_Inr by (auto simp: Let_def engine_inv_def split: sum.splits)
next
  case PostSummarize
  assume "engine_inv s"
  then show ?thesis
    using PostSummarize by (auto simp: sum_begin_def intro!: sum_next_ok intro: summary_plans_ok split: sum.splits)
qed (auto simp: handle_list_def Let_def handle_get_snd handle_delete_snd engine_inv_get engine_inv_delete
     dest: add_begin_Inr split: sum.splits)

lemma srv_resume_ok: "engine_inv s \<Longrightarrow> job_ok j \<Longrightarrow> handler_ok (srv_resume now j s)"
proof (induction now j s rule: srv_resume.induct)
  case (1 now j s)
  then show ?case by (simp add: engine_inv_add_resume)
next
  case (2 now j s)
  then show ?case by (simp add: engine_inv_search_resume)
next
  case (3 now j p ps n d s)
  obtain r s1 where rs: "add_resume now j (embedText (e_embeddings s) (input_content (aj_input j))) s = (r, s1)"
    by fastforce
  have inv1: "engine_inv s1" by (metis "3.prems" job_ok.simps(3) engine_inv_add_resume snd_conv rs)
  obtain r' s2 where rs': "delete_sources now (sourceIds p) d s1 = (r', s2)" by fastforce
  have inv2: "engine_inv s2" using engine_inv_delete_sources [OF inv1] rs' by (metis snd_conv)
  show ?case
    using inv1 inv2 rs rs' "3.prems"(2)
    by (auto intro: sum_next_ok split: sum.splits)
qed

lemma srv_step_inv:
  assumes step: "srv_step host c ev c'" and inv: "server_inv c" and ok: "event_ok ev"
  shows "server_inv c'"
  using step
proof cases
  case (arrive_respond now req resp s')
  with inv ok srv_begin_ok [of "srv_engine c" req host now] show ?thesis
    by (auto simp: server_inv_def)
next
  case (arrive_await now req j s')
  with inv ok srv_begin_ok [of "srv_engine c" req host now] show ?thesis
    by (auto simp: server_inv_def)
next
  case (resume_respond xs k j ys now resp s')
  with inv srv_resume_ok [of "srv_engine c" j now] show ?thesis
    by (auto simp: server_inv_def)
next
  case (resume_await xs k j ys now j' s')
  with inv srv_resume_ok [of "srv_engine c" j now] show ?thesis
    by (auto simp: server_inv_def)
qed

lemma srv_run_inv: "srv_run host c evs c' \<Longrightarrow> server_inv c \<Longrightarrow> list_all event_ok evs \<Longrightarrow> server_inv c'"
  by (induction rule: srv_run.induct) (auto intro: srv_step_inv)

subsection \<open>Draining the suspended handlers\<close>

lemma srv_run_append:
  "srv_run host c evs c1 \<Longrightarrow> srv_run host c1 evs' c2 \<Longrightarrow> srv_run host c (evs @ evs') c2"
  by (induction rule: srv_run.induct) (auto intro: srv_run.intros)

lemma srv_run_single: "srv_step host c ev c' \<Longrightarrow> srv_run host c [ev] c'"
  by (auto intro: srv_run.intros)

text \<open>Resuming the first suspended handler until it answers takes at most its size in steps.\<close>

lemma drain_first:
  assumes "srv_pending c = (k, j) # ys"
  shows "\<exists>ks c'. srv_run host c (map (Resume now) ks) c' \<and> length ks \<le> job_size j \<and>
                 srv_pending c' = ys \<and> (\<exists>resp. srv_answered c' = srv_answered c @ [(k, resp)])"
  using assms
proof (induction "job_size j" arbitrary: j c rule: less_induct)
  case less
  show ?case
  proof (cases "srv_resume now j (srv_engine c)")
    case (Respond r)
    obtain resp s' where r: "r = (resp, s')" by fastforce
    let ?c' = "c\<lparr>srv_engine := s', srv_pending := [] @ ys, srv_answered := srv_answered c @ [(k, resp)]\<rparr>"
    have "srv_step host c (Resume now k) ?c'"
      using less.prems Respond r by (intro srv_step.resume_respond) simp_all
    then have "srv_run host c (map (Resume now) [k]) ?c'" by (simp add: srv_run_single)
    moreover have "length [k] \<le> job_size j" using job_size_pos [of j] by simp
    ultimately show ?thesis by fastforce
  next
    case (Await j' s')
    let ?c1 = "c\<lparr>srv_engine := s', srv_pending := [] @ (k, j') # ys\<rparr>"
    have step: "srv_step host c (Resume now k) ?c1"
      using less.prems Await by (intro srv_step.resume_await) simp_all
    have sz: "Suc (job_size j') = job_size j" using Await by (rule srv_resume_Await)
    then obtain ks c' where run: "srv_run host ?c1 (map (Resume now) ks) c'" and len: "length ks \<le> job_size j'"
      and rest: "srv_pending c' = ys \<and> (\<exists>resp. srv_answered c' = srv_answered ?c1 @ [(k, resp)])"
      using less.hyps [of j' ?c1] by auto
    have "srv_run host c (map (Resume now) (k # ks)) c'"
      using srv_run.run_cons [OF step run] by simp
    with len sz rest show ?thesis by (intro exI [of _ "k # ks"] exI [of _ c']) auto
  qed
qed

lemma search_resume_distinct:
  assumes "search_resume now j (Inr q) s = (Inr rs, s')" and "distinct (map mem_id (sj_snapshot j))"
  shows "distinct (map (mem_id \<circ> sr_memory) rs)"
proof -
  let ?cs = "search_candidates (sj_opts j) (sj_snapshot j)"
  let ?rk = "search_ranking q (search_keyword (sj_query j) (sj_opts j)) ?cs"
  have rs: "rs = js_slice_prefix (search_limit (sj_opts j)) ?rk"
    using assms(1) by (simp add: search_resume_def Let_def)
  have "distinct (map mem_id ?cs)"
    using assms(2) by (rule search_candidates_distinct)
  moreover have "mset (map (mem_id \<circ> sr_memory) ?rk) = mset (map mem_id ?cs)"
    by (simp add: search_ranking_def mset_map multiset.map_comp comp_def)
  ultimately have "distinct (map (mem_id \<circ> sr_memory) ?rk)"
    by (metis mset_eq_imp_distinct_iff)
  then show ?thesis
    by (simp add: rs js_slice_prefix_def take_map [symmetric])
qed

section \<open>Properties\<close>

text \<open>
  The handlers split at their awaits implement the server: a request run to its
  first await and then resumed until it answers, with nothing in between, gives the
  response and the state of the atomic \<open>server_handle\<close>.
\<close>

theorem handlers_refine_atomic:
  "run_handler now (srv_begin host now req s) = Some (server_handle host now req s)"
proof (cases req)
  case (PostMemories body)
  then show ?thesis
    by (cases "add_begin now body")
       (auto simp: respond_def engine_addMemory_split run_handler_def dest: add_begin_Inr)
next
  case (GetSearch q lmt cat tgs)
  then show ?thesis
    by (auto simp: handle_search_def Let_def search_split respond_def run_handler_def
        dest: search_begin_Inr split: sum.splits)
next
  case PostSummarize
  then show ?thesis by (simp add: sum_begin_refines)
qed simp_all

text \<open>
  Termination of the suspended handlers: a suspended request answers after at most
  as many resumptions as it has awaits left (one for an add or a search, one per
  remaining plan for \<open>summarize\<close>).
\<close>

theorem drive_terminates: "\<exists>r. drive (job_size j) now j s = Some r"
proof (induction "job_size j" arbitrary: j s rule: less_induct)
  case less
  show ?case
  proof (cases "srv_resume now j s")
    case (Respond r)
    obtain k where "job_size j = Suc k" using job_size_pos [of j] not0_implies_Suc by blast
    with Respond show ?thesis by simp
  next
    case (Await j' s')
    then have sz: "job_size j = Suc (job_size j')" by (simp add: srv_resume_Await)
    then obtain r where "drive (job_size j') now j' s' = Some r" using less.hyps [of j' s'] by auto
    with Await sz show ?thesis by simp
  qed
qed

text \<open>
  C20: Under any interleaving of requests and resumptions, with added importances in
  [0, 1], the server keeps identifiers unique and every stored importance in [0, 1], and
  every request it has received is, exactly once, either still pending or answered: none
  is lost and none is answered twice.
\<close>

theorem interleaved_server_inv:
  assumes "srv_run host c0 evs c" and "server_inv c0" and "list_all event_ok evs"
  shows "store_inv (e_store (srv_engine c)) \<and> list_all unit_importance (e_store (srv_engine c)) \<and>
         mset (map fst (srv_answered c) @ map fst (srv_pending c)) = mset [0..<srv_next c]"
  using srv_run_inv [OF assms] by (simp add: server_inv_def engine_inv_def)

text \<open>
  C29: Liveness: whatever requests are suspended, resuming them, with no new request,
  answers every one of them, in order, within as many steps as they have awaits left.
\<close>

theorem pending_requests_answered:
  "\<exists>ks c'. srv_run host c (map (Resume now) ks) c' \<and>
           length ks \<le> sum_list (map (job_size \<circ> snd) (srv_pending c)) \<and> srv_pending c' = [] \<and>
           (\<exists>more. srv_answered c' = srv_answered c @ more \<and> map fst more = map fst (srv_pending c))"
proof (induction "srv_pending c" arbitrary: c)
  case Nil
  then show ?case by (intro exI [of _ "[]"] exI [of _ c]) (auto intro: srv_run.intros)
next
  case (Cons kj ys)
  obtain k j where kj: "kj = (k, j)" by fastforce
  obtain ks1 c1 where run1: "srv_run host c (map (Resume now) ks1) c1" and len1: "length ks1 \<le> job_size j"
    and p1: "srv_pending c1 = ys" and a1: "\<exists>resp. srv_answered c1 = srv_answered c @ [(k, resp)]"
    using drain_first [of c k j ys host now] Cons.hyps(2) kj by auto
  obtain ks2 c2 where run2: "srv_run host c1 (map (Resume now) ks2) c2"
    and len2: "length ks2 \<le> sum_list (map (job_size \<circ> snd) ys)" and p2: "srv_pending c2 = []"
    and a2: "\<exists>more. srv_answered c2 = srv_answered c1 @ more \<and> map fst more = map fst ys"
    using Cons.hyps(1) [of c1] p1 by auto
  have "srv_run host c (map (Resume now) (ks1 @ ks2)) c2"
    using srv_run_append [OF run1 run2] by simp
  with len1 len2 p2 a1 a2 Cons.hyps(2) kj show ?case
    by (intro exI [of _ "ks1 @ ks2"] exI [of _ c2]) (auto simp flip: Cons.hyps(2))
qed

text \<open>
  C26: Lost update between concurrent requests: a search suspended at its embedding await boosts every record it returns from the importance the record had when the search began. Whatever another request did to the record meanwhile (the boost of a \<open>GET\<close>, a decay), the resumed search sets its importance to the snapshot's importance plus 0.03, capped at 1, so the intervening change of importance is lost.
\<close>

theorem search_loses_concurrent_boost:
  assumes "search_begin query opts s = Inr (Inr j)" and "store_inv (e_store s)"
    and "search_resume now j (Inr q) s' = (Inr rs, s'')" and "r \<in> set rs"
    and "store_lookup (e_store s') (mem_id (sr_memory r)) = Some m'"
  shows "store_lookup (e_store s) (mem_id (sr_memory r)) = Some (sr_memory r) \<and>
         store_lookup (e_store s'') (mem_id (sr_memory r)) =
           Some (m'\<lparr>lastAccessed := now, importance := min 1 (importance (sr_memory r) + 0.03)\<rparr>)"
proof -
  have snap: "sj_snapshot j = e_store s"
    using assms(1) by (auto simp: search_begin_def getAllMemories_def Let_def split: if_splits)
  have d: "distinct (map mem_id (sj_snapshot j))"
    using assms(2) by (simp add: snap store_inv_def store_ids_def)
  have "sr_memory r \<in> set (e_store s)"
    using search_resume_sound [OF assms(3,4)] by (simp add: snap)
  then have "store_lookup (e_store s) (mem_id (sr_memory r)) = Some (sr_memory r)"
    using d by (simp add: snap store_lookup_def map_of_is_SomeI comp_def image_iff)
  moreover have "e_store s'' = apply_search_boosts now rs (e_store s')"
    using assms(3) by (auto simp: search_resume_def Let_def)
  ultimately show ?thesis
    using apply_search_boosts_lookup [OF search_resume_distinct [OF assms(3) d] assms(4)] assms(5) by simp
qed

end
