(* ===== verification/Processes.thy ===== *)
theory Processes
  imports Cli
begin

text \<open>
  The program as processes over files. \<open>new MemoryEngine(options)\<close> resolves two paths,
  opens the database file at the first (\<open>new SQLiteStore\<close>) and the log file at the
  second (\<open>new WriteAheadLog\<close>), and recovers from the log; every command of the CLI
  is one process that does this, runs the command and exits, leaving the table and the
  log in the files. \<open>file_system\<close> holds the table of every database file (\<open>None\<close>
  for a file that does not exist) and the entries of every log file (the file holds
  \<open>wal_encode\<close> of them and reads back to them, see \<open>Wal\<close>; an absent
  file is the empty list, as \<open>ensureDir\<close> creates it empty). Processes may also run at
  the same time on the same files, as the server and a CLI command do: the step relation
  \<open>sys_step\<close> interleaves their public operations, and its lemmas show that the files stay
  well formed and that a new process's recovery overwrites what a live process did not log.
\<close>

section \<open>Files and paths\<close>

record file_system =
  fs_db :: "string \<Rightarrow> store_table option"
  fs_wal :: "string \<Rightarrow> wal_entry list"

section \<open>Processes\<close>

text \<open>
  One CLI process with \<open>MEMORY_PORT\<close> \<open>envPort\<close>, \<open>MEMORY_DB_PATH\<close> \<open>envDb\<close> and working
  directory \<open>cwd\<close>: the engine on the files at its paths, the command (\<open>cli_main\<close>: recovery,
  then the action), and the files it leaves, the database file created if it was absent.
  \<open>s0\<close> holds what a process does not read from files: the embedding client, the
  identifiers \<open>crypto.randomUUID()\<close> will produce and \<open>toISOString\<close>.
\<close>

definition cli_process ::
  "js_host \<Rightarrow> time \<Rightarrow> string option \<Rightarrow> string option \<Rightarrow> string \<Rightarrow> cli_command \<Rightarrow> engine \<Rightarrow> file_system \<Rightarrow>
   (cli_error + cli_output) \<times> file_system" where
  "cli_process host now envPort envDb cwd cmd s0 fs =
     (let (dbp, walp) = engine_paths None None envDb cwd;
          s = s0\<lparr>e_store := new_SQLiteStore (fs_db fs dbp), e_dbPath := dbp, e_wal := fs_wal fs walp, e_walPath := walp\<rparr>;
          (r, s') = cli_main host now envPort cmd s
      in (r, fs\<lparr>fs_db := (fs_db fs)(dbp \<mapsto> e_store s'), fs_wal := (fs_wal fs)(walp := e_wal s')\<rparr>))"

section \<open>Processes at the same time\<close>

text \<open>
  Several processes on the same files: a server (\<open>serve\<close>) that lives long and CLI
  commands started while it runs. A live process holds no copy of the data:
  better-sqlite3 runs every statement on the database file, and the log is read, appended
  and truncated on disk; only the pending-write counter, the identifiers, the paths and the
  configuration live in the process. \<open>attach\<close> gives a process the current files,
  \<open>detach\<close> writes back what an operation left in them. Every public operation runs
  without suspension here (the awaits are the subject of \<open>Interleaving\<close>), so
  processes interleave at operation boundaries.
\<close>

definition attach :: "file_system \<Rightarrow> engine \<Rightarrow> engine" where
  "attach fs s = s\<lparr>e_store := new_SQLiteStore (fs_db fs (e_dbPath s)), e_wal := fs_wal fs (e_walPath s)\<rparr>"

definition detach :: "engine \<Rightarrow> file_system \<Rightarrow> file_system" where
  "detach s fs = fs\<lparr>fs_db := (fs_db fs)(e_dbPath s \<mapsto> e_store s), fs_wal := (fs_wal fs)(e_walPath s := e_wal s)\<rparr>"

text \<open>One public operation of a live process on the files.\<close>

definition proc_op :: "engine_op \<Rightarrow> engine \<Rightarrow> file_system \<Rightarrow> engine \<times> file_system" where
  "proc_op op s fs = (let s' = engine_step op (attach fs s) in (s', detach s' fs))"

text \<open>
  The system: the live processes and the files. \<open>Spawn s0\<close> starts a process whose
  paths, identifiers and embedding client are those of \<open>s0\<close>: \<open>new MemoryEngine()\<close>
  with the default options opens the files and recovers from the log, writing the replayed
  table and the cleared log back. \<open>Step i op\<close> is a public operation of process \<open>i\<close>
  (a live process does not run the constructor again: that is a new process).
\<close>

datatype sys_event = Spawn engine | Step nat engine_op

type_synonym sys_state = "engine list \<times> file_system"

inductive sys_step :: "sys_state \<Rightarrow> sys_event \<Rightarrow> sys_state \<Rightarrow> bool" where
  spawn: "s = cli_engine (attach fs s0) \<Longrightarrow> sys_step (ps, fs) (Spawn s0) (ps @ [s], detach s fs)"
| step: "i < length ps \<Longrightarrow> op \<noteq> OpRestart \<Longrightarrow> proc_op op (ps ! i) fs = (s', fs') \<Longrightarrow>
         sys_step (ps, fs) (Step i op) (ps[i := s'], fs')"

inductive sys_run :: "sys_state \<Rightarrow> sys_event list \<Rightarrow> sys_state \<Rightarrow> bool" where
  nil: "sys_run c [] c"
| cons: "sys_step c ev c' \<Longrightarrow> sys_run c' evs c'' \<Longrightarrow> sys_run c (ev # evs) c''"

text \<open>
  What every file holds: each database file unique identifiers and importances in
  [0, 1], each log file entries whose records have importances in [0, 1]; and what every
  process holds: a configuration in range.
\<close>

definition files_ok :: "file_system \<Rightarrow> bool" where
  "files_ok fs \<longleftrightarrow>
     (\<forall>p t. fs_db fs p = Some t \<longrightarrow> store_inv t \<and> list_all unit_importance t) \<and>
     (\<forall>p. list_all entry_ok (fs_wal fs p))"

definition cfg_ok :: "engine \<Rightarrow> bool" where
  "cfg_ok s \<longleftrightarrow> 0 \<le> e_decayRate s \<and> 0 \<le> e_preserveImportanceThreshold s \<and> e_preserveImportanceThreshold s \<le> 1"

fun sys_event_ok :: "sys_event \<Rightarrow> bool" where
  "sys_event_ok (Spawn s0) = True"
| "sys_event_ok (Step i op) = op_ok op"

section \<open>Lemmas\<close>

text \<open>
  What a process starts from: its database's table with the shared log replayed over it
  (\<open>cli_engine\<close> recovers before the command runs).
\<close>

lemma cli_process_start:
  assumes "engine_paths None None envDb cwd = (dbp, walp)" and "fs_wal fs walp \<noteq> []"
  shows "e_store (cli_engine (s0\<lparr>e_store := new_SQLiteStore (fs_db fs dbp), e_dbPath := dbp, e_wal := fs_wal fs walp, e_walPath := walp\<rparr>)) =
         replay (fs_wal fs walp) (new_SQLiteStore (fs_db fs dbp))"
  using assms by (simp add: cli_engine_def restart_def recoverWal_def flushWal_def Let_def)

lemma engine_inv_attach: "files_ok fs \<Longrightarrow> cfg_ok s \<Longrightarrow> engine_inv (attach fs s)"
  by (auto simp: files_ok_def cfg_ok_def engine_inv_def attach_def new_SQLiteStore_def store_inv_def store_ids_def
      split: option.splits)

lemma files_ok_detach: "engine_inv s \<Longrightarrow> files_ok fs \<Longrightarrow> files_ok (detach s fs)"
  by (auto simp: files_ok_def engine_inv_def detach_def)

lemma cfg_ok_engine_inv: "engine_inv s \<Longrightarrow> cfg_ok s"
  by (simp add: engine_inv_def cfg_ok_def)

lemma engine_inv_spawn: "files_ok fs \<Longrightarrow> engine_inv (cli_engine (attach fs s0))"
  unfolding cli_engine_def
  by (rule engine_inv_restart) (auto simp: files_ok_def engine_inv_def attach_def new_SQLiteStore_def store_inv_def store_ids_def
      split: option.splits)

lemma sys_step_inv:
  assumes "sys_step c ev c'" and "files_ok (snd c)" and "list_all cfg_ok (fst c)" and "sys_event_ok ev"
  shows "files_ok (snd c') \<and> list_all cfg_ok (fst c')"
  using assms
proof cases
  case (spawn s fs s0 ps)
  then show ?thesis using assms(2,3) engine_inv_spawn [of fs s0]
    by (simp add: files_ok_detach cfg_ok_engine_inv)
next
  case (step i ps op fs s' fs')
  have "engine_inv (attach fs (ps ! i))"
    using step assms(2,3) by (intro engine_inv_attach) (simp_all add: list_all_length)
  then have inv: "engine_inv (engine_step op (attach fs (ps ! i)))"
    using step assms(4) by (simp add: engine_inv_step)
  then show ?thesis using step assms(2,3)
    by (auto simp: proc_op_def Let_def files_ok_detach cfg_ok_engine_inv list_all_length nth_list_update)
qed

lemma spawn_table:
  assumes "sys_step (ps, fs) (Spawn s0) (ps', fs')"
  shows "ps' = ps @ [cli_engine (attach fs s0)] \<and>
         fs_db fs' (e_dbPath s0) = Some (replay (fs_wal fs (e_walPath s0)) (new_SQLiteStore (fs_db fs (e_dbPath s0))))"
  using assms
  by cases (simp_all add: detach_def cli_engine_def restart_def recoverWal_def flushWal_def attach_def Let_def)

section \<open>Properties\<close>

text \<open>
  Processes running at the same time on shared files keep every file well formed:
  under any interleaving of the operations of live processes (adds with importance in
  [0, 1]) and of new processes that recover from the log, every database file keeps unique
  identifiers and importances in [0, 1], and every log entry holds a record with importance
  in [0, 1].
\<close>

theorem concurrent_processes_inv:
  assumes "sys_run c0 evs c" and "files_ok (snd c0)" and "list_all cfg_ok (fst c0)" and "list_all sys_event_ok evs"
  shows "(\<forall>p t. fs_db (snd c) p = Some t \<longrightarrow> store_inv t \<and> list_all unit_importance t) \<and>
         (\<forall>p. list_all entry_ok (fs_wal (snd c) p))"
proof -
  have "files_ok (snd c) \<and> list_all cfg_ok (fst c)"
    using assms by (induction rule: sys_run.induct) (simp_all add: sys_step_inv)
  then show ?thesis by (simp add: files_ok_def)
qed

text \<open>
  C25: A process started while another runs on the same database and log undoes the live
  process's writes that the log does not hold: its recovery replays the shared log into the
  shared database, so for a record the log still touches, the live process, whatever it has
  done to the record since (a boost of \<open>get\<close> or \<open>search\<close>, a decayed importance, a prune),
  afterwards reads the logged record, and its next \<open>get\<close> boosts the logged importance.
\<close>

theorem spawn_reverts_live_process:
  assumes "sys_step (ps, fs) (Spawn s0) (ps', fs')" and "i < length ps"
    and "e_dbPath (ps ! i) = e_dbPath s0"
    and "log_effect (fs_wal fs (e_walPath s0)) k = Some (Some m)"
  shows "ps' ! i = ps ! i \<and> store_lookup (e_store (attach fs' (ps' ! i))) k = Some m \<and>
         fst (engine_get now k (attach fs' (ps' ! i))) =
           Some (m\<lparr>lastAccessed := now, importance := min 1 (importance m + 0.02)\<rparr>)"
proof -
  have ps': "ps' ! i = ps ! i" using spawn_table [OF assms(1)] assms(2) by (simp add: nth_append)
  have db: "fs_db fs' (e_dbPath s0) = Some (replay (fs_wal fs (e_walPath s0)) (new_SQLiteStore (fs_db fs (e_dbPath s0))))"
    using spawn_table [OF assms(1)] by simp
  have "store_lookup (e_store (attach fs' (ps' ! i))) k = Some m"
    using assms(3,4) by (simp add: ps' db attach_def new_SQLiteStore_def replay_lookup)
  then show ?thesis
    by (simp add: ps' engine_get_def getMemory_refines Let_def)
qed

text \<open>
  C24: The log path ignores the database path: after a CLI process with \<open>MEMORY_DB_PATH=a\<close> adds a record, the next CLI process in the same directory, whatever its database \<open>b\<close>, replays the shared log into \<open>b\<close>, so \<open>b\<close> then holds the record added to \<open>a\<close>.
\<close>

theorem shared_log_crosses_databases:
  assumes "cli_process host now envPort (Some a) cwd (CmdAdd txt cat tgs imp) s0 fs = (Inr (OutMemory m), fs1)"
  shows "\<exists>t. fs_db (snd (cli_process host' now' envPort' (Some b) cwd (CmdList None None None None) s0' fs1)) b = Some t \<and>
             store_lookup t (mem_id m) = Some m"
proof -
  let ?w = "DEFAULT_WAL_PATH cwd"
  let ?s = "s0\<lparr>e_store := new_SQLiteStore (fs_db fs a), e_dbPath := a, e_wal := fs_wal fs ?w, e_walPath := ?w\<rparr>"
  obtain r s' where run: "cli_add host now txt cat tgs imp (cli_engine ?s) = (r, s')"
    by (cases "cli_add host now txt cat tgs imp (cli_engine ?s)")
  have fs1: "fs1 = fs\<lparr>fs_db := (fs_db fs)(a \<mapsto> e_store s'), fs_wal := (fs_wal fs)(?w := e_wal s')\<rparr>"
    and r: "r = Inr (OutMemory m)"
    using assms run by (simp_all add: cli_process_def engine_paths_def cli_main_def)
  obtain input where add: "engine_addMemory now input (cli_engine ?s) = (Inr m, s')"
    using cli_add_OutMemory run r by blast
  have e: "e_wal (cli_engine ?s) = [] \<and> e_walPending (cli_engine ?s) = 0 \<and> e_walFlushThreshold (cli_engine ?s) = 20"
    by (simp add: cli_engine_def restart_def recoverWal_def flushWal_def Let_def)
  then have w: "e_wal s' = [add_entry now m]"
    using engine_addMemory_logs [OF add] by simp
  let ?s2 = "s0'\<lparr>e_store := new_SQLiteStore (fs_db fs1 b), e_dbPath := b, e_wal := fs_wal fs1 ?w, e_walPath := ?w\<rparr>"
  have "e_store (cli_engine ?s2) = upsertMemory m (new_SQLiteStore (fs_db fs1 b))"
    by (simp add: cli_engine_def restart_def recoverWal_def flushWal_def Let_def fs1 w)
  then show ?thesis
    by (auto simp: cli_process_def engine_paths_def cli_main_def Let_def upsertMemory_refines
        split: prod.split dest: cli_list_state)
qed

end
