(* ===== verification/Spec2Isabelle.thy ===== *)
theory Spec2Isabelle
  imports Cli Interleaving Processes
begin

text \<open>
  \<^bold>\<open>A verification development of the mizan memory engine.\<close>

  \<^bold>\<open>The program.\<close> \<open>src/src/index.ts\<close> (class \<open>MemoryEngine\<close>) orchestrates a SQLite
  record store (\<open>src/src/store.ts\<close>), a write-ahead log file (\<open>src/src/wal.ts\<close>), an
  embedding client with cosine similarity (\<open>src/src/embeddings.ts\<close>), a search ranker
  (\<open>src/src/search.ts\<close>), an importance decay function (\<open>src/src/decay.ts\<close>) and a
  compaction planner (\<open>src/src/summarizer.ts\<close>), over the data types of
  \<open>src/src/types.ts\<close>. Writes validate, embed, log the intent, then apply it to the
  table, and every twentieth write clears the log; reads (\<open>get\<close>, \<open>search\<close>) boost
  importance and refresh the access time in the table without logging; maintenance
  (\<open>decay\<close>, \<open>summarize\<close>) rewrites importances, prunes, and replays compaction plans
  through the normal add and delete paths; the constructor replays the log with upserts and
  deletes and clears it. Two front ends drive the engine: a command line
  (\<open>src/src/cli.ts\<close>), one process per command, and an HTTP server
  (\<open>src/src/server.ts\<close>), one engine for all requests; both parse their string
  arguments into the engine's options.

  \<^bold>\<open>The library.\<close> Each theory models one source file, in the order the code has it:
  \<^item> \<open>Prelude\<close>: type names (\<open>time\<close> = \<open>int\<close> epoch milliseconds, \<open>memory_id\<close> =
    \<open>string\<close>), named collections, generic list lemmas.
  \<^item> \<open>Js_Runtime\<close>: the ECMAScript built-ins the code calls (\<open>slice(0, n)\<close>, \<open>trim\<close>,
    \<open>toLowerCase\<close>, \<open>split\<close>, \<open>includes\<close>, \<open>join\<close>), with their JavaScript
    behaviour on negative ends, separators and empty strings; JavaScript numbers
    (\<open>js_number\<close>: a real or \<open>NaN\<close>) with truthiness and \<open>ToIntegerOrInfinity\<close>; the
    host functions \<open>Number\<close> and \<open>Date.parse\<close> as the record \<open>js_host\<close>.
  \<^item> \<open>Memory_Types\<close>: \<open>types.ts\<close> as a datatype of categories (an \<open>enum\<close> instance),
    records \<open>memory_record\<close>, \<open>memory_input\<close>, option bags and the error datatype
    \<open>engine_error\<close>; the category parse of \<open>CATEGORIES.has\<close>.
  \<^item> \<open>Store\<close>: the table as its rows in rowid order; one function per statement of
    \<open>SQLiteStore\<close>, returning \<open>engine_error + _\<close> where SQLite can reject it;
    \<open>listMemories\<close> with the SQL it builds (truthiness of options, \<open>ORDER BY\<close>,
    \<open>LIMIT\<close>/\<open>OFFSET\<close>) and the tag filter after it; \<open>store_lookup\<close> abstracts a
    table to a map and every statement is proved to be a map update (C10, C11), listing is
    sorted and sound (C12) and fails exactly for \<open>OFFSET\<close> without \<open>LIMIT\<close> or for a
    limit or offset that is not an integer (C13), and tags are filtered after \<open>LIMIT\<close>: a
    limited listing with tags is the tag filter of the first rows of the listing without
    them (C14). The numeric options arrive as JavaScript
    numbers, as the front ends pass them. The rows themselves (\<open>memory_row\<close>, the
    schema of \<open>init\<close>) hold tags and embedding as JSON text: \<open>serialize\<close> and
    \<open>deserialize\<close> with a JSON codec as parameter, and the lemmas that reading back
    the rows of a table gives its records (\<open>getMemory_row_refines\<close>,
    \<open>getAllMemories_row_refines\<close>, \<open>upsertMemory_row_refines\<close>).
  \<^item> \<open>Wal\<close>: the log file as \<open>string option\<close> with \<open>JSON.stringify\<close>/\<open>JSON.parse\<close>
    as parameters; the file refines the list of entries (\<open>wal_encode\<close>; \<open>appendAdd\<close>
    and \<open>appendDelete\<close> on it append to the list, which is how the engine keeps its log),
    and a file built
    by \<open>append\<close> from a cleared or missing file reads back as the appended entries (C15).
  \<^item> \<open>Decay\<close>: \<open>applyDecay\<close> over \<open>real\<close> with \<open>exp\<close>: bounds, monotonicity in time and
    the raise of a record below the floor (C27), clock skew.
  \<^item> \<open>Embeddings\<close>: the client (the service is a parameter of the client record) and
    \<open>cosineSimilarity\<close> as the source's accumulation loop, proved equal to the formula
    over \<open>dot_list\<close>, bounded by Cauchy-Schwarz and meeting the specification's
    values: 1 on itself, 0 on orthogonal and on degenerate input (C23).
  \<^item> \<open>Search\<close>: \<open>keywordScore\<close> and \<open>semanticSearch\<close> with the stable sort as
    \<open>sort_key\<close>: ordering and top-k (C21, C22), stable ties, result length, score
    bounds, and the empty table short cut.
  \<^item> \<open>Summarizer\<close>: \<open>buildSummaries\<close> with the JavaScript \<open>Map\<close> as an insertion-ordered
    association list: safety, group size, oldest first, completeness (C16 to C19), and the
    scenario of the specification as a lemma.
  \<^item> \<open>Engine\<close>: the engine state as a record, every public method and private helper of
    \<open>MemoryEngine\<close> returning its result with the state after the call (a thrown
    exception keeps the changes made before it), the log replay of \<open>recoverWal\<close>, the
    constructor (\<open>new_MemoryEngine\<close>: the paths from the options, \<open>MEMORY_DB_PATH\<close> and
    the defaults by \<open>engine_paths\<close>, the key from the options or \<open>OPENAI_API_KEY\<close>, the
    database and log files by path, then recovery), a process restart, the datatype \<open>engine_op\<close> of the public operations with
    \<open>engine_step\<close> and \<open>engine_run\<close>. Proved: crash recovery from any prefix of the
    log to the last-writer semantics of the log, with unique identifiers (C1), log-then-apply for add and delete (C2, C3), the invariant of unique
    identifiers and importances in [0, 1] over every run (C4), error atomicity of add and
    its one exception (C6, C7), the boost, view and single-row write of \<open>get\<close> (C8), input validation (C9),
    the bound of the pending-write counter below the flush threshold (C35), and that a
    restart undoes every unlogged change to a record the log touches (C5), the
    specification's add, get, list and delete scenario for every successful add (C31), and
    the report of \<open>health()\<close>: it gives the resolved database and log paths and the row count
    through every run (C28). The loops of
    \<open>summarize\<close> keep every property that \<open>addMemory\<close> and \<open>delete\<close> keep
    (\<open>apply_plans_preserves\<close>), which carries both invariants through compaction.
    \<open>addMemory\<close> and \<open>search\<close> are also split at their \<open>await\<close> into the part
    before it and the continuation (\<open>add_begin\<close>/\<open>add_resume\<close>,
    \<open>search_begin\<close>/\<open>search_resume\<close>), proved to compose to the method
    (\<open>engine_addMemory_split\<close>, \<open>search_split\<close>).
  \<^item> \<open>Server\<close>: the query parsers of \<open>server.ts\<close>, the routes as the datatype
    \<open>http_request\<close>, responses as status and body, and \<open>server_handle\<close>, the route
    handlers over the engine. Proved: every response is well formed (C33), and a \<open>DELETE\<close>
    of a missing identifier answers 404 after logging a delete entry (C34).
  \<^item> \<open>Cli\<close>: the parsers of \<open>cli.ts\<close> (\<open>parseCategory\<close>, \<open>parseTags\<close>,
    \<open>parseDurationMs\<close> with its regular expression), the commands as the datatype
    \<open>cli_command\<close>, each command's action over the engine and \<open>cli_main\<close>, one
    process: recovery by \<open>new MemoryEngine()\<close> with the default options, then the action.
    Proved: the tag parser's round trip (C30), the exact language and value of
    \<open>parseDurationMs\<close>, and that the CLI, the server and the engine agree on
    categories and tags (C32).
  \<^item> \<open>Interleaving\<close>: concurrent requests of the server. Node runs one handler at a
    time, but the \<open>async\<close> handlers of \<open>POST /memories\<close>, search and summarize stop
    at every embedding call and other requests run meanwhile. A suspended handler is a
    \<open>job\<close>; \<open>srv_begin\<close> runs a request to its first await or its response,
    \<open>srv_resume\<close> resumes a job (for \<open>summarize\<close>, one iteration of its loop), and the
    server is the labelled step relation \<open>srv_step\<close> over \<open>server_state\<close> (engine,
    pending jobs by request number, responses sent) with runs \<open>srv_run\<close> and the
    executable event loop \<open>srv_exec\<close>. Proved: under every interleaving identifiers stay
    unique, importances stay in [0, 1] and each request is exactly once pending or answered
    (C20); resuming the pending handlers answers them all (C29); a search resumed after
    other requests overwrites their changes to the importance of the records it returns
    (C26). Lemmas: run without interleaving, the split handlers are the atomic ones
    (\<open>handlers_refine_atomic\<close>), and a suspended handler answers within \<open>job_size\<close>
    resumptions (\<open>drive_terminates\<close>).
  \<^item> \<open>Processes\<close>: the program over files. \<open>cli_process\<close> is one CLI command as a
    process over a \<open>file_system\<close> of database tables and log files: open at its paths,
    recover, run, leave the files. Processes at the same time on shared files (a server and
    CLI commands started while it runs) are the step relation \<open>sys_step\<close> over the live
    processes and the files: a live process holds no copy of the data (\<open>attach\<close> gives it
    the files before each public operation, \<open>detach\<close> writes them back), and a new process
    recovers from the shared log. Proved: a process started while another runs replays the
    shared log over the live process's unlogged writes (C25); a record added by a CLI
    process on one database reaches the database of the next CLI process in the same
    directory, since the log path ignores the database path (C24). Lemma: every
    interleaving keeps every database file and log file well formed
    (\<open>concurrent_processes_inv\<close>).
  \<^item> This theory: test fixtures and evaluated scenarios of the findings: two overlapping
    summarize requests that summarize one group twice; two CLI processes on different
    databases that share the log file; the lost update of a search's boost under one
    schedule (0.53 where the requests one after the other give 0.55); a CLI command started
    while the server runs, which writes the logged record back over the server's boost; a
    restart that undoes the boost of \<open>get\<close>; a listing where tag filtering after
    \<open>LIMIT\<close> hides the matching record; and one witness per claim with hypotheses.

  \<^bold>\<open>Choices of the model.\<close> JavaScript numbers are \<open>int\<close> for milliseconds,
  \<open>real\<close> for importance, scores and vectors, and \<open>js_number\<close> where the code passes a
  number it has parsed from a string (limits, offsets, time bounds): IEEE rounding,
  infinities and the sign of zero are not modelled.
  \<open>Date.now()\<close> is one argument \<open>now\<close> per operation; \<open>crypto.randomUUID()\<close> is a
  sequence in the engine state; \<open>toISOString\<close>, the JSON codec and the embedding service
  are parameters. Loops over lists are structural recursion. The one fuelled function,
  \<open>drive\<close> (resume a job until it answers), gets \<open>job_size\<close> resumptions, which
  \<open>drive_terminates\<close> proves enough: each resumption of \<open>summarize\<close> consumes one plan. Every function of
  the model is total and executable but \<open>applyDecay\<close> and
  \<open>cosineSimilarity\<close> (\<open>exp\<close>, \<open>sqrt\<close>). Strings are 8-bit character lists; white
  space and case mapping are their ASCII parts.

  \<^bold>\<open>Not modelled.\<close> The argument parsing of \<open>commander\<close> and the URL matching and
  JSON body parsing of Express (the models start from the parsed command and the matched
  route); printing and \<open>listen\<close>; \<open>close()\<close> (the CLI calls it as the last action of
  a process and the server never does, so no statement runs on a closed connection, and
  every statement has committed its data before it); paths as strings beyond
  \<open>path.resolve\<close> from an absolute working directory, and the directories \<open>ensureDir\<close>
  creates; a CLI \<open>--importance\<close> value
  which is not a number (the run ends in \<open>CliNaNImportance\<close>: a \<open>NaN\<close> importance has no
  real value); request bodies whose fields do not have the types of \<open>MemoryInput\<close>; the
  internals of SQLite beyond the statements' results, its file, pragma and indexes;
  processes on the same files interleaved inside one public operation (\<open>Processes\<close>
  interleaves them at operation boundaries; the awaits inside the server's handlers are
  modelled in \<open>Interleaving\<close>). In \<open>Interleaving\<close> the embedding service answers a suspended call with
  its result for the text, whenever the job is resumed; timeouts and cancellation are not
  modelled (the code has none).

  \<^bold>\<open>What remains.\<close> Every function and method under \<open>src/src\<close> is modelled
  but \<open>close()\<close> and the I/O listed above; the lines left out of the map are imports,
  \<open>close()\<close> and the module entry points (\<open>require.main === module\<close>). The model of
  JavaScript numbers is the limit of what is proved about \<open>NaN\<close> importances and IEEE
  rounding.
\<close>

section \<open>Fixtures\<close>

definition demo_client :: embeddings_client where
  "demo_client = \<lparr>has_client = True, embeddings_api = (\<lambda>_. ApiData (Some [1, 0]))\<rparr>"

definition demo_engine :: engine where
  "demo_engine =
     \<lparr>e_store = [], e_dbPath = ''/w/memory.db'', e_wal = [], e_walPath = ''/w/memory.wal'', e_embeddings = demo_client,
      e_decayRate = 0.05, e_summaryThreshold = 200, e_preserveImportanceThreshold = 0.7,
      e_walFlushThreshold = 20, e_walPending = 0, e_uuids = (\<lambda>n. ''m''), e_uuidNext = 0,
      e_toISO = (\<lambda>_. [])\<rparr>"

text \<open>\<open>new MemoryEngine()\<close> with \<open>MEMORY_DB_PATH=/b.db\<close> and an API key, in \<open>/w\<close>, no files yet.\<close>

definition demo_options :: memory_engine_options where
  "demo_options = \<lparr>opt_dbPath = None, opt_walPath = None, opt_openaiApiKey = None, opt_embeddingModel = None,
     opt_decayRate = None, opt_summaryThreshold = None, opt_preserveImportanceThreshold = None\<rparr>"

definition demo_input :: memory_input where
  "demo_input = \<lparr>input_content = ''x'', input_category = ''fact'', input_tags = None,
     input_timestamp = None, input_importance = None\<rparr>"

definition demo_row :: "memory_id \<Rightarrow> real list \<Rightarrow> string list \<Rightarrow> time \<Rightarrow> real \<Rightarrow> memory_record" where
  "demo_row i emb tgs ts imp = \<lparr>mem_id = i, content = ''c'', category = Fact, tags = tgs, timestamp = ts,
     importance = imp, embedding = emb, lastAccessed = ts\<rparr>"

definition demo_list_options :: "string list option \<Rightarrow> js_number option \<Rightarrow> list_options" where
  "demo_list_options tgs l = \<lparr>lo_category = None, lo_tags = tgs, lo_since = None, lo_until = None,
     lo_limit = l, lo_offset = None\<rparr>"

definition demo_rec :: memory_record where
  "demo_rec = \<lparr>mem_id = ''m'', content = ''x'', category = Fact, tags = [], timestamp = 0,
     importance = 0.5, embedding = [1, 0], lastAccessed = 0\<rparr>"

definition demo_added :: engine where
  "demo_added = demo_engine\<lparr>e_store := [demo_rec], e_wal := [add_entry 0 demo_rec], e_walPending := 1,
     e_uuidNext := 1\<rparr>"

definition demo_tag_table :: store_table where
  "demo_tag_table = [demo_row ''a'' [1, 0] [''t''] 1 0.5, demo_row ''b'' [1, 0] [] 2 0.5]"

definition demo_search_table :: store_table where
  "demo_search_table = [demo_row ''a'' [1, 0] [] 1 0.5, demo_row ''b'' [0, 1] [] 2 0.5]"

definition demo_search_options :: search_options where
  "demo_search_options = \<lparr>so_limit = Some (Num 1), so_category = None, so_tags = None, so_keyword = None\<rparr>"

definition demo_crashed :: engine where
  "demo_crashed = demo_engine\<lparr>e_wal := [add_entry 0 demo_rec]\<rparr>"

definition demo_deleted :: engine where
  "demo_deleted = demo_added\<lparr>e_store := [], e_wal := [add_entry 0 demo_rec, delete_entry 1 ''m''],
     e_walPending := 2\<rparr>"

definition demo_nokey :: engine where
  "demo_nokey = demo_engine\<lparr>e_embeddings := demo_client\<lparr>has_client := False\<rparr>\<rparr>"

definition demo_facts :: "memory_record list" where
  "demo_facts =
     [\<lparr>mem_id = ''f1'', content = ''a'', category = Fact, tags = [], timestamp = 1, importance = 0.3,
        embedding = [1], lastAccessed = 1\<rparr>,
      \<lparr>mem_id = ''f2'', content = ''b'', category = Fact, tags = [], timestamp = 2, importance = 0.2,
        embedding = [1], lastAccessed = 2\<rparr>,
      \<lparr>mem_id = ''f3'', content = ''c'', category = Fact, tags = [], timestamp = 3, importance = 0.9,
        embedding = [1], lastAccessed = 3\<rparr>]"

definition demo_summarize_options :: summarize_options where
  "demo_summarize_options = \<lparr>maxGroupSize = 12, preserveImportanceThreshold = 0.7\<rparr>"

definition demo_plan :: summary_plan where
  "demo_plan = \<lparr>summary = \<lparr>input_content = ''Summary (fact)  - : a b'', input_category = ''fact'',
     input_tags = Some [''summary''], input_timestamp = Some 5, input_importance = Some 0.7\<rparr>,
     sourceIds = [''f1'', ''f2'']\<rparr>"

definition demo_results :: "search_result list" where
  "demo_results = [\<lparr>sr_memory = demo_row ''a'' [1, 0] [] 1 0.5, score = 0.8\<rparr>]"

definition demo_host :: js_host where
  "demo_host = \<lparr>js_Number = (\<lambda>_. NaN), js_Date_parse = (\<lambda>_. NaN)\<rparr>"

definition demo_decay_options :: decay_options where
  "demo_decay_options = \<lparr>decayRate = 0.05, minimumImportance = 0.05\<rparr>"

text \<open>
  A server holding \<open>demo_rec\<close>, a search for its content, and the schedule in which the
  search suspends at its embedding call, a \<open>GET\<close> of the record runs, and the search
  resumes; \<open>demo_final\<close> is the server after that schedule.
\<close>

definition demo_server :: server_state where
  "demo_server = \<lparr>srv_engine = demo_added, srv_pending = [], srv_answered = [], srv_next = 0\<rparr>"

definition demo_search_req :: http_request where
  "demo_search_req = GetSearch (Some ''x'') None None None"

definition demo_search_job :: search_job where
  "demo_search_job = \<lparr>sj_query = ''x'',
     sj_opts = \<lparr>so_limit = None, so_category = None, so_tags = None, so_keyword = Some ''x''\<rparr>,
     sj_snapshot = [demo_rec]\<rparr>"

definition demo_schedule :: "srv_event list" where
  "demo_schedule = [Arrive 1 demo_search_req, Arrive 2 (GetMemory ''m''), Resume 3 0]"

definition demo_final :: server_state where
  "demo_final =
     \<lparr>srv_engine = demo_added\<lparr>e_store := [demo_rec\<lparr>lastAccessed := 3, importance := 0.53\<rparr>]\<rparr>,
      srv_pending = [],
      srv_answered =
        [(1, \<lparr>status = 200, resp_body = JMemory (demo_rec\<lparr>lastAccessed := 2, importance := 0.52\<rparr>)\<rparr>),
         (0, \<lparr>status = 200,
              resp_body = JResults [\<lparr>sr_memory = demo_rec, score = search_score [1, 0] ''x'' demo_rec\<rparr>]\<rparr>)],
      srv_next = 2\<rparr>"

definition demo_fs :: file_system where
  "demo_fs = \<lparr>fs_db = (\<lambda>_. None), fs_wal = (\<lambda>_. [])\<rparr>"

definition demo_num_host :: js_host where
  "demo_num_host = \<lparr>js_Number = (\<lambda>s. if s = ''0.5'' then Num 0.5 else NaN), js_Date_parse = (\<lambda>_. NaN)\<rparr>"

text \<open>
  An engine holding \<open>demo_facts\<close> with summary threshold 3 and distinct identifiers for
  the summaries it will add.
\<close>

definition demo_sum_engine :: engine where
  "demo_sum_engine = demo_engine\<lparr>e_store := demo_facts, e_summaryThreshold := 3,
     e_uuids := (\<lambda>n. if n = 0 then ''s1'' else ''s2'')\<rparr>"

definition demo_sum_job :: add_job where
  "demo_sum_job = \<lparr>aj_time = 5, aj_input = summary demo_plan, aj_category = Fact\<rparr>"

text \<open>
  The files after a server process added \<open>demo_rec\<close> and boosted it by a \<open>get\<close>,
  the server process itself, and the files after a CLI process then started on them.
\<close>

definition demo_fs_live :: file_system where
  "demo_fs_live = \<lparr>fs_db = (\<lambda>_. None)(''/w/memory.db'' \<mapsto> [demo_rec\<lparr>lastAccessed := 1, importance := 0.52\<rparr>]),
                    fs_wal = (\<lambda>_. [])(''/w/memory.wal'' := [add_entry 0 demo_rec])\<rparr>"

definition demo_live :: engine where
  "demo_live = demo_added\<lparr>e_store := [demo_rec\<lparr>lastAccessed := 1, importance := 0.52\<rparr>]\<rparr>"

definition demo_fs_recovered :: file_system where
  "demo_fs_recovered = \<lparr>fs_db = (\<lambda>_. None)(''/w/memory.db'' \<mapsto> [demo_rec]),
                         fs_wal = (\<lambda>_. [])(''/w/memory.wal'' := [])\<rparr>"

section \<open>Evaluation of the fixtures\<close>

lemma demo_input_valid: "assertValidInput demo_input = Inr Fact"
  by (simp add: assertValidInput_def demo_input_def js_trim_def is_js_space_def category_of_string_def
      CATEGORIES_def)

lemma demo_fresh_new:
  "new_MemoryEngine demo_options (Some ''/b.db'') (Some ''k'') ''/w'' (\<lambda>_ _. ApiData (Some [1, 0])) (\<lambda>n. ''m'')
     (\<lambda>_. []) (\<lambda>_. None) (\<lambda>_. None) (\<lambda>_. None) = Inr (demo_engine\<lparr>e_dbPath := ''/b.db''\<rparr>)"
  by (simp add: new_MemoryEngine_def demo_options_def engine_paths_def DEFAULT_WAL_PATH_def ensureDir_def
      readAll_def new_SQLiteStore_def new_EmbeddingsClient_def recoverWal_def demo_engine_def demo_client_def)

lemma demo_add: "engine_addMemory 0 demo_input demo_engine = (Inr demo_rec, demo_added)"
  unfolding engine_addMemory_def demo_input_valid
  by (simp add: demo_input_def demo_engine_def demo_client_def embedText_def js_trim_def is_js_space_def
      store_addMemory_def store_ids_def maybeFlushWal_def demo_rec_def demo_added_def Let_def)

lemma demo_get:
  "engine_get t ''m'' demo_added =
     (Some (demo_rec\<lparr>lastAccessed := t, importance := 0.52\<rparr>),
      demo_added\<lparr>e_store := [demo_rec\<lparr>lastAccessed := t, importance := 0.52\<rparr>]\<rparr>)"
  by (simp add: engine_get_def demo_added_def demo_rec_def getMemory_def updateImportance_def
      updateAccess_def Let_def)

lemma demo_delete: "engine_delete 1 ''m'' demo_added = (Inr True, demo_deleted)"
  by (simp add: engine_delete_def demo_added_def demo_deleted_def demo_rec_def deleteMemory_def
      maybeFlushWal_def demo_engine_def Let_def)

lemma demo_added_replay: "e_store demo_added = replay (e_wal demo_added) []"
  by (simp add: demo_added_def upsertMemory_def store_ids_def)

lemma demo_engine_inv: "engine_inv demo_engine"
  by (simp add: engine_inv_def demo_engine_def store_inv_def store_ids_def)

lemma demo_facts_plans: "buildSummaries (\<lambda>_. []) 5 demo_facts demo_summarize_options = Inr [demo_plan]"
  by (simp add: buildSummaries_def summary_input_def summarizeText_def summary_snippet_def js_trim_def
      is_js_space_def Let_def demo_facts_def demo_summarize_options_def demo_plan_def)

lemma demo_search:
  "semanticSearch demo_search_table demo_client ''q'' demo_search_options = Inr demo_results"
proof -
  have kw: "keywordScore (demo_row i e [] ts x) ''q'' = 0" for i e ts x
    by (simp add: keywordScore_def query_tokens_def demo_row_def js_lower_def js_lower_char_def
        is_js_space_def)
  have sa: "search_score [1, 0] ''q'' (demo_row ''a'' [1, 0] [] 1 (1 / 2)) = 0.8"
    by (simp add: search_score_def kw) (simp add: cosineSimilarity_def demo_row_def)
  have sb: "search_score [1, 0] ''q'' (demo_row ''b'' [0, 1] [] 2 (1 / 2)) = 0"
    by (simp add: search_score_def kw) (simp add: cosineSimilarity_def demo_row_def)
  show ?thesis
    by (simp add: semanticSearch_def demo_search_table_def getAllMemories_def demo_client_def embedText_def
        demo_search_options_def search_candidates_def tag_filter_def sa sb Let_def
        demo_results_def)
qed

lemma demo_search_begin:
  "srv_begin demo_host 1 demo_search_req demo_added = Await (SearchJob demo_search_job) demo_added"
  by (simp add: demo_search_req_def search_begin_def getAllMemories_def Let_def demo_added_def demo_engine_def
      js_trim_def is_js_space_def query_number_def js_truthy_str_def server_parseCategory_def
      server_parseTags_def demo_search_job_def)

lemma demo_boost:
  "apply_search_boosts now [\<lparr>sr_memory = demo_rec, score = x\<rparr>] [demo_rec\<lparr>lastAccessed := t, importance := y\<rparr>] =
   [demo_rec\<lparr>lastAccessed := now, importance := 0.53\<rparr>]"
  by (simp add: demo_rec_def updateAccess_def updateImportance_def)

lemma demo_search_resume:
  "srv_resume 3 (SearchJob demo_search_job)
     (demo_added\<lparr>e_store := [demo_rec\<lparr>lastAccessed := 2, importance := 13 / 25\<rparr>]\<rparr>) =
   Respond (\<lparr>status = 200,
             resp_body = JResults [\<lparr>sr_memory = demo_rec, score = search_score [1, 0] ''x'' demo_rec\<rparr>]\<rparr>,
            demo_added\<lparr>e_store := [demo_rec\<lparr>lastAccessed := 3, importance := 0.53\<rparr>]\<rparr>)"
  by (simp add: search_resume_def demo_search_job_def embedText_def demo_added_def demo_engine_def demo_client_def
      search_limit_def search_candidates_def tag_filter_def search_ranking_def js_slice_prefix_def respond_def
      search_keyword_def Let_def demo_boost del: apply_search_boosts.simps)

lemma demo_interleaved: "srv_exec_run demo_host demo_schedule demo_server = Some demo_final"
  by (simp add: demo_schedule_def srv_exec_def demo_server_def demo_search_begin handle_get_def demo_get
      demo_search_resume extract_Cons_code demo_final_def del: srv_resume.simps)

lemma demo_process_add:
  "cli_process demo_num_host 0 None (Some ''/a.db'') ''/w'' (CmdAdd ''x'' ''fact'' None ''0.5'') demo_engine demo_fs =
     (Inr (OutMemory demo_rec),
      \<lparr>fs_db = (\<lambda>_. None)(''/a.db'' \<mapsto> [demo_rec]), fs_wal = (\<lambda>_. [])(''/w/memory.wal'' := [add_entry 0 demo_rec])\<rparr>)"
proof -
  have e: "cli_engine (demo_engine\<lparr>e_store := [], e_dbPath := p, e_wal := [], e_walPath := w\<rparr>) =
           demo_engine\<lparr>e_dbPath := p, e_walPath := w\<rparr>" for p w
    by (simp add: cli_engine_def restart_def recoverWal_def demo_engine_def)
  have a: "engine_addMemory 0 \<lparr>input_content = ''x'', input_category = ''fact'', input_tags = Some [],
             input_timestamp = None, input_importance = Some (1 / 2)\<rparr> (demo_engine\<lparr>e_dbPath := p, e_walPath := w\<rparr>) =
           (Inr demo_rec, demo_added\<lparr>e_dbPath := p, e_walPath := w\<rparr>)" for p w
    unfolding engine_addMemory_def
    by (simp add: assertValidInput_def js_trim_def is_js_space_def category_of_string_def CATEGORIES_def
        demo_engine_def demo_client_def embedText_def store_addMemory_def store_ids_def maybeFlushWal_def
        demo_rec_def demo_added_def Let_def)
  show ?thesis
    by (simp add: cli_process_def engine_paths_def DEFAULT_WAL_PATH_def demo_fs_def new_SQLiteStore_def
        cli_main_def e cli_add_def cli_parseCategory_def CLI_CATEGORIES_def category_of_string_def
        CATEGORIES_def demo_num_host_def cli_parseTags_def js_truthy_str_def a engine_outcome_def
        demo_added_def)
qed

lemma demo_sum_begin:
  "sum_begin 5 demo_sum_engine = Await (SumJob demo_sum_job demo_plan [] (0, 0)) demo_sum_engine"
proof -
  have b: "buildSummaries (e_toISO demo_sum_engine) 5 (getAllMemories (e_store demo_sum_engine))
             \<lparr>maxGroupSize = 12, preserveImportanceThreshold = e_preserveImportanceThreshold demo_sum_engine\<rparr> =
           Inr [demo_plan]"
    using demo_facts_plans by (simp add: demo_sum_engine_def demo_engine_def getAllMemories_def demo_summarize_options_def)
  have a: "add_begin 5 (summary demo_plan) = Inr demo_sum_job"
    by (simp add: add_begin_def assertValidInput_def demo_plan_def js_trim_def is_js_space_def
        category_of_string_def CATEGORIES_def demo_sum_job_def)
  show ?thesis
    using b a by (simp add: sum_begin_def store_count_def demo_sum_engine_def demo_engine_def demo_facts_def)
qed

lemma demo_twice:
  "map_option (\<lambda>c. map content (e_store (srv_engine c)))
     (srv_exec_run demo_host [Arrive 5 PostSummarize, Arrive 5 PostSummarize, Resume 5 0, Resume 5 1]
        \<lparr>srv_engine = demo_sum_engine, srv_pending = [], srv_answered = [], srv_next = 0\<rparr>) =
   Some [''c'', ''Summary (fact)  - : a b'', ''Summary (fact)  - : a b'']"
proof -
  have arr: "srv_exec_run demo_host [Arrive 5 PostSummarize, Arrive 5 PostSummarize]
        \<lparr>srv_engine = demo_sum_engine, srv_pending = [], srv_answered = [], srv_next = 0\<rparr> =
      Some \<lparr>srv_engine = demo_sum_engine,
            srv_pending = [(0, SumJob demo_sum_job demo_plan [] (0, 0)), (1, SumJob demo_sum_job demo_plan [] (0, 0))],
            srv_answered = [], srv_next = 2\<rparr>"
    by (simp add: srv_exec_def demo_sum_begin)
  have sched: "[Arrive 5 PostSummarize, Arrive 5 PostSummarize, Resume 5 0, Resume 5 1] =
      [Arrive 5 PostSummarize, Arrive 5 PostSummarize] @ [Resume 5 0, Resume 5 1]" by simp
  show ?thesis
    unfolding sched srv_exec_run_append arr option.case
    by (simp add: srv_exec_def extract_Cons_code add_resume_def demo_sum_job_def demo_plan_def
      demo_sum_engine_def demo_engine_def demo_client_def embedText_def js_trim_def is_js_space_def
      store_addMemory_def store_ids_def maybeFlushWal_def Let_def engine_delete_def deleteMemory_def
      demo_facts_def)
qed

section \<open>Scenarios across components\<close>

text \<open>
  The boost that \<open>get\<close> writes to the table is not logged, so a restart that replays
  the log overwrites it with the logged record: importance 0.52 after the read is 0.5 again
  after the restart.
\<close>

theorem restart_undoes_get_boost:
  "map_option importance (getMemory ''m'' (e_store (engine_run [OpAdd 0 demo_input, OpGet 1 ''m''] demo_engine)))
     = Some 0.52 \<and>
   map_option importance
     (getMemory ''m'' (e_store (engine_run [OpAdd 0 demo_input, OpGet 1 ''m'', OpRestart] demo_engine)))
     = Some 0.5"
proof -
  have run: "engine_run [OpAdd 0 demo_input, OpGet 1 ''m''] demo_engine =
    demo_added\<lparr>e_store := [demo_rec\<lparr>lastAccessed := 1, importance := 0.52\<rparr>]\<rparr>"
    by (simp add: demo_add demo_get)
  have run3: "engine_run [OpAdd 0 demo_input, OpGet 1 ''m'', OpRestart] demo_engine =
    restart (demo_added\<lparr>e_store := [demo_rec\<lparr>lastAccessed := 1, importance := 0.52\<rparr>]\<rparr>)"
    by (simp add: demo_add demo_get)
  show ?thesis
    unfolding run run3
    by (simp add: restart_def recoverWal_def flushWal_def getMemory_def demo_added_def demo_rec_def
        upsertMemory_def store_ids_def Let_def)
qed

text \<open>
  \<open>list\<close> applies the tag filter after \<open>LIMIT\<close>: with limit 1 the newest record
  fills the page and is dropped by the filter, so no record is listed although an older
  record carries the tag.
\<close>

lemma demo_tags_after_limit:
  "listMemories (demo_list_options (Some [''t'']) (Some (Num 1))) demo_tag_table = Inr [] \<and>
   listMemories (demo_list_options (Some [''t'']) None) demo_tag_table = Inr [demo_row ''a'' [1, 0] [''t''] 1 0.5]"
  by (simp add: listMemories_def demo_list_options_def demo_tag_table_def demo_row_def list_where_def
      sql_limit_offset_def sql_int_def tag_filter_def has_tags_def)


text \<open>
  Lost update between concurrent requests: a search that suspends at its embedding
  call boosts the records it returns from the importance its snapshot read, so the boost
  of a \<open>GET\<close> that ran meanwhile is overwritten (0.53 after the schedule), while the same
  two requests run one after the other leave 0.55.
\<close>

lemma demo_lost_boost:
  "srv_run demo_host demo_server demo_schedule demo_final \<and>
   map_option importance (getMemory ''m'' (e_store (srv_engine demo_final))) = Some 0.53 \<and>
   map_option importance
     (getMemory ''m'' (e_store (snd (server_handle demo_host 3 demo_search_req
                                       (snd (server_handle demo_host 2 (GetMemory ''m'') demo_added)))))) = Some 0.55"
proof (intro conjI)
  show "srv_run demo_host demo_server demo_schedule demo_final"
    by (rule srv_exec_run_sound [OF demo_interleaved])
  show "map_option importance (getMemory ''m'' (e_store (srv_engine demo_final))) = Some 0.53"
    by (simp add: demo_final_def getMemory_def demo_rec_def)
  have seq: "snd (server_handle demo_host 2 (GetMemory ''m'') demo_added) =
      demo_added\<lparr>e_store := [demo_rec\<lparr>lastAccessed := 2, importance := 0.52\<rparr>]\<rparr>"
    by (simp add: handle_get_snd demo_get)
  show "map_option importance
     (getMemory ''m'' (e_store (snd (server_handle demo_host 3 demo_search_req
                                       (snd (server_handle demo_host 2 (GetMemory ''m'') demo_added)))))) = Some 0.55"
    unfolding seq
    by (simp add: demo_search_req_def handle_search_def search_split search_begin_def getAllMemories_def Let_def
        js_trim_def is_js_space_def query_number_def js_truthy_str_def server_parseCategory_def
        server_parseTags_def search_resume_def embedText_def demo_added_def demo_engine_def demo_client_def
        search_limit_def search_candidates_def tag_filter_def search_ranking_def js_slice_prefix_def
        demo_rec_def updateAccess_def updateImportance_def getMemory_def)
qed

text \<open>
  Two CLI processes whose databases differ (\<open>MEMORY_DB_PATH\<close>) but that run in the
  same directory share one log file, since the log path ignores the database path: a record
  added to \<open>/a.db\<close> stays in the log, and the next process, on \<open>/b.db\<close>, replays it into
  its own database and lists it.
\<close>

lemma demo_shared_log:
  "fst (cli_process demo_num_host 0 None (Some ''/a.db'') ''/w'' (CmdAdd ''x'' ''fact'' None ''0.5'') demo_engine demo_fs)
     = Inr (OutMemory demo_rec) \<and>
   (let fs1 = snd (cli_process demo_num_host 0 None (Some ''/a.db'') ''/w'' (CmdAdd ''x'' ''fact'' None ''0.5'')
                     demo_engine demo_fs)
    in fs_db fs1 ''/b.db'' = None \<and>
       cli_process demo_num_host 1 None (Some ''/b.db'') ''/w'' (CmdList None None None None) demo_engine fs1 =
         (Inr (OutMemories [demo_rec]),
          fs1\<lparr>fs_db := (fs_db fs1)(''/b.db'' \<mapsto> [demo_rec]), fs_wal := (fs_wal fs1)(''/w/memory.wal'' := [])\<rparr>))"
proof -
  have e: "cli_engine (demo_engine\<lparr>e_store := [], e_dbPath := p, e_wal := [add_entry 0 demo_rec], e_walPath := w\<rparr>) =
           demo_engine\<lparr>e_store := [demo_rec], e_dbPath := p, e_walPath := w\<rparr>" for p w
    by (simp add: cli_engine_def restart_def recoverWal_def flushWal_def demo_engine_def Let_def
        upsertMemory_def store_ids_def)
  have l: "engine_list \<lparr>lo_category = None, lo_tags = Some [], lo_since = None, lo_until = None, lo_limit = None,
             lo_offset = None\<rparr> (demo_engine\<lparr>e_store := [demo_rec], e_dbPath := p, e_walPath := w\<rparr>) = Inr [demo_rec]" for p w
    by (simp add: engine_list_def listMemories_def list_where_def sql_limit_offset_def tag_filter_def)
  have w: "e_wal demo_engine = []" by (simp add: demo_engine_def)
  show ?thesis
    unfolding demo_process_add Let_def fst_conv snd_conv
    by (simp add: cli_process_def engine_paths_def DEFAULT_WAL_PATH_def new_SQLiteStore_def
        cli_main_def e cli_list_def parseDurationMs_def cli_optCategory_def cli_parseTags_def js_truthy_str_def
        query_number_def l engine_outcome_def w Let_def)
qed

text \<open>
  Two \<open>POST /memories/summarize\<close> requests that overlap both plan from the table
  before either has added its summary, so the group of low-importance facts is summarized
  twice: the table ends with two identical summary records, where the same two requests
  one after the other leave one (the second finds the table below the threshold).
\<close>

lemma demo_summarize_twice:
  "(\<exists>c. srv_run demo_host \<lparr>srv_engine = demo_sum_engine, srv_pending = [], srv_answered = [], srv_next = 0\<rparr>
          [Arrive 5 PostSummarize, Arrive 5 PostSummarize, Resume 5 0, Resume 5 1] c \<and>
        map content (e_store (srv_engine c)) = [''c'', ''Summary (fact)  - : a b'', ''Summary (fact)  - : a b'']) \<and>
   map content (e_store (snd (server_handle demo_host 5 PostSummarize
                                 (snd (server_handle demo_host 5 PostSummarize demo_sum_engine))))) =
     [''c'', ''Summary (fact)  - : a b'']"
proof
  obtain c where c: "srv_exec_run demo_host [Arrive 5 PostSummarize, Arrive 5 PostSummarize, Resume 5 0, Resume 5 1]
        \<lparr>srv_engine = demo_sum_engine, srv_pending = [], srv_answered = [], srv_next = 0\<rparr> = Some c"
    and m: "map content (e_store (srv_engine c)) = [''c'', ''Summary (fact)  - : a b'', ''Summary (fact)  - : a b'']"
    using demo_twice by (auto split: option.splits)
  show "\<exists>c. srv_run demo_host \<lparr>srv_engine = demo_sum_engine, srv_pending = [], srv_answered = [], srv_next = 0\<rparr>
          [Arrive 5 PostSummarize, Arrive 5 PostSummarize, Resume 5 0, Resume 5 1] c \<and>
        map content (e_store (srv_engine c)) = [''c'', ''Summary (fact)  - : a b'', ''Summary (fact)  - : a b'']"
    using srv_exec_run_sound [OF c] m by (intro exI [of _ c] conjI)
next
  have b: "buildSummaries (e_toISO demo_sum_engine) 5 (getAllMemories (e_store demo_sum_engine))
             \<lparr>maxGroupSize = 12, preserveImportanceThreshold = e_preserveImportanceThreshold demo_sum_engine\<rparr> =
           Inr [demo_plan]"
    using demo_facts_plans by (simp add: demo_sum_engine_def demo_engine_def getAllMemories_def demo_summarize_options_def)
  show "map content (e_store (snd (server_handle demo_host 5 PostSummarize
                                 (snd (server_handle demo_host 5 PostSummarize demo_sum_engine))))) =
     [''c'', ''Summary (fact)  - : a b'']"
    using b
    by (simp add: summarize_def store_count_def engine_addMemory_def assertValidInput_def demo_plan_def
      demo_sum_engine_def demo_engine_def demo_client_def embedText_def js_trim_def is_js_space_def
      category_of_string_def CATEGORIES_def store_addMemory_def store_ids_def maybeFlushWal_def Let_def
      engine_delete_def deleteMemory_def demo_facts_def)
qed

text \<open>
  A server process on \<open>/w\<close> adds a record and boosts it with \<open>get\<close>; a CLI command
  started meanwhile recovers from the shared log and writes the logged record back over the
  boosted one (C25).
\<close>

lemma demo_engine_attach_empty:
  "fs_db fs ''/w/memory.db'' = None \<or> fs_db fs ''/w/memory.db'' = Some [] \<Longrightarrow> fs_wal fs ''/w/memory.wal'' = [] \<Longrightarrow>
   attach fs demo_engine = demo_engine"
  by (auto simp: attach_def demo_engine_def new_SQLiteStore_def)

lemma demo_server_run:
  "sys_run ([], demo_fs) [Spawn demo_engine, Step 0 (OpAdd 0 demo_input), Step 0 (OpGet 1 ''m'')]
     ([demo_live], demo_fs_live)"
proof -
  have e: "cli_engine demo_engine = demo_engine"
    by (simp add: cli_engine_def restart_def recoverWal_def demo_engine_def)
  let ?fs1 = "detach demo_engine demo_fs"
  have s1: "sys_step ([], demo_fs) (Spawn demo_engine) ([demo_engine], ?fs1)"
    using sys_step.spawn [of demo_engine demo_fs demo_engine "[]"]
    by (simp add: demo_engine_attach_empty demo_fs_def e)
  let ?fs2 = "detach demo_added ?fs1"
  have s2: "sys_step ([demo_engine], ?fs1) (Step 0 (OpAdd 0 demo_input)) ([demo_added], ?fs2)"
  proof -
    have "attach ?fs1 demo_engine = demo_engine"
      by (rule demo_engine_attach_empty) (simp_all add: detach_def demo_fs_def demo_engine_def)
    then have "proc_op (OpAdd 0 demo_input) demo_engine ?fs1 = (demo_added, ?fs2)"
      by (simp add: proc_op_def demo_add)
    then show ?thesis
      using sys_step.step [of 0 "[demo_engine]" "OpAdd 0 demo_input" ?fs1 demo_added ?fs2] by simp
  qed
  have fs2: "?fs2 = \<lparr>fs_db = (\<lambda>_. None)(''/w/memory.db'' \<mapsto> [demo_rec]),
                     fs_wal = (\<lambda>_. [])(''/w/memory.wal'' := [add_entry 0 demo_rec])\<rparr>"
    by (simp add: detach_def demo_added_def demo_engine_def demo_fs_def)
  have a2: "attach ?fs2 demo_added = demo_added"
    unfolding fs2 by (simp add: attach_def demo_added_def demo_engine_def new_SQLiteStore_def)
  have d3: "detach demo_live ?fs2 = demo_fs_live"
    unfolding fs2 by (simp add: detach_def demo_live_def demo_fs_live_def demo_added_def demo_engine_def)
  have "proc_op (OpGet 1 ''m'') demo_added ?fs2 = (demo_live, demo_fs_live)"
    unfolding proc_op_def Let_def engine_step.simps a2 demo_get d3 [symmetric] demo_live_def by simp
  then have s3: "sys_step ([demo_added], ?fs2) (Step 0 (OpGet 1 ''m'')) ([demo_live], demo_fs_live)"
    using sys_step.step [of 0 "[demo_added]" "OpGet 1 ''m''" ?fs2 demo_live demo_fs_live] by simp
  show ?thesis using s1 s2 s3 by (blast intro: sys_run.intros)
qed
lemma demo_spawn:
  "sys_step ([demo_live], demo_fs_live) (Spawn demo_engine)
     ([demo_live, demo_engine\<lparr>e_store := [demo_rec]\<rparr>], demo_fs_recovered)"
proof -
  have c: "cli_engine (attach demo_fs_live demo_engine) = demo_engine\<lparr>e_store := [demo_rec]\<rparr>"
    by (simp add: cli_engine_def attach_def demo_fs_live_def demo_engine_def new_SQLiteStore_def restart_def
        recoverWal_def flushWal_def Let_def upsertMemory_def store_ids_def demo_rec_def)
  have d: "detach (demo_engine\<lparr>e_store := [demo_rec]\<rparr>) demo_fs_live = demo_fs_recovered"
    by (simp add: detach_def demo_engine_def demo_fs_live_def demo_fs_recovered_def)
  show ?thesis
    using sys_step.spawn [of "demo_engine\<lparr>e_store := [demo_rec]\<rparr>" demo_fs_live demo_engine "[demo_live]"]
    by (simp add: c d demo_live_def demo_added_def)
qed

text \<open>
  The server's next \<open>get\<close> after the CLI process started boosts the logged importance
  0.5 to 0.52, where without the CLI process it would boost its own 0.52 to 0.54.
\<close>

lemma demo_spawn_reverts:
  "fst (engine_get 2 ''m'' (attach demo_fs_recovered demo_live)) =
     Some (demo_rec\<lparr>lastAccessed := 2, importance := 0.52\<rparr>) \<and>
   fst (engine_get 2 ''m'' (attach demo_fs_live demo_live)) =
     Some (demo_rec\<lparr>lastAccessed := 2, importance := 0.54\<rparr>)"
  by (simp add: engine_get_def attach_def demo_fs_recovered_def demo_fs_live_def new_SQLiteStore_def
      getMemory_def demo_rec_def Let_def demo_live_def demo_added_def demo_engine_def)

section \<open>Witnesses\<close>

text \<open>Each claim with a hypothesis, applied at one of the fixtures where its hypotheses hold.\<close>

theorem restart_recovers_log_witness:
  "store_inv (e_store (restart demo_crashed)) \<and> store_lookup (e_store (restart demo_crashed)) ''m'' = Some demo_rec"
proof -
  have h: "e_store demo_crashed = replay (take 0 (e_wal demo_crashed)) []"
    by (simp add: demo_crashed_def demo_engine_def)
  have i: "store_inv []" by (simp add: store_inv_def store_ids_def)
  have e: "log_effect (e_wal demo_crashed) ''m'' = Some (Some demo_rec)"
    by (simp add: demo_crashed_def entry_effect_def add_entry_def demo_rec_def)
  show ?thesis using Engine.restart_recovers_log [OF h i, of "''m''"] e by simp
qed

theorem addMemory_log_then_apply_witness:
  "e_store demo_engine = replay (e_wal demo_engine) [] \<and>
   engine_addMemory 0 demo_input demo_engine = (Inr demo_rec, demo_added) \<and>
   e_store demo_added = replay (e_wal demo_added) (if e_wal demo_added = [] then e_store demo_added else [])"
proof -
  have h: "e_store demo_engine = replay (e_wal demo_engine) []" by (simp add: demo_engine_def)
  show ?thesis using h demo_add Engine.addMemory_log_then_apply [OF h demo_add] by blast
qed

theorem delete_log_then_apply_witness:
  "e_store demo_added = replay (e_wal demo_added) [] \<and>
   engine_delete 1 ''m'' demo_added = (Inr True, demo_deleted) \<and>
   e_store demo_deleted = replay (e_wal demo_deleted) (if e_wal demo_deleted = [] then e_store demo_deleted else [])"
  using demo_added_replay demo_delete Engine.delete_log_then_apply [OF demo_added_replay demo_delete] by blast

theorem engine_run_inv_witness:
  "engine_inv demo_engine \<and> list_all op_ok [OpAdd 0 demo_input, OpGet 1 ''m'', OpDecay 2] \<and>
   store_inv (e_store (engine_run [OpAdd 0 demo_input, OpGet 1 ''m'', OpDecay 2] demo_engine)) \<and>
   list_all unit_importance (e_store (engine_run [OpAdd 0 demo_input, OpGet 1 ''m'', OpDecay 2] demo_engine))"
proof -
  have ops: "list_all op_ok [OpAdd 0 demo_input, OpGet 1 ''m'', OpDecay 2]"
    by (simp add: demo_input_def input_ok_def)
  show ?thesis using demo_engine_inv ops Engine.engine_run_inv [OF demo_engine_inv ops] by blast
qed

theorem addMemory_error_unchanged_witness:
  "engine_addMemory 0 demo_input demo_nokey = (Inl EmbeddingUnavailable, demo_nokey) \<and>
   EmbeddingUnavailable \<noteq> StoreConstraint"
proof -
  have h: "engine_addMemory 0 demo_input demo_nokey = (Inl EmbeddingUnavailable, demo_nokey)"
    unfolding engine_addMemory_def demo_input_valid
    by (simp add: demo_nokey_def embedText_def demo_input_def demo_client_def Let_def)
  have "demo_nokey = demo_nokey"
    using Engine.addMemory_error_unchanged [OF h] by simp
  then show ?thesis using h by simp
qed

theorem addMemory_constraint_logged_witness:
  "engine_addMemory 0 demo_input demo_added =
     (Inl StoreConstraint, demo_added\<lparr>e_uuidNext := 2, e_wal := [add_entry 0 demo_rec, add_entry 0 demo_rec]\<rparr>) \<and>
   (\<exists>m. getMemory (mem_id m) (e_store demo_added) \<noteq> None \<and>
        e_store (demo_added\<lparr>e_uuidNext := 2, e_wal := [add_entry 0 demo_rec, add_entry 0 demo_rec]\<rparr>) =
          e_store demo_added \<and>
        e_wal (demo_added\<lparr>e_uuidNext := 2, e_wal := [add_entry 0 demo_rec, add_entry 0 demo_rec]\<rparr>) =
          e_wal demo_added @ [add_entry 0 m])"
proof -
  have h: "engine_addMemory 0 demo_input demo_added =
     (Inl StoreConstraint, demo_added\<lparr>e_uuidNext := 2, e_wal := [add_entry 0 demo_rec, add_entry 0 demo_rec]\<rparr>)"
    unfolding engine_addMemory_def demo_input_valid
    by (simp add: demo_added_def demo_engine_def embedText_def demo_input_def demo_client_def Let_def
        store_addMemory_def store_ids_def demo_rec_def js_trim_def is_js_space_def)
  show ?thesis using h Engine.addMemory_constraint_logged [OF h] by blast
qed

theorem engine_get_persisted_witness:
  "fst (engine_get 1 ''m'' demo_added) =
     Some (demo_rec\<lparr>lastAccessed := 1, importance := min 1 (importance demo_rec + 0.02)\<rparr>) \<and>
   store_lookup (e_store (snd (engine_get 1 ''m'' demo_added))) =
     (store_lookup (e_store demo_added))(''m'' \<mapsto> demo_rec\<lparr>lastAccessed := 1, importance := min 1 (importance demo_rec + 0.02)\<rparr>) \<and>
   e_wal (snd (engine_get 1 ''m'' demo_added)) = e_wal demo_added"
  by (rule Engine.engine_get_persisted) (simp add: demo_added_def getMemory_def demo_rec_def)

theorem pruneBelowImportance_refines_witness:
  "store_inv demo_search_table \<and>
   store_lookup (snd (pruneBelowImportance 0.6 2 demo_search_table)) ''a'' = None \<and>
   store_lookup (snd (pruneBelowImportance 0.6 2 demo_search_table)) ''b'' =
     Some (demo_row ''b'' [0, 1] [] 2 0.5)"
proof -
  have h: "store_inv demo_search_table"
    by (simp add: store_inv_def store_ids_def demo_search_table_def demo_row_def)
  have a: "store_lookup (snd (pruneBelowImportance 0.6 2 demo_search_table)) ''a'' = None"
    using Store.pruneBelowImportance_refines [OF h, of "0.6" 2 "''a''"]
    by (simp add: store_lookup_def demo_search_table_def demo_row_def)
  have b: "store_lookup (snd (pruneBelowImportance 0.6 2 demo_search_table)) ''b'' =
     Some (demo_row ''b'' [0, 1] [] 2 0.5)"
    using Store.pruneBelowImportance_refines [OF h, of "0.6" 2 "''b''"]
    by (simp add: store_lookup_def demo_search_table_def demo_row_def)
  show ?thesis using h a b by blast
qed

theorem listMemories_sorted_sound_witness:
  "listMemories (demo_list_options None None) demo_tag_table =
     Inr [demo_row ''b'' [1, 0] [] 2 0.5, demo_row ''a'' [1, 0] [''t''] 1 0.5] \<and>
   sorted_wrt (\<lambda>a b. timestamp b \<le> timestamp a) [demo_row ''b'' [1, 0] [] 2 0.5, demo_row ''a'' [1, 0] [''t''] 1 0.5]"
proof -
  have h: "listMemories (demo_list_options None None) demo_tag_table =
     Inr [demo_row ''b'' [1, 0] [] 2 0.5, demo_row ''a'' [1, 0] [''t''] 1 0.5]"
    by (simp add: listMemories_def demo_list_options_def demo_tag_table_def demo_row_def list_where_def
        sql_limit_offset_def tag_filter_def)
  show ?thesis using h Store.listMemories_sorted_sound [OF h] by blast
qed

theorem readAll_appends_witness:
  "readAll (\<lambda>l. if l = ''{}'' then Some (delete_entry 0 ''m'') else None)
     (fold (wal_append (\<lambda>_. ''{}'')) [delete_entry 0 ''m'', delete_entry 0 ''m''] (wal_clear None)) =
   Inr [delete_entry 0 ''m'', delete_entry 0 ''m''] \<and>
   readAll (\<lambda>l. if l = ''{}'' then Some (delete_entry 0 ''m'') else None)
     (fold (wal_append (\<lambda>_. ''{}'')) [delete_entry 0 ''m'', delete_entry 0 ''m''] None) =
   Inr [delete_entry 0 ''m'', delete_entry 0 ''m'']"
  by (rule Wal.readAll_appends) (simp add: line_codec_def newline_def is_js_space_def)

theorem compaction_plan_safe_witness:
  "buildSummaries (\<lambda>_. []) 5 demo_facts demo_summarize_options = Inr [demo_plan] \<and>
   (\<exists>c. input_category (summary demo_plan) = category_name c \<and>
        input_importance (summary demo_plan) = Some (preserveImportanceThreshold demo_summarize_options) \<and>
        input_tags (summary demo_plan) = Some [''summary''] \<and>
        (\<forall>i\<in>set (sourceIds demo_plan). \<exists>m\<in>set demo_facts. mem_id m = i \<and> category m = c \<and>
           importance m < preserveImportanceThreshold demo_summarize_options))"
proof -
  have p: "demo_plan \<in> set [demo_plan]" by simp
  show ?thesis using demo_facts_plans Summarizer.compaction_plan_safe [OF demo_facts_plans p] by blast
qed

theorem compaction_group_size_witness:
  "buildSummaries (\<lambda>_. []) 5 demo_facts demo_summarize_options = Inr [demo_plan] \<and>
   2 \<le> maxGroupSize demo_summarize_options \<and>
   2 \<le> length (sourceIds demo_plan) \<and> length (sourceIds demo_plan) \<le> nat (maxGroupSize demo_summarize_options)"
proof -
  have p: "demo_plan \<in> set [demo_plan]" by simp
  have g: "2 \<le> maxGroupSize demo_summarize_options" by (simp add: demo_summarize_options_def)
  show ?thesis using demo_facts_plans g Summarizer.compaction_group_size [OF demo_facts_plans p g] by blast
qed

theorem compaction_oldest_first_witness:
  "buildSummaries (\<lambda>_. []) 5 demo_facts demo_summarize_options = Inr [demo_plan] \<and>
   (\<exists>c. sourceIds demo_plan =
          map mem_id (group_slice demo_summarize_options (eligible (preserveImportanceThreshold demo_summarize_options) c demo_facts)) \<and>
        (\<forall>s\<in>set (group_slice demo_summarize_options (eligible (preserveImportanceThreshold demo_summarize_options) c demo_facts)).
          \<forall>m\<in>set (eligible (preserveImportanceThreshold demo_summarize_options) c demo_facts).
            m \<notin> set (group_slice demo_summarize_options (eligible (preserveImportanceThreshold demo_summarize_options) c demo_facts)) \<longrightarrow>
            timestamp s \<le> timestamp m))"
proof -
  have p: "demo_plan \<in> set [demo_plan]" by simp
  show ?thesis using demo_facts_plans Summarizer.compaction_oldest_first [OF demo_facts_plans p] by blast
qed

theorem compaction_complete_witness:
  "1 \<le> maxGroupSize demo_summarize_options \<and>
   (\<exists>ps. buildSummaries (\<lambda>_. []) 5 demo_facts demo_summarize_options = Inr ps \<and>
         distinct (map (\<lambda>p. input_category (summary p)) ps) \<and>
         (\<forall>c. (\<exists>p\<in>set ps. input_category (summary p) = category_name c) \<longleftrightarrow>
               2 \<le> length (eligible (preserveImportanceThreshold demo_summarize_options) c demo_facts)))"
proof -
  have g: "1 \<le> maxGroupSize demo_summarize_options" by (simp add: demo_summarize_options_def)
  show ?thesis using g Summarizer.compaction_complete [OF g, of "\<lambda>_. []" 5 demo_facts] by blast
qed

theorem semanticSearch_sorted_witness:
  "semanticSearch demo_search_table demo_client ''q'' demo_search_options = Inr demo_results \<and>
   sorted_wrt (\<lambda>a b. score b \<le> score a) demo_results"
  using demo_search Search.semanticSearch_sorted [OF demo_search] by blast

theorem semanticSearch_top_witness:
  "search_score [1, 0] (search_keyword ''q'' demo_search_options) (demo_row ''b'' [0, 1] [] 2 0.5) \<le> 0.8"
proof -
  have q: "embedText demo_client ''q'' = Inr [1, 0]" by (simp add: embedText_def demo_client_def)
  have r: "\<lparr>sr_memory = demo_row ''a'' [1, 0] [] 1 0.5, score = 0.8\<rparr> \<in> set demo_results"
    by (simp add: demo_results_def)
  have m: "demo_row ''b'' [0, 1] [] 2 0.5 \<in> set (search_candidates demo_search_options demo_search_table)"
    by (simp add: search_candidates_def demo_search_options_def tag_filter_def demo_search_table_def)
  have n: "demo_row ''b'' [0, 1] [] 2 0.5 \<notin> sr_memory ` set demo_results"
    by (simp add: demo_results_def demo_row_def)
  show ?thesis using Search.semanticSearch_top [OF demo_search q r m n] by simp
qed

theorem semanticSearch_stable_witness:
  "prefix (map sr_memory (filter (\<lambda>r. score r = 0.8) demo_results))
     (filter (\<lambda>m. search_score [1, 0] (search_keyword ''q'' demo_search_options) m = 0.8)
       (search_candidates demo_search_options demo_search_table))"
proof -
  have q: "embedText demo_client ''q'' = Inr [1, 0]" by (simp add: embedText_def demo_client_def)
  show ?thesis using Search.semanticSearch_stable [OF demo_search q] by blast
qed

theorem semanticSearch_length_witness:
  "0 \<le> search_limit demo_search_options \<and>
   length demo_results = min (nat (search_limit demo_search_options))
     (length (search_candidates demo_search_options demo_search_table))"
proof -
  have l: "0 \<le> search_limit demo_search_options" by (simp add: search_limit_def demo_search_options_def)
  show ?thesis using l Search.semanticSearch_length [OF demo_search l] by blast
qed

theorem cosineSimilarity_self_witness: "cosineSimilarity [1, 0] [1, 0] = 1"
  by (rule Embeddings.cosineSimilarity_self) simp

theorem cosineSimilarity_degenerate_witness: "cosineSimilarity [1] [1, 0] = 0"
  by (rule Embeddings.cosineSimilarity_degenerate) simp

theorem cosineSimilarity_spec_witness:
  "cosineSimilarity [1, 0] [1, 0] = 1 \<and> cosineSimilarity [1, 0] [0, 1] = 0 \<and> cosineSimilarity [1] [1, 0] = 0"
  using Embeddings.cosineSimilarity_spec [of "[1, 0]" "[0, 1]"] Embeddings.cosineSimilarity_spec [of "[1]" "[1, 0]"]
  by (simp add: dot_list_def)

theorem applyDecay_bounds_witness:
  "minimumImportance demo_decay_options \<le> importance (applyDecay demo_rec 86400000 demo_decay_options) \<and>
   importance (applyDecay demo_rec 86400000 demo_decay_options) \<le>
     max (minimumImportance demo_decay_options) (importance demo_rec) \<and>
   importance (applyDecay demo_rec 172800000 demo_decay_options) \<le>
     importance (applyDecay demo_rec 86400000 demo_decay_options)"
  using Decay.applyDecay_bounds [of demo_decay_options demo_rec 86400000 172800000]
  by (simp add: demo_decay_options_def demo_rec_def)

theorem health_reports_paths_witness:
  "health (engine_run [OpAdd 0 demo_input] (demo_engine\<lparr>e_dbPath := ''/b.db''\<rparr>)) =
     \<lparr>ok = True, memoryCount = length (e_store (engine_run [OpAdd 0 demo_input] (demo_engine\<lparr>e_dbPath := ''/b.db''\<rparr>))),
      dbPath = ''/b.db'', walPath = ''/w/memory.wal''\<rparr>"
  using Engine.health_reports_paths [OF demo_fresh_new, of "[OpAdd 0 demo_input]"] by (simp add: demo_options_def)

theorem applyDecay_skew_witness:
  "importance (applyDecay demo_rec (- 5) demo_decay_options) =
   max (minimumImportance demo_decay_options) (importance demo_rec)"
  by (rule Decay.applyDecay_skew) (simp add: demo_rec_def)

theorem cli_parseTags_roundtrip_witness:
  "list_all tag_ok [''a'', ''b''] \<and> cli_parseTags (Some (js_join '','' [''a'', ''b''])) = [''a'', ''b'']"
proof -
  have h: "list_all tag_ok [''a'', ''b'']" by (simp add: tag_ok_def js_trim_def is_js_space_def)
  show ?thesis using h Cli.cli_parseTags_roundtrip [of _ "[''a'', ''b'']"] by blast
qed

theorem delete_absent_logged_witness:
  "fst (server_handle demo_host 1 (DeleteMemory ''m'') demo_engine) = \<lparr>status = 404, resp_body = JNotFound\<rparr> \<and>
   e_store (snd (server_handle demo_host 1 (DeleteMemory ''m'') demo_engine)) = [] \<and>
   e_wal (snd (server_handle demo_host 1 (DeleteMemory ''m'') demo_engine)) = [delete_entry 1 ''m'']"
proof -
  have i: "''m'' \<noteq> []" by simp
  have g: "getMemory ''m'' (e_store demo_engine) = None" by (simp add: demo_engine_def getMemory_def)
  have p: "Suc (e_walPending demo_engine) < e_walFlushThreshold demo_engine" by (simp add: demo_engine_def)
  show ?thesis using Server.delete_absent_logged [OF i g p, of demo_host] by (simp add: demo_engine_def)
qed

theorem add_get_list_delete_witness:
  "getMemory ''m'' (e_store demo_added) = Some demo_rec \<and> store_count (e_store demo_added) = 1 \<and>
   fst (engine_delete 1 ''m'' demo_added) = Inr True \<and>
   getMemory ''m'' (e_store (snd (engine_delete 1 ''m'' demo_added))) = None"
proof -
  have i: "mem_id demo_rec \<noteq> []" by (simp add: demo_rec_def)
  have c: "store_count (e_store demo_engine) = 0" by (simp add: demo_engine_def store_count_def)
  show ?thesis
    using Engine.add_get_list_delete [OF demo_add i, of 1] c by (simp add: demo_rec_def)
qed

theorem walPending_bound_witness:
  "0 < e_walFlushThreshold demo_engine \<and> e_walPending demo_engine < e_walFlushThreshold demo_engine \<and>
   e_walPending (engine_run [OpAdd 0 demo_input, OpDelete 1 ''m'', OpFlush] demo_engine) < 20"
proof -
  have t: "0 < e_walFlushThreshold demo_engine" and p: "e_walPending demo_engine < e_walFlushThreshold demo_engine"
    by (simp_all add: demo_engine_def)
  show ?thesis
    using t p Engine.walPending_bound [OF t p, of "[OpAdd 0 demo_input, OpDelete 1 ''m'', OpFlush]"]
    by (simp add: demo_engine_def)
qed

theorem interleaved_server_inv_witness:
  "store_inv (e_store (srv_engine demo_final)) \<and> list_all unit_importance (e_store (srv_engine demo_final)) \<and>
   mset (map fst (srv_answered demo_final) @ map fst (srv_pending demo_final)) = mset [0..<srv_next demo_final]"
proof -
  have run: "srv_run demo_host demo_server demo_schedule demo_final"
    by (rule srv_exec_run_sound [OF demo_interleaved])
  have inv: "server_inv demo_server"
    by (simp add: server_inv_def demo_server_def demo_added_def engine_inv_def demo_engine_def store_inv_def
        store_ids_def demo_rec_def unit_importance_def entry_ok_def add_entry_def)
  have ok: "list_all event_ok demo_schedule"
    by (simp add: demo_schedule_def demo_search_req_def)
  show ?thesis by (rule Interleaving.interleaved_server_inv [OF run inv ok])
qed

theorem spawn_reverts_live_process_witness:
  "store_lookup (e_store (attach demo_fs_recovered demo_live)) ''m'' = Some demo_rec \<and>
   fst (engine_get 2 ''m'' (attach demo_fs_recovered demo_live)) =
     Some (demo_rec\<lparr>lastAccessed := 2, importance := min 1 (importance demo_rec + 0.02)\<rparr>)"
proof -
  have "e_dbPath demo_live = e_dbPath demo_engine"
    by (simp add: demo_live_def demo_added_def)
  moreover have "log_effect (fs_wal demo_fs_live (e_walPath demo_engine)) ''m'' = Some (Some demo_rec)"
    by (simp add: demo_fs_live_def demo_engine_def entry_effect_def add_entry_def demo_rec_def)
  ultimately show ?thesis
    using Processes.spawn_reverts_live_process [OF demo_spawn, of 0 "''m''" demo_rec 2] by simp
qed

theorem list_tags_after_limit_witness:
  "\<exists>rows. listMemories ((demo_list_options (Some [''t'']) (Some (Num (of_int 1))))\<lparr>lo_tags := None, lo_limit := None\<rparr>)
           demo_tag_table = Inr rows \<and>
         listMemories (demo_list_options (Some [''t'']) (Some (Num (of_int 1)))) demo_tag_table =
           Inr (filter (has_tags [''t'']) (take (nat 1) rows))"
  by (rule Store.list_tags_after_limit) (simp_all add: demo_list_options_def)

theorem shared_log_crosses_databases_witness:
  "\<exists>t. fs_db (snd (cli_process demo_num_host 1 None (Some ''/b.db'') ''/w'' (CmdList None None None None) demo_engine
           \<lparr>fs_db = (\<lambda>_. None)(''/a.db'' \<mapsto> [demo_rec]), fs_wal = (\<lambda>_. [])(''/w/memory.wal'' := [add_entry 0 demo_rec])\<rparr>))
         ''/b.db'' = Some t \<and> store_lookup t (mem_id demo_rec) = Some demo_rec"
  by (rule Processes.shared_log_crosses_databases [OF demo_process_add])

theorem search_loses_concurrent_boost_witness:
  "store_lookup (e_store demo_added) ''m'' = Some demo_rec \<and>
   store_lookup [demo_rec\<lparr>lastAccessed := 3, importance := 0.53\<rparr>] ''m'' =
     Some (demo_rec\<lparr>lastAccessed := 2, importance := 13 / 25\<rparr>\<lparr>lastAccessed := 3,
                      importance := min 1 (importance demo_rec + 0.03)\<rparr>)"
proof -
  let ?opts = "\<lparr>so_limit = None, so_category = None, so_tags = None, so_keyword = None\<rparr>"
  let ?s' = "demo_added\<lparr>e_store := [demo_rec\<lparr>lastAccessed := 2, importance := 13 / 25\<rparr>]\<rparr>"
  let ?r = "\<lparr>sr_memory = demo_rec, score = search_score [1, 0] ''x'' demo_rec\<rparr>"
  have b: "search_begin ''x'' ?opts demo_added = Inr (Inr demo_search_job)"
    by (simp add: search_begin_def getAllMemories_def Let_def demo_added_def demo_engine_def js_trim_def
        is_js_space_def demo_search_job_def)
  have i: "store_inv (e_store demo_added)" by (simp add: demo_added_def store_inv_def store_ids_def demo_rec_def)
  have res: "search_resume 3 demo_search_job (Inr [1, 0]) ?s' =
               (Inr [?r], demo_added\<lparr>e_store := [demo_rec\<lparr>lastAccessed := 3, importance := 0.53\<rparr>]\<rparr>)"
    by (simp add: search_resume_def demo_search_job_def search_limit_def search_candidates_def tag_filter_def
        search_ranking_def js_slice_prefix_def search_keyword_def Let_def demo_boost del: apply_search_boosts.simps)
  have l: "store_lookup (e_store ?s') (mem_id (sr_memory ?r)) = Some (demo_rec\<lparr>lastAccessed := 2, importance := 13 / 25\<rparr>)"
    by (simp add: demo_rec_def)
  show ?thesis
    using Interleaving.search_loses_concurrent_boost [OF b i res _ l] by (simp add: demo_rec_def)
qed

end
